(* ===== verification/Prelude.thy ===== *)
theory Prelude
  imports Complex_Main "HOL-Library.Word" "HOL-Library.Sublist"
begin

text \<open>
  What every component of the model shares: Python values (bytes, strings, exceptions,
  results), the slices and searches of \<open>bytes\<close>, the fixed-width integers of the
  \<open>struct\<close> module, and the text codecs (hexadecimal, UTF-8) the program calls.

  \<^item> A Python \<open>bytes\<close> is a list of 8-bit words, a Python \<open>str\<close> a list of code
    points, so that \<open>len\<close>, slicing and the codecs count what Python counts.
  \<^item> An exception is a value: a fallible operation returns \<open>Inl e\<close> for a raised
    exception and \<open>Inr x\<close> for a returned value.
\<close>

unbundle bit_operations_syntax

section \<open>Python values\<close>

type_synonym byte = "8 word"
type_synonym bytes = "8 word list"
type_synonym pystr = "nat list"

text \<open>Literals: \<open>u ''abc''\<close> is the \<open>str\<close> and \<open>b8 ''abc''\<close> the \<open>bytes\<close> object.\<close>

abbreviation u :: "string \<Rightarrow> pystr" where
  "u s \<equiv> map of_char s"

abbreviation b8 :: "string \<Rightarrow> bytes" where
  "b8 s \<equiv> map of_char s"

datatype py_exn =
    IndexError | KeyError | ValueError | UnicodeDecodeError | UnicodeEncodeError
  | TypeError | StructError | DecodeError | AssertionError | LookupError
  | AttributeError | UnboundLocalError | NotImplementedError | OverflowError | ImportError
  | OSError | ZeroDivisionError | InterfaceError | ProgrammingError | IntegrityError | RemoteProtocolError | LocalProtocolError
  | NoOptionError | NoSectionError | RuntimeError | GetoptError

text \<open>\<open>UnicodeDecodeError\<close> and \<open>UnicodeEncodeError\<close> are subclasses of \<open>ValueError\<close>.\<close>

fun is_ValueError :: "py_exn \<Rightarrow> bool" where
  "is_ValueError ValueError = True"
| "is_ValueError UnicodeDecodeError = True"
| "is_ValueError UnicodeEncodeError = True"
| "is_ValueError _ = False"

type_synonym 'a res = "py_exn + 'a"

fun and_then :: "'a res \<Rightarrow> ('a \<Rightarrow> 'b res) \<Rightarrow> 'b res" where
  "and_then (Inl e) f = Inl e"
| "and_then (Inr x) f = f x"

fun map_res :: "('a \<Rightarrow> 'b res) \<Rightarrow> 'a list \<Rightarrow> 'b list res" where
  "map_res f [] = Inr []"
| "map_res f (x # xs) = and_then (f x) (\<lambda>y. and_then (map_res f xs) (\<lambda>ys. Inr (y # ys)))"

text \<open>A loop over a list that may raise\<close>

fun fold_res :: "('x \<Rightarrow> 's \<Rightarrow> 's res) \<Rightarrow> 'x list \<Rightarrow> 's \<Rightarrow> 's res" where
  "fold_res f [] s = Inr s"
| "fold_res f (x # xs) s = and_then (f x s) (fold_res f xs)"

named_theorems res_simps "inversion of results: when a chain of fallible calls returns or raises"

lemma and_then_Inr [res_simps]: "and_then m f = Inr y \<longleftrightarrow> (\<exists>x. m = Inr x \<and> f x = Inr y)"
  by (cases m) auto

lemma and_then_Inl [res_simps]:
  "and_then m f = Inl e \<longleftrightarrow> m = Inl e \<or> (\<exists>x. m = Inr x \<and> f x = Inl e)"
  by (cases m) auto

lemma and_then_cong [fundef_cong]:
  "m = m' \<Longrightarrow> (\<And>x. m' = Inr x \<Longrightarrow> f x = f' x) \<Longrightarrow> and_then m f = and_then m' f'"
  by (cases m') auto

lemma and_then_assoc: "and_then (and_then m f) g = and_then m (\<lambda>x. and_then (f x) g)"
  by (cases m) auto

lemma and_then_Inr_right [simp]: "and_then m Inr = m"
  by (cases m) auto

lemma map_res_Inr_length: "map_res f xs = Inr ys \<Longrightarrow> length ys = length xs"
  by (induction xs arbitrary: ys) (auto simp: res_simps)

lemma map_res_Inr_nth:
  "map_res f xs = Inr ys \<Longrightarrow> i < length xs \<Longrightarrow> f (xs ! i) = Inr (ys ! i)"
  by (induction xs arbitrary: ys i) (auto simp: res_simps nth_Cons split: nat.splits)

lemma map_res_total: "(\<And>x. x \<in> set xs \<Longrightarrow> f x = Inr (g x)) \<Longrightarrow> map_res f xs = Inr (map g xs)"
  by (induction xs) auto

lemma map_res_cong [fundef_cong]:
  "xs = ys \<Longrightarrow> (\<And>x. x \<in> set ys \<Longrightarrow> f x = g x) \<Longrightarrow> map_res f xs = map_res g ys"
  by (induction ys arbitrary: xs) auto

definition returns :: "'a res \<Rightarrow> bool" where
  "returns m \<longleftrightarrow> (\<exists>x. m = Inr x)"

lemma returns_Inr [simp]: "returns (Inr x)"
  by (simp add: returns_def)

lemma returns_Inl [simp]: "\<not> returns (Inl e)"
  by (simp add: returns_def)

lemma returns_and_then [res_simps]:
  "returns (and_then m f) \<longleftrightarrow> (\<exists>x. m = Inr x \<and> returns (f x))"
  by (cases m) auto

text \<open>
  \<open>only_raises P m\<close>: if \<open>m\<close> raises, then an exception in \<open>P\<close>. The rules follow the
  structure of a computation, so that what an operation may raise is read off its parts.
\<close>

definition only_raises :: "(py_exn \<Rightarrow> bool) \<Rightarrow> 'a res \<Rightarrow> bool" where
  "only_raises P m \<longleftrightarrow> (\<forall>e. m = Inl e \<longrightarrow> P e)"

named_theorems raises_intro "what a computation may raise, by its structure"

lemma only_raises_Inr [raises_intro, simp]: "only_raises P (Inr x)"
  by (simp add: only_raises_def)

lemma only_raises_Inl [simp]: "only_raises P (Inl e) \<longleftrightarrow> P e"
  by (simp add: only_raises_def)

lemma only_raises_InlI [raises_intro]: "P e \<Longrightarrow> only_raises P (Inl e)"
  by simp

lemma only_raises_and_then [raises_intro]:
  "only_raises P m \<Longrightarrow> (\<And>x. m = Inr x \<Longrightarrow> only_raises P (f x)) \<Longrightarrow> only_raises P (and_then m f)"
  by (cases m) (auto simp: only_raises_def)

lemma only_raises_map_res [raises_intro]:
  "(\<And>x. x \<in> set xs \<Longrightarrow> only_raises P (f x)) \<Longrightarrow> only_raises P (map_res f xs)"
  by (induction xs) (auto intro!: only_raises_and_then)

lemma only_raises_if [raises_intro]:
  "(c \<Longrightarrow> only_raises P a) \<Longrightarrow> (\<not> c \<Longrightarrow> only_raises P b) \<Longrightarrow> only_raises P (if c then a else b)"
  by simp

lemma only_raises_Let [raises_intro]: "only_raises P (f x) \<Longrightarrow> only_raises P (let y = x in f y)"
  by simp

lemma only_raises_case_option [raises_intro]:
  "(x = None \<Longrightarrow> only_raises P a) \<Longrightarrow> (\<And>y. x = Some y \<Longrightarrow> only_raises P (f y)) \<Longrightarrow>
   only_raises P (case x of None \<Rightarrow> a | Some y \<Rightarrow> f y)"
  by (cases x) auto

lemma only_raises_case_list [raises_intro]:
  "(xs = [] \<Longrightarrow> only_raises P a) \<Longrightarrow> (\<And>y ys. xs = y # ys \<Longrightarrow> only_raises P (f y ys)) \<Longrightarrow>
   only_raises P (case xs of [] \<Rightarrow> a | y # ys \<Rightarrow> f y ys)"
  by (cases xs) auto

lemma only_raises_case_prod [raises_intro]:
  "(\<And>a b. x = (a, b) \<Longrightarrow> only_raises P (f a b)) \<Longrightarrow> only_raises P (case x of (a, b) \<Rightarrow> f a b)"
  by (cases x) auto

lemma only_raisesD: "only_raises P m \<Longrightarrow> m = Inl e \<Longrightarrow> P e"
  by (simp add: only_raises_def)

lemma only_raises_mono: "only_raises P m \<Longrightarrow> (\<And>e. P e \<Longrightarrow> Q e) \<Longrightarrow> only_raises Q m"
  by (auto simp: only_raises_def)

lemma only_raises_False: "only_raises (\<lambda>e. False) m \<longleftrightarrow> returns m"
  by (cases m) (auto simp: only_raises_def)

section \<open>Sequences: slices, indexing, searching, padding\<close>

text \<open>\<open>xs[a:b]\<close> for non-negative bounds, and \<open>xs[i]\<close>, which raises out of range.\<close>

definition pyslice :: "nat \<Rightarrow> nat \<Rightarrow> 'a list \<Rightarrow> 'a list" where
  "pyslice a b xs = drop a (take b xs)"

definition pyget :: "'a list \<Rightarrow> nat \<Rightarrow> 'a res" where
  "pyget xs i = (if i < length xs then Inr (xs ! i) else Inl IndexError)"

text \<open>\<open>xs[:-1]\<close> is \<open>butlast\<close>; \<open>xs[i:]\<close> with an integer that may be negative:\<close>

definition pyslice_from :: "int \<Rightarrow> 'a list \<Rightarrow> 'a list" where
  "pyslice_from i xs = drop (nat (if i < 0 then max 0 (int (length xs) + i) else i)) xs"

definition ljust :: "nat \<Rightarrow> 'a \<Rightarrow> 'a list \<Rightarrow> 'a list" where
  "ljust n c xs = xs @ replicate (n - length xs) c"

definition rstrip :: "'a \<Rightarrow> 'a list \<Rightarrow> 'a list" where
  "rstrip c xs = rev (dropWhile (\<lambda>x. x = c) (rev xs))"

definition strip :: "'a \<Rightarrow> 'a list \<Rightarrow> 'a list" where
  "strip c xs = rstrip c (dropWhile (\<lambda>x. x = c) xs)"

lemma length_pyslice [simp]: "length (pyslice a b xs) = min b (length xs) - a"
  by (simp add: pyslice_def)

lemma pyslice_append: "b \<le> length xs \<Longrightarrow> pyslice a b (xs @ ys) = pyslice a b xs"
  by (simp add: pyslice_def)

lemma pyget_Inr [res_simps]: "pyget xs i = Inr x \<longleftrightarrow> i < length xs \<and> xs ! i = x"
  by (auto simp: pyget_def)

lemma pyget_Inl [res_simps]: "pyget xs i = Inl e \<longleftrightarrow> length xs \<le> i \<and> e = IndexError"
  by (auto simp: pyget_def)

lemma only_raises_pyget [raises_intro]: "P IndexError \<Longrightarrow> only_raises P (pyget xs i)"
  by (simp add: pyget_def)

lemma rstrip_snoc: "rstrip c (xs @ [x]) = (if x = c then rstrip c xs else xs @ [x])"
  by (simp add: rstrip_def)

lemma rstrip_replicate: "rstrip c (xs @ replicate n c) = rstrip c xs"
  by (induction n) (simp_all add: replicate_append_same [symmetric] rstrip_snoc
      flip: append_assoc)

lemma rstrip_id: "xs = [] \<or> last xs \<noteq> c \<Longrightarrow> rstrip c xs = xs"
  by (cases xs rule: rev_cases) (auto simp: rstrip_snoc rstrip_def)

lemma rstrip_ljust: "c \<notin> set xs \<Longrightarrow> rstrip c (ljust n c xs) = xs"
  by (metis last_in_set ljust_def rstrip_id rstrip_replicate)

lemma dropWhile_id: "c \<notin> set xs \<Longrightarrow> dropWhile (\<lambda>x. x = c) (xs @ ys) =
    (if xs = [] then dropWhile (\<lambda>x. x = c) ys else xs @ ys)"
  by (cases xs) auto

lemma strip_ljust: "c \<notin> set xs \<Longrightarrow> strip c (ljust n c xs) = xs"
proof (cases "xs = []")
  case True
  have "dropWhile (\<lambda>x. x = c) (replicate n c) = []" by simp
  with True show ?thesis by (simp add: strip_def ljust_def rstrip_def)
next
  case False
  assume c: "c \<notin> set xs"
  then have "dropWhile (\<lambda>x. x = c) (ljust n c xs) = ljust n c xs"
    using False by (cases xs) (auto simp: ljust_def)
  with c show ?thesis by (simp add: strip_def rstrip_ljust)
qed

text \<open>\<open>bytes.find(pat)\<close> and \<open>bytes.find(pat, i)\<close>: \<open>None\<close> stands for \<open>-1\<close>.\<close>

fun find_sub :: "'a list \<Rightarrow> 'a list \<Rightarrow> nat option" where
  "find_sub pat [] = (if pat = [] then Some 0 else None)"
| "find_sub pat (x # xs) =
     (if prefix pat (x # xs) then Some 0 else map_option Suc (find_sub pat xs))"

definition find_from :: "'a list \<Rightarrow> 'a list \<Rightarrow> nat \<Rightarrow> nat option" where
  "find_from pat xs i = map_option ((+) i) (find_sub pat (drop i xs))"

lemma find_sub_Some:
  "find_sub pat xs = Some i \<longleftrightarrow>
     i \<le> length xs \<and> prefix pat (drop i xs) \<and> (\<forall>j<i. \<not> prefix pat (drop j xs))"
proof (induction xs arbitrary: i)
  case Nil
  then show ?case by (auto simp: prefix_Nil)
next
  case (Cons x xs)
  show ?case
    using Cons.IH by (cases i) (auto simp: All_less_Suc2)
qed

lemma find_sub_None: "find_sub pat xs = None \<longleftrightarrow> (\<forall>i\<le>length xs. \<not> prefix pat (drop i xs))"
proof (induction xs)
  case Nil
  then show ?case by auto
next
  case (Cons x xs)
  have "(\<forall>i\<le>length (x # xs). \<not> prefix pat (drop i (x # xs))) \<longleftrightarrow>
      \<not> prefix pat (x # xs) \<and> (\<forall>i\<le>length xs. \<not> prefix pat (drop i xs))"
    by (auto simp: less_Suc_eq_le [symmetric] All_less_Suc2)
  with Cons.IH show ?case by auto
qed

lemma find_sub_bound: "find_sub pat xs = Some i \<Longrightarrow> i + length pat \<le> length xs"
  using prefix_length_le [of pat "drop i xs"] by (auto simp: find_sub_Some)

lemma prefix_drop_append: "prefix pat (drop i xs) \<Longrightarrow> prefix pat (drop i (xs @ ys))"
  by (simp add: prefix_prefix)

lemma prefix_drop_appendD:
  assumes "prefix pat (drop i (xs @ ys))" and "i + length pat \<le> length xs"
  shows "prefix pat (drop i xs)"
proof -
  have "prefix pat (drop i xs @ ys)" using assms by simp
  moreover have "prefix (drop i xs) (drop i xs @ ys)" by simp
  moreover have "length pat \<le> length (drop i xs)" using assms(2) by simp
  ultimately show ?thesis by (rule prefix_length_prefix)
qed

lemma find_sub_append:
  assumes "find_sub pat xs = Some i"
  shows "find_sub pat (xs @ ys) = Some i"
proof -
  from assms have len: "i + length pat \<le> length xs" by (rule find_sub_bound)
  have "\<not> prefix pat (drop j (xs @ ys))" if "j < i" for j
    using prefix_drop_appendD [of pat j xs ys] that len assms by (auto simp: find_sub_Some)
  with assms len show ?thesis by (auto simp: find_sub_Some prefix_prefix)
qed

lemma find_from_Some:
  "find_from pat xs i = Some k \<longleftrightarrow> i \<le> k \<and> k \<le> max i (length xs) \<and> prefix pat (drop k xs) \<and>
     (\<forall>j. i \<le> j \<and> j < k \<longrightarrow> \<not> prefix pat (drop j xs))"
proof -
  have all: "(\<forall>j<m. \<not> prefix pat (drop (j + i) xs)) \<longleftrightarrow>
      (\<forall>j. i \<le> j \<and> j < i + m \<longrightarrow> \<not> prefix pat (drop j xs))" for m
  proof
    assume a: "\<forall>j<m. \<not> prefix pat (drop (j + i) xs)"
    show "\<forall>j. i \<le> j \<and> j < i + m \<longrightarrow> \<not> prefix pat (drop j xs)"
      using a by (metis add.commute le_add_diff_inverse nat_add_left_cancel_less)
  next
    assume b: "\<forall>j. i \<le> j \<and> j < i + m \<longrightarrow> \<not> prefix pat (drop j xs)"
    show "\<forall>j<m. \<not> prefix pat (drop (j + i) xs)"
      using b by simp
  qed
  show ?thesis
  proof (cases "i \<le> k")
    case True
    then obtain m where k: "k = i + m" by (auto simp: le_iff_add)
    have "find_from pat xs i = Some k \<longleftrightarrow> find_sub pat (drop i xs) = Some m"
      by (auto simp: find_from_def k)
    also have "\<dots> \<longleftrightarrow> m \<le> length xs - i \<and> prefix pat (drop (m + i) xs) \<and>
        (\<forall>j<m. \<not> prefix pat (drop (j + i) xs))"
      by (simp add: find_sub_Some)
    also have "m \<le> length xs - i \<longleftrightarrow> k \<le> max i (length xs)" by (auto simp: k)
    finally show ?thesis using all [of m] by (simp add: k add.commute)
  qed (auto simp: find_from_def)
qed

lemma find_from_bound:
  assumes "find_from pat xs i = Some k" and "pat \<noteq> []"
  shows "k + length pat \<le> length xs" and "i \<le> k" and "k < length xs"
proof -
  from assms(1) obtain m where m: "find_sub pat (drop i xs) = Some m" "k = i + m"
    by (auto simp: find_from_def)
  from find_sub_bound [OF m(1)] assms(2) have "m + length pat \<le> length xs - i" "0 < length pat"
    by auto
  then have "i + m + length pat \<le> length xs" "0 < length pat" by linarith+
  with m(2) show "k + length pat \<le> length xs" "i \<le> k" "k < length xs" by linarith+
qed

lemma find_from_append:
  assumes "find_from pat xs i = Some k" and "pat \<noteq> []"
  shows "find_from pat (xs @ ys) i = Some k"
proof -
  from find_from_bound [OF assms] have "i \<le> length xs" by simp
  with assms(1) show ?thesis by (auto simp: find_from_def find_sub_append)
qed

end
