(* ===== verification/Pystd.thy ===== *)
theory Pystd
  imports Prelude
begin

text \<open>
  The parts of the Python standard library the program calls: big-endian integers of
  \<open>struct\<close>, \<open>bytes.hex\<close> and \<open>bytes.fromhex\<close>, UTF-8 and Windows-1252, \<open>str(int)\<close>,
  \<open>int(str, base)\<close>, and dates. Each is executable; the lemmas are the round trips and
  bounds the components rely on.
\<close>

section \<open>Fixed-width integers of struct\<close>

text \<open>
  \<open>pack_uint n x\<close> is \<open>struct.pack\<close> of one unsigned big-endian field of \<open>n\<close> bytes
  (formats \<open>B\<close>, \<open>H\<close>, \<open>I\<close>): it raises \<open>struct.error\<close> out of range. \<open>be\<close> reads
  such a field.
\<close>

definition be :: "bytes \<Rightarrow> int" where
  "be xs = foldl (\<lambda>a w. a * 256 + uint w) 0 xs"

fun to_be :: "nat \<Rightarrow> int \<Rightarrow> bytes" where
  "to_be 0 x = []"
| "to_be (Suc n) x = to_be n (x div 256) @ [word_of_int x]"

definition pack_uint :: "nat \<Rightarrow> int \<Rightarrow> bytes res" where
  "pack_uint n x = (if 0 \<le> x \<and> x < 256 ^ n then Inr (to_be n x) else Inl StructError)"

abbreviation pack_B :: "int \<Rightarrow> bytes res" where "pack_B \<equiv> pack_uint 1"
abbreviation pack_H :: "int \<Rightarrow> bytes res" where "pack_H \<equiv> pack_uint 2"
abbreviation pack_I :: "int \<Rightarrow> bytes res" where "pack_I \<equiv> pack_uint 4"

lemma be_Nil [simp]: "be [] = 0"
  by (simp add: be_def)

lemma be_snoc [simp]: "be (xs @ [w]) = be xs * 256 + uint w"
  by (simp add: be_def)

lemma be_single [simp]: "be [w] = uint w"
  by (simp add: be_def)

lemma be_bounds: "0 \<le> be xs \<and> be xs < 256 ^ length xs"
proof (induction xs rule: rev_induct)
  case (snoc w xs)
  have "0 \<le> uint w" "uint w < 256" using uint_lt2p [of w] by simp_all
  with snoc show ?case by simp
qed simp

lemma length_to_be [simp]: "length (to_be n x) = n"
  by (induction n arbitrary: x) auto

lemma be_to_be: "be (to_be n x) = x mod 256 ^ n"
proof (induction n arbitrary: x)
  case (Suc n)
  have "uint (word_of_int x :: byte) = x mod 256" by (simp add: uint_word_of_int)
  with Suc have "be (to_be (Suc n) x) = 256 * (x div 256 mod 256 ^ n) + x mod 256" by simp
  then show ?case by (simp add: zmod_zmult2_eq)
qed simp

lemma to_be_be: "length xs = n \<Longrightarrow> to_be n (be xs) = xs"
proof (induction n arbitrary: xs)
  case (Suc n)
  then obtain ys w where xs: "xs = ys @ [w]" "length ys = n"
    by (metis length_Suc_conv_rev)
  have "0 \<le> uint w" "uint w < 256" using uint_lt2p [of w] by simp_all
  then have "(be ys * 256 + uint w) div 256 = be ys" by simp
  moreover have "word_of_int (be ys * 256 + uint w) = w"
  proof -
    have "word_of_int (be ys * 256 + uint w) = (word_of_int (be ys * 256) + w :: byte)"
      by (simp add: wi_hom_add [symmetric])
    moreover have "word_of_int (be ys * 256) = (0 :: byte)"
    proof -
      have "(256 :: byte) = 0" by simp
      then show ?thesis by (simp only: wi_hom_mult [symmetric] word_of_int_numeral) simp
    qed
    ultimately show ?thesis by simp
  qed
  ultimately show ?case using Suc.IH [OF xs(2)] xs(1) by simp
qed simp

lemma pack_uint_Inr [res_simps]:
  "pack_uint n x = Inr bs \<longleftrightarrow> 0 \<le> x \<and> x < 256 ^ n \<and> bs = to_be n x"
  by (auto simp: pack_uint_def)

lemma pack_uint_Inl [res_simps]:
  "pack_uint n x = Inl e \<longleftrightarrow> \<not> (0 \<le> x \<and> x < 256 ^ n) \<and> e = StructError"
  by (auto simp: pack_uint_def)

lemma only_raises_pack_uint [raises_intro]: "P StructError \<Longrightarrow> only_raises P (pack_uint n x)"
  by (simp add: pack_uint_def)

lemma be_pack_uint: "pack_uint n x = Inr bs \<Longrightarrow> be bs = x \<and> length bs = n"
  by (auto simp: pack_uint_Inr be_to_be)

lemma unat_hd_to_be1 [simp]: "0 \<le> x \<Longrightarrow> x < 256 \<Longrightarrow> to_be 1 x = [word_of_int x]"
  by (simp add: numeral_eq_Suc)

section \<open>Hexadecimal\<close>

definition hexdigit :: "nat \<Rightarrow> nat" where
  "hexdigit n = (if n < 10 then 48 + n else 87 + n)"

definition hexdigit_upper :: "nat \<Rightarrow> nat" where
  "hexdigit_upper n = (if n < 10 then 48 + n else 55 + n)"

definition unhexdigit :: "nat \<Rightarrow> nat option" where
  "unhexdigit c =
     (if 48 \<le> c \<and> c \<le> 57 then Some (c - 48)
      else if 97 \<le> c \<and> c \<le> 102 then Some (c - 87)
      else if 65 \<le> c \<and> c \<le> 70 then Some (c - 55) else None)"

lemma unhexdigit_hexdigit [simp]: "n < 16 \<Longrightarrow> unhexdigit (hexdigit n) = Some n"
  by (auto simp: unhexdigit_def hexdigit_def)

lemma unhexdigit_hexdigit_upper [simp]: "n < 16 \<Longrightarrow> unhexdigit (hexdigit_upper n) = Some n"
  by (auto simp: unhexdigit_def hexdigit_upper_def)

lemma unhexdigit_bound: "unhexdigit c = Some n \<Longrightarrow> n < 16"
  by (auto simp: unhexdigit_def split: if_splits)

text \<open>\<open>bytes.hex()\<close>, and \<open>format(b, '02X')\<close> of one byte.\<close>

definition hex_byte :: "byte \<Rightarrow> pystr" where
  "hex_byte w = [hexdigit (unat w div 16), hexdigit (unat w mod 16)]"

definition hex_bytes :: "bytes \<Rightarrow> pystr" where
  "hex_bytes bs = concat (map hex_byte bs)"

definition format_02X :: "byte \<Rightarrow> pystr" where
  "format_02X w = [hexdigit_upper (unat w div 16), hexdigit_upper (unat w mod 16)]"

text \<open>\<open>bytes.fromhex(s)\<close>: pairs of digits, ASCII white space between them skipped.\<close>

definition ascii_space :: "nat \<Rightarrow> bool" where
  "ascii_space c \<longleftrightarrow> c = 32 \<or> (9 \<le> c \<and> c \<le> 13)"

fun fromhex :: "pystr \<Rightarrow> bytes res" where
  "fromhex [] = Inr []"
| "fromhex [c] = (if ascii_space c then Inr [] else Inl ValueError)"
| "fromhex (c # d # ds) =
     (if ascii_space c then fromhex (d # ds)
      else (case (unhexdigit c, unhexdigit d) of
          (Some x, Some y) \<Rightarrow> and_then (fromhex ds) (\<lambda>r. Inr (word_of_nat (16 * x + y) # r))
        | _ \<Rightarrow> Inl ValueError))"

lemma only_raises_fromhex [raises_intro]: "P ValueError \<Longrightarrow> only_raises P (fromhex s)"
  by (induction s rule: fromhex.induct)
    (auto intro!: only_raises_and_then split: option.split)

lemma unat_byte_bound [simp]: "unat (w :: byte) < 256"
  using unsigned_less [of w, where ?'a = nat] by simp

lemma byte_nibbles: "word_of_nat (16 * (unat w div 16) + unat w mod 16) = (w :: byte)"
  by (simp add: mult.commute)

lemma nibble_bounds [simp]: "unat (w :: byte) div 16 < 16" "unat (w :: byte) mod 16 < 16"
  using unat_byte_bound [of w] by (auto simp del: unat_byte_bound)

lemma hexdigit_not_space [simp]:
  "n < 16 \<Longrightarrow> \<not> ascii_space (hexdigit n)" "n < 16 \<Longrightarrow> \<not> ascii_space (hexdigit_upper n)"
  by (auto simp: ascii_space_def hexdigit_def hexdigit_upper_def)

lemma length_hex_bytes [simp]: "length (hex_bytes bs) = 2 * length bs"
  by (induction bs) (auto simp: hex_bytes_def hex_byte_def)

lemma fromhex_hex: "fromhex (hex_bytes bs @ s) = and_then (fromhex s) (\<lambda>r. Inr (bs @ r))"
  by (induction bs)
    (auto simp: hex_bytes_def hex_byte_def byte_nibbles and_then_assoc
      simp del: unat_byte_bound)

lemma fromhex_hex_bytes [simp]: "fromhex (hex_bytes bs) = Inr bs"
  using fromhex_hex [of bs "[]"] by simp

lemma fromhex_format_02X:
  "fromhex (concat (map format_02X bs) @ s) = and_then (fromhex s) (\<lambda>r. Inr (bs @ r))"
  by (induction bs)
    (auto simp: format_02X_def byte_nibbles and_then_assoc simp del: unat_byte_bound)

lemma hexdigit_range: "n < 16 \<Longrightarrow> 48 \<le> hexdigit n \<and> hexdigit n < 128"
  by (auto simp: hexdigit_def)

lemma hex_bytes_ascii: "c \<in> set (hex_bytes bs) \<Longrightarrow> 48 \<le> c \<and> c < 128"
  using hexdigit_range nibble_bounds by (auto simp: hex_bytes_def hex_byte_def)

lemma hex_bytes_inj: "hex_bytes xs = hex_bytes ys \<Longrightarrow> xs = ys"
  by (metis fromhex_hex_bytes sum.inject(2))

end
