(* ===== verification/Pytext.thy ===== *)
theory Pytext
  imports Pystd
begin

text \<open>
  Text in the Python standard library as the program uses it: UTF-8 and Windows-1252,
  \<open>split\<close>, \<open>join\<close> and \<open>replace\<close>, the decimal and hexadecimal form of integers,
  \<open>int(str)\<close> and \<open>int(str, 0)\<close>, and dates with \<open>strptime\<close>. Only ASCII digits
  count as digits (Python also accepts the decimal digits of other scripts).
\<close>

section \<open>UTF-8\<close>

text \<open>The byte of a number below 256 (\<open>bytes([n])\<close>).\<close>

definition byte_of :: "nat \<Rightarrow> byte" where
  "byte_of n = word_of_nat n"

lemma unat_byte_of [simp]: "n < 256 \<Longrightarrow> unat (byte_of n) = n"
  by (simp add: byte_of_def unat_of_nat)

lemma byte_of_unat [simp]: "byte_of (unat w) = w"
  by (simp add: byte_of_def)

definition utf8_char :: "nat \<Rightarrow> bytes res" where
  "utf8_char c =
     (if c < 0x80 then Inr [byte_of c]
      else if c < 0x800 then Inr [byte_of (0xC0 + c div 64), byte_of (0x80 + c mod 64)]
      else if 0xD800 \<le> c \<and> c < 0xE000 then Inl UnicodeEncodeError
      else if c < 0x10000 then
        Inr [byte_of (0xE0 + c div 4096), byte_of (0x80 + c div 64 mod 64),
             byte_of (0x80 + c mod 64)]
      else if c < 0x110000 then
        Inr [byte_of (0xF0 + c div 262144), byte_of (0x80 + c div 4096 mod 64),
             byte_of (0x80 + c div 64 mod 64), byte_of (0x80 + c mod 64)]
      else Inl UnicodeEncodeError)"

text \<open>\<open>str.encode()\<close> and \<open>bytes.decode()\<close>, strict.\<close>

definition utf8_encode :: "pystr \<Rightarrow> bytes res" where
  "utf8_encode s = and_then (map_res utf8_char s) (\<lambda>bss. Inr (concat bss))"

definition utf8_cont :: "byte \<Rightarrow> bool" where
  "utf8_cont b \<longleftrightarrow> 0x80 \<le> unat b \<and> unat b < 0xC0"

abbreviation low6 :: "byte \<Rightarrow> nat" where
  "low6 b \<equiv> unat b - 0x80"

definition consr :: "'a \<Rightarrow> 'a list res \<Rightarrow> 'a list res" where
  "consr x r = and_then r (\<lambda>xs. Inr (x # xs))"

lemma consr_cong [fundef_cong]: "x = y \<Longrightarrow> r = r' \<Longrightarrow> consr x r = consr y r'"
  by simp

fun utf8_decode :: "bytes \<Rightarrow> pystr res" where
  "utf8_decode [] = Inr []"
| "utf8_decode (a # xs) =
     (if unat a < 0x80 then consr (unat a) (utf8_decode xs)
      else if 0xC2 \<le> unat a \<and> unat a < 0xE0 then
        (case xs of
           b # ys \<Rightarrow>
             if utf8_cont b then consr ((unat a - 0xC0) * 64 + low6 b) (utf8_decode ys)
             else Inl UnicodeDecodeError
         | _ \<Rightarrow> Inl UnicodeDecodeError)
      else if 0xE0 \<le> unat a \<and> unat a < 0xF0 then
        (case xs of
           b # c # ys \<Rightarrow>
             (let v = (unat a - 0xE0) * 4096 + low6 b * 64 + low6 c
              in if utf8_cont b \<and> utf8_cont c \<and> 0x800 \<le> v \<and> \<not> (0xD800 \<le> v \<and> v < 0xE000)
                 then consr v (utf8_decode ys) else Inl UnicodeDecodeError)
         | _ \<Rightarrow> Inl UnicodeDecodeError)
      else if 0xF0 \<le> unat a \<and> unat a < 0xF5 then
        (case xs of
           b # c # d # ys \<Rightarrow>
             (let v = (unat a - 0xF0) * 262144 + low6 b * 4096 + low6 c * 64 + low6 d
              in if utf8_cont b \<and> utf8_cont c \<and> utf8_cont d \<and> 0x10000 \<le> v \<and> v < 0x110000
                 then consr v (utf8_decode ys) else Inl UnicodeDecodeError)
         | _ \<Rightarrow> Inl UnicodeDecodeError)
      else Inl UnicodeDecodeError)"

declare utf8_decode.simps(2) [simp del]


lemma utf8_decode_2:
  assumes "2 \<le> q" "q < 32" "r < 64"
  shows "utf8_decode (byte_of (0xC0 + q) # byte_of (0x80 + r) # rest) =
    consr (q * 64 + r) (utf8_decode rest)"
  using assms by (simp add: utf8_decode.simps(2) utf8_cont_def)

lemma utf8_decode_3:
  assumes "q < 16" "r < 64" "t < 64" "v = q * 4096 + r * 64 + t"
    and "0x800 \<le> v" "\<not> (0xD800 \<le> v \<and> v < 0xE000)"
  shows "utf8_decode (byte_of (0xE0 + q) # byte_of (0x80 + r) # byte_of (0x80 + t) # rest) =
    consr v (utf8_decode rest)"
  using assms by (simp add: utf8_decode.simps(2) utf8_cont_def Let_def)

lemma utf8_decode_4:
  assumes "q < 5" "p < 64" "r < 64" "t < 64" "v = q * 262144 + p * 4096 + r * 64 + t"
    and "0x10000 \<le> v" "v < 0x110000"
  shows "utf8_decode (byte_of (0xF0 + q) # byte_of (0x80 + p) # byte_of (0x80 + r) #
    byte_of (0x80 + t) # rest) = consr v (utf8_decode rest)"
  using assms by (simp add: utf8_decode.simps(2) utf8_cont_def Let_def)

lemma utf8_decode_char:
  assumes h: "utf8_char c = Inr bs"
  shows "utf8_decode (bs @ rest) = consr c (utf8_decode rest)"
proof -
  have d1: "c = c div 64 * 64 + c mod 64" by simp
  have d2: "c div 64 = c div 4096 * 64 + c div 64 mod 64"
    using div_mult_mod_eq [of "c div 64" 64] by (simp only: div_mult2_eq [symmetric]) simp
  have d3: "c div 4096 = c div 262144 * 64 + c div 4096 mod 64"
    using div_mult_mod_eq [of "c div 4096" 64] by (simp only: div_mult2_eq [symmetric]) simp
  consider "c < 0x80" | "0x80 \<le> c" "c < 0x800"
    | "0x800 \<le> c" "c < 0x10000" "\<not> (0xD800 \<le> c \<and> c < 0xE000)" | "0x10000 \<le> c" "c < 0x110000"
    | "0xD800 \<le> c" "c < 0xE000" | "0x110000 \<le> c"
    by (metis not_less)
  then show ?thesis
  proof cases
    case 1
    with h show ?thesis by (auto simp: utf8_char_def utf8_decode.simps(2))
  next
    case 2
    then have "bs = [byte_of (0xC0 + c div 64), byte_of (0x80 + c mod 64)]"
      using h by (simp add: utf8_char_def)
    moreover have "2 \<le> c div 64" "c div 64 < 32" using 2 by simp_all
    ultimately show ?thesis using utf8_decode_2 [of "c div 64" "c mod 64" rest] by simp
  next
    case 3
    then have "bs = [byte_of (0xE0 + c div 4096), byte_of (0x80 + c div 64 mod 64),
        byte_of (0x80 + c mod 64)]"
      using h by (simp add: utf8_char_def split: if_splits)
    moreover have "c div 4096 < 16" using 3 by simp
    moreover have "c = c div 4096 * 4096 + c div 64 mod 64 * 64 + c mod 64"
      using d1 d2 by linarith
    ultimately show ?thesis
      using utf8_decode_3 [of "c div 4096" "c div 64 mod 64" "c mod 64" c rest] 3 by simp
  next
    case 4
    then have "bs = [byte_of (0xF0 + c div 262144), byte_of (0x80 + c div 4096 mod 64),
        byte_of (0x80 + c div 64 mod 64), byte_of (0x80 + c mod 64)]"
      using h by (simp add: utf8_char_def)
    moreover have "c div 262144 < 5" using 4 by simp
    moreover have "c = c div 262144 * 262144 + c div 4096 mod 64 * 4096 + c div 64 mod 64 * 64 + c mod 64"
      using d1 d2 d3 by linarith
    ultimately show ?thesis
      using utf8_decode_4 [of "c div 262144" "c div 4096 mod 64" "c div 64 mod 64" "c mod 64" c rest] 4
      by simp
  next
    case 5
    with h show ?thesis by (simp add: utf8_char_def)
  next
    case 6
    with h show ?thesis by (simp add: utf8_char_def)
  qed
qed

lemma utf8_roundtrip: "utf8_encode s = Inr bs \<Longrightarrow> utf8_decode bs = Inr s"
proof (induction s arbitrary: bs)
  case (Cons c s)
  then show ?case
    by (fastforce simp: utf8_encode_def res_simps utf8_decode_char consr_def)
qed (simp add: utf8_encode_def)

lemma only_raises_consr [raises_intro]: "only_raises P r \<Longrightarrow> only_raises P (consr x r)"
  by (auto simp: consr_def intro: raises_intro)

lemma only_raises_utf8_decode [raises_intro]:
  assumes "P UnicodeDecodeError"
  shows "only_raises P (utf8_decode bs)"
proof (induction "length bs" arbitrary: bs rule: less_induct)
  case less
  show ?case
  proof (cases bs)
    case (Cons a xs)
    have "only_raises P (utf8_decode ys)" if "length ys \<le> length xs" for ys
      using less [of ys] that by (simp add: Cons)
    then show ?thesis
      unfolding Cons utf8_decode.simps(2) by (intro raises_intro; simp add: assms)
  qed simp
qed

text \<open>ASCII text is its own encoding.\<close>

definition ascii :: "pystr \<Rightarrow> bool" where
  "ascii s \<longleftrightarrow> (\<forall>c \<in> set s. c < 128)"

lemma utf8_encode_ascii: "ascii s \<Longrightarrow> utf8_encode s = Inr (map byte_of s)"
proof -
  assume "ascii s"
  then have "map_res utf8_char s = Inr (map (\<lambda>c. [byte_of c]) s)"
    by (intro map_res_total) (simp add: ascii_def utf8_char_def)
  then show ?thesis by (simp add: utf8_encode_def concat_map_singleton)
qed

lemma utf8_decode_ascii: "ascii s \<Longrightarrow> utf8_decode (map byte_of s) = Inr s"
  by (rule utf8_roundtrip) (rule utf8_encode_ascii)

lemma utf8_decode_ascii_bytes: "\<forall>b \<in> set bs. unat b < 128 \<Longrightarrow> utf8_decode bs = Inr (map unat bs)"
proof -
  assume h: "\<forall>b \<in> set bs. unat b < 128"
  then have "ascii (map unat bs)" by (auto simp: ascii_def)
  from utf8_decode_ascii [OF this] show ?thesis by (simp add: comp_def map_idI)
qed

lemma utf8_encode_Cons:
  "utf8_encode (c # s) = and_then (utf8_char c) (\<lambda>x. and_then (utf8_encode s) (\<lambda>y. Inr (x @ y)))"
  by (simp add: utf8_encode_def and_then_assoc)

lemma utf8_encode_append:
  "utf8_encode (a @ b) = and_then (utf8_encode a) (\<lambda>x. and_then (utf8_encode b) (\<lambda>y. Inr (x @ y)))"
proof (induction a)
  case Nil
  then show ?case by (simp add: utf8_encode_def [of "[]"])
next
  case (Cons c a)
  then show ?case by (simp add: utf8_encode_Cons and_then_assoc)
qed

text \<open>UTF-8 has as many bytes as the text has characters only if the text is ASCII.\<close>

lemma utf8_char_length: "utf8_char c = Inr bs \<Longrightarrow> 1 \<le> length bs \<and> (length bs = 1 \<longrightarrow> c < 128)"
  by (auto simp: utf8_char_def Let_def split: if_splits)

lemma utf8_encode_length:
  "utf8_encode s = Inr bs \<Longrightarrow> length s \<le> length bs \<and> (length bs = length s \<longrightarrow> ascii s)"
proof (induction s arbitrary: bs)
  case (Cons c s)
  then obtain x y where "utf8_char c = Inr x" "utf8_encode s = Inr y" "bs = x @ y"
    by (auto simp: utf8_encode_Cons res_simps)
  with utf8_char_length [of c x] Cons.IH [of y] show ?case by (auto simp: ascii_def)
qed (simp add: utf8_encode_def ascii_def)

lemma consr_Inr: "consr x r = Inr ys \<longleftrightarrow> (\<exists>xs. r = Inr xs \<and> ys = x # xs)"
  by (auto simp: consr_def res_simps)

lemma utf8_decode_step:
  assumes "utf8_decode (a # xs) = Inr t"
  shows "\<exists>c s. t = c # s \<and> (c < 128 \<longrightarrow> unat a = c \<and> utf8_decode xs = Inr s)"
proof -
  have "\<exists>c s. t = c # s" using assms
    by (auto simp: utf8_decode.simps(2) consr_Inr Let_def split: if_splits list.splits)
  moreover have "c < 128 \<longrightarrow> unat a = c \<and> utf8_decode xs = Inr s" if "t = c # s" for c s
  proof (cases "unat a < 128")
    case True
    with assms that show ?thesis by (simp add: utf8_decode.simps(2) consr_Inr)
  next
    case False
    with assms that have "128 \<le> c"
      by (auto simp: utf8_decode.simps(2) consr_Inr Let_def split: if_splits list.splits)
    then show ?thesis by simp
  qed
  ultimately show ?thesis by blast
qed

lemma utf8_decode_ascii_inv: "utf8_decode bs = Inr s \<Longrightarrow> ascii s \<Longrightarrow> s = map unat bs"
proof (induction bs arbitrary: s)
  case (Cons a bs)
  from utf8_decode_step [OF Cons.prems(1)] Cons.prems(2) obtain s' where
    "s = unat a # s'" "utf8_decode bs = Inr s'" by (auto simp: ascii_def)
  with Cons show ?case by (auto simp: ascii_def)
qed simp

text \<open>What UTF-8 can encode: every code point but the surrogates\<close>

definition scalar :: "nat \<Rightarrow> bool" where
  "scalar c \<longleftrightarrow> c < 0x110000 \<and> \<not> (0xD800 \<le> c \<and> c < 0xE000)"

lemma utf8_encode_scalars: "\<forall>c \<in> set s. scalar c \<Longrightarrow> returns (utf8_encode s)"
proof (induction s)
  case (Cons c s)
  then have "returns (utf8_char c)" by (auto simp: utf8_char_def scalar_def Let_def)
  with Cons show ?case by (auto simp: utf8_encode_Cons returns_def)
qed (simp add: utf8_encode_def)

lemma utf8_decode_scalars: "utf8_decode bs = Inr s \<Longrightarrow> \<forall>c \<in> set s. scalar c"
proof (induction "length bs" arbitrary: bs s rule: less_induct)
  case less
  show ?case
  proof (cases bs)
    case Nil
    with less.prems show ?thesis by simp
  next
    case (Cons a xs)
    have IH: "\<forall>c \<in> set t. scalar c" if "utf8_decode ys = Inr t" "length ys \<le> length xs" for ys t
      using less.hyps [of ys t] that by (simp add: Cons)
    have "unat a < 256" "\<And>b. utf8_cont b \<Longrightarrow> unat b - 0x80 < 64"
      by (auto simp: utf8_cont_def)
    with less.prems IH show ?thesis
      unfolding Cons utf8_decode.simps(2)
      by (auto simp: consr_Inr Let_def scalar_def utf8_cont_def split: if_splits list.splits)
  qed
qed
section \<open>Windows-1252\<close>

definition cp1252_high :: "(nat \<times> nat) list" where
  "cp1252_high =
    [(0x80, 0x20AC), (0x82, 0x201A), (0x83, 0x0192), (0x84, 0x201E), (0x85, 0x2026),
     (0x86, 0x2020), (0x87, 0x2021), (0x88, 0x02C6), (0x89, 0x2030), (0x8A, 0x0160),
     (0x8B, 0x2039), (0x8C, 0x0152), (0x8E, 0x017D), (0x91, 0x2018), (0x92, 0x2019),
     (0x93, 0x201C), (0x94, 0x201D), (0x95, 0x2022), (0x96, 0x2013), (0x97, 0x2014),
     (0x98, 0x02DC), (0x99, 0x2122), (0x9A, 0x0161), (0x9B, 0x203A), (0x9C, 0x0153),
     (0x9E, 0x017E), (0x9F, 0x0178)]"

definition cp1252_char :: "byte \<Rightarrow> nat res" where
  "cp1252_char b =
     (if unat b < 0x80 \<or> 0xA0 \<le> unat b then Inr (unat b)
      else case map_of cp1252_high (unat b) of
          Some c \<Rightarrow> Inr c
        | None \<Rightarrow> Inl UnicodeDecodeError)"

definition cp1252_decode :: "bytes \<Rightarrow> pystr res" where
  "cp1252_decode bs = map_res cp1252_char bs"

lemma cp1252_decode_ascii: "\<forall>b \<in> set bs. unat b < 128 \<Longrightarrow> cp1252_decode bs = Inr (map unat bs)"
  unfolding cp1252_decode_def by (rule map_res_total) (simp add: cp1252_char_def)

section \<open>Splitting, joining, replacing\<close>

fun split_on :: "'a \<Rightarrow> 'a list \<Rightarrow> 'a list list" where
  "split_on c [] = [[]]"
| "split_on c (x # xs) =
     (if x = c then [] # split_on c xs
      else (case split_on c xs of [] \<Rightarrow> [[x]] | y # ys \<Rightarrow> (x # y) # ys))"

text \<open>\<open>split(c, 1)\<close>\<close>

fun split_once :: "'a \<Rightarrow> 'a list \<Rightarrow> 'a list list" where
  "split_once c [] = [[]]"
| "split_once c (x # xs) =
     (if x = c then [[], xs]
      else (case split_once c xs of [] \<Rightarrow> [[x]] | y # ys \<Rightarrow> (x # y) # ys))"

fun join_with :: "'a list \<Rightarrow> 'a list list \<Rightarrow> 'a list" where
  "join_with s [] = []"
| "join_with s [x] = x"
| "join_with s (x # y # ys) = x @ s @ join_with s (y # ys)"

lemma split_on_nonempty [simp]: "split_on c xs \<noteq> []"
  by (cases xs) (auto split: list.splits)

lemma split_once_nonempty [simp]: "split_once c xs \<noteq> []"
  by (cases xs) (auto split: list.splits)

lemma join_with_Cons: "join_with s ((x # a) # l) = x # join_with s (a # l)"
  by (cases l) auto

lemma join_split_on: "join_with [c] (split_on c xs) = xs"
proof (induction xs)
  case (Cons x xs)
  then show ?case
    by (cases "split_on c xs") (auto simp: neq_Nil_conv join_with_Cons)
qed simp

lemma split_on_append: "c \<notin> set xs \<Longrightarrow> split_on c (xs @ c # ys) = xs # split_on c ys"
  by (induction xs) auto

lemma split_on_no_sep: "c \<notin> set xs \<Longrightarrow> split_on c xs = [xs]"
  by (induction xs) auto

lemma split_on_join: "xs \<noteq> [] \<Longrightarrow> \<forall>x \<in> set xs. c \<notin> set x \<Longrightarrow> split_on c (join_with [c] xs) = xs"
proof (induction "[c]" xs rule: join_with.induct)
  case (3 x y ys)
  then show ?case by (simp add: split_on_append)
qed (auto simp: split_on_no_sep)

lemma split_once_append: "c \<notin> set xs \<Longrightarrow> split_once c (xs @ c # ys) = [xs, ys]"
  by (induction xs) auto

lemma split_once_no_sep: "c \<notin> set xs \<Longrightarrow> split_once c xs = [xs]"
  by (induction xs) auto

lemma split_once_cases:
  "split_once c xs = [xs] \<and> c \<notin> set xs \<or>
   (\<exists>a r. split_once c xs = [a, r] \<and> xs = a @ c # r \<and> c \<notin> set a)"
proof (cases "c \<in> set xs")
  case True
  then obtain a r where "xs = a @ c # r" "c \<notin> set a" by (meson split_list_first)
  then show ?thesis by (auto simp: split_once_append)
qed (simp add: split_once_no_sep)

lemma hd_split_once: "hd (split_once c xs) = hd (split_on c xs)"
  by (induction xs) (auto split: list.splits simp: neq_Nil_conv)

text \<open>\<open>bytes.replace(old, new)\<close> with a two-byte \<open>old\<close> and a one-byte \<open>new\<close>.\<close>

fun replace2 :: "'a \<Rightarrow> 'a \<Rightarrow> 'a \<Rightarrow> 'a list \<Rightarrow> 'a list" where
  "replace2 a b n (x # y # ys) =
     (if x = a \<and> y = b then n # replace2 a b n ys else x # replace2 a b n (y # ys))"
| "replace2 a b n xs = xs"

end
