(* ===== verification/Pynum.thy ===== *)
theory Pynum
  imports Pytext
begin

text \<open>
  Numbers and dates as text: \<open>str(int)\<close>, the format \<open>04X\<close>, \<open>int(s)\<close>,
  \<open>int(s, 0)\<close> and \<open>int(s, 16)\<close>, and \<open>datetime\<close> with \<open>strptime\<close>.
\<close>

section \<open>Printing integers\<close>

fun dec_nat :: "nat \<Rightarrow> pystr" where
  "dec_nat n = (if n < 10 then [48 + n] else dec_nat (n div 10) @ [48 + n mod 10])"

declare dec_nat.simps [simp del]

definition py_str_int :: "int \<Rightarrow> pystr" where
  "py_str_int i = (if i < 0 then 45 # dec_nat (nat (- i)) else dec_nat (nat i))"

fun hexX_nat :: "nat \<Rightarrow> pystr" where
  "hexX_nat n = (if n < 16 then [hexdigit_upper n] else hexX_nat (n div 16) @ [hexdigit_upper (n mod 16)])"

declare hexX_nat.simps [simp del]

text \<open>\<open>format(n, '04X')\<close>, for the non-negative numbers it is used on\<close>

definition format_04X :: "nat \<Rightarrow> pystr" where
  "format_04X n = replicate (4 - length (hexX_nat n)) 48 @ hexX_nat n"

section \<open>Parsing integers\<close>

text \<open>The white space \<open>int\<close> and \<open>float\<close> strip (\<open>str.isspace\<close>).\<close>

definition py_space :: "nat \<Rightarrow> bool" where
  "py_space c \<longleftrightarrow> (9 \<le> c \<and> c \<le> 13) \<or> (28 \<le> c \<and> c \<le> 32) \<or> c = 0x85 \<or> c = 0xA0 \<or>
     c = 0x1680 \<or> (0x2000 \<le> c \<and> c \<le> 0x200A) \<or> c = 0x2028 \<or> c = 0x2029 \<or> c = 0x202F \<or>
     c = 0x205F \<or> c = 0x3000"

definition strip_space :: "pystr \<Rightarrow> pystr" where
  "strip_space s = rev (dropWhile py_space (rev (dropWhile py_space s)))"

text \<open>
  Digits of a base, single underscores allowed between them; \<open>seen\<close> tells that the
  character before was a digit.
\<close>

fun int_digits :: "nat \<Rightarrow> nat \<Rightarrow> bool \<Rightarrow> pystr \<Rightarrow> nat option" where
  "int_digits b acc seen [] = (if seen then Some acc else None)"
| "int_digits b acc seen (c # cs) =
     (if c = 95 then (if seen then int_digits b acc False cs else None)
      else (case unhexdigit c of
          Some d \<Rightarrow> if d < b then int_digits b (acc * b + d) True cs else None
        | None \<Rightarrow> None))"

definition split_sign :: "pystr \<Rightarrow> int \<times> pystr" where
  "split_sign s = (case s of
       c # cs \<Rightarrow> if c = 43 then (1, cs) else if c = 45 then (-1, cs) else (1, s)
     | [] \<Rightarrow> (1, []))"

text \<open>\<open>int(s)\<close>: base ten\<close>

definition py_int :: "pystr \<Rightarrow> int res" where
  "py_int s = (case split_sign (strip_space s) of (sg, ds) \<Rightarrow>
     (case int_digits 10 0 False ds of Some n \<Rightarrow> Inr (sg * int n) | None \<Rightarrow> Inl ValueError))"

text \<open>\<open>int(s, 0)\<close>: the base is read from the prefix; a plain leading zero must mean zero\<close>

definition skip_underscore :: "pystr \<Rightarrow> pystr" where
  "skip_underscore s = (case s of c # cs \<Rightarrow> if c = 95 then cs else s | [] \<Rightarrow> [])"

definition int_digits_auto :: "pystr \<Rightarrow> nat option" where
  "int_digits_auto s = (case s of
       c # d # ds \<Rightarrow>
         if c = 48 \<and> (d = 120 \<or> d = 88) then int_digits 16 0 False (skip_underscore ds)
         else if c = 48 \<and> (d = 111 \<or> d = 79) then int_digits 8 0 False (skip_underscore ds)
         else if c = 48 \<and> (d = 98 \<or> d = 66) then int_digits 2 0 False (skip_underscore ds)
         else (case int_digits 10 0 False s of
             Some n \<Rightarrow> if c = 48 \<and> n \<noteq> 0 then None else Some n
           | None \<Rightarrow> None)
     | _ \<Rightarrow> int_digits 10 0 False s)"

definition py_int_auto :: "pystr \<Rightarrow> int res" where
  "py_int_auto s = (case split_sign (strip_space s) of (sg, ds) \<Rightarrow>
     (case int_digits_auto ds of Some n \<Rightarrow> Inr (sg * int n) | None \<Rightarrow> Inl ValueError))"

text \<open>\<open>int(s, 16)\<close>: an optional prefix \<open>0x\<close>\<close>

definition int_digits_16 :: "pystr \<Rightarrow> nat option" where
  "int_digits_16 s = (case s of
       c # d # ds \<Rightarrow>
         if c = 48 \<and> (d = 120 \<or> d = 88) then int_digits 16 0 False (skip_underscore ds)
         else int_digits 16 0 False s
     | _ \<Rightarrow> int_digits 16 0 False s)"

definition py_int_16 :: "pystr \<Rightarrow> int res" where
  "py_int_16 s = (case split_sign (strip_space s) of (sg, ds) \<Rightarrow>
     (case int_digits_16 ds of Some n \<Rightarrow> Inr (sg * int n) | None \<Rightarrow> Inl ValueError))"

lemma only_raises_py_int [raises_intro]: "P ValueError \<Longrightarrow> only_raises P (py_int s)"
  unfolding py_int_def by (intro raises_intro) auto

lemma only_raises_py_int_16 [raises_intro]: "P ValueError \<Longrightarrow> only_raises P (py_int_16 s)"
  unfolding py_int_16_def by (intro raises_intro) auto

lemma only_raises_py_int_auto [raises_intro]: "P ValueError \<Longrightarrow> only_raises P (py_int_auto s)"
  unfolding py_int_auto_def by (intro raises_intro) auto

lemma int_digits_snoc:
  "int_digits b acc seen s = Some n \<Longrightarrow> unhexdigit c = Some d \<Longrightarrow> d < b \<Longrightarrow> c \<noteq> 95 \<Longrightarrow>
   int_digits b acc seen (s @ [c]) = Some (n * b + d)"
  by (induction b acc seen s rule: int_digits.induct) (auto split: if_splits option.splits)

lemma dec_nat_digits: "c \<in> set (dec_nat n) \<Longrightarrow> 48 \<le> c \<and> c \<le> 57"
proof (induction n rule: dec_nat.induct)
  case (1 n)
  then show ?case by (subst (asm) (2) dec_nat.simps) (auto split: if_splits)
qed

lemma dec_nat_nonempty [simp]: "dec_nat n \<noteq> []"
  by (subst dec_nat.simps) simp

lemma int_digits_dec_nat: "int_digits 10 0 False (dec_nat n) = Some n"
proof (induction n rule: dec_nat.induct)
  case (1 n)
  show ?case
  proof (cases "n < 10")
    case True
    then show ?thesis by (subst dec_nat.simps) (simp add: unhexdigit_def)
  next
    case False
    have "unhexdigit (48 + n mod 10) = Some (n mod 10)" by (simp add: unhexdigit_def)
    then have "int_digits 10 0 False (dec_nat (n div 10) @ [48 + n mod 10]) = Some (n div 10 * 10 + n mod 10)"
      by (rule int_digits_snoc [OF "1.IH" [OF False]]) simp_all
    with False show ?thesis by (subst dec_nat.simps) simp
  qed
qed

lemma strip_space_id:
  assumes "s \<noteq> []" and "\<not> py_space (hd s)" and "\<not> py_space (last s)"
  shows "strip_space s = s"
proof -
  have "dropWhile py_space s = s" using assms(1,2) by (cases s) auto
  moreover have "dropWhile py_space (rev s) = rev s"
    using assms(1,3) by (cases s rule: rev_cases) auto
  ultimately show ?thesis by (simp add: strip_space_def)
qed

lemma not_space_ge_33: "33 \<le> c \<Longrightarrow> c < 128 \<Longrightarrow> \<not> py_space c"
  by (simp add: py_space_def)

text \<open>\<open>int(str(i))\<close> is \<open>i\<close>.\<close>

lemma py_int_str: "py_int (py_str_int i) = Inr i"
proof -
  have hd_in: "hd (dec_nat n) \<in> set (dec_nat n)" "last (dec_nat n) \<in> set (dec_nat n)" for n
    by simp_all
  have bounds: "48 \<le> hd (dec_nat n) \<and> hd (dec_nat n) \<le> 57" "48 \<le> last (dec_nat n) \<and> last (dec_nat n) \<le> 57" for n
    using dec_nat_digits [OF hd_in(1)] dec_nat_digits [OF hd_in(2)] by auto
  show ?thesis
  proof (cases "i < 0")
    case True
    then have "strip_space (py_str_int i) = py_str_int i"
      using bounds [of "nat (- i)"]
      by (intro strip_space_id) (simp_all add: py_str_int_def not_space_ge_33)
    with True show ?thesis
      by (simp add: py_int_def py_str_int_def split_sign_def int_digits_dec_nat)
  next
    case False
    then have "strip_space (py_str_int i) = py_str_int i"
      using bounds [of "nat i"]
      by (intro strip_space_id) (simp_all add: py_str_int_def not_space_ge_33)
    moreover obtain c cs where "dec_nat (nat i) = c # cs" by (cases "dec_nat (nat i)") auto
    moreover have "48 \<le> c" using bounds(1) [of "nat i"] calculation(2) by simp
    ultimately show ?thesis
      using False int_digits_dec_nat [of "nat i"]
      by (simp add: py_int_def py_str_int_def split_sign_def)
  qed
qed

lemma hexX_nat_bound: "n < 16 ^ Suc k \<Longrightarrow> length (hexX_nat n) \<le> Suc k"
proof (induction k arbitrary: n)
  case 0
  then show ?case by (subst hexX_nat.simps) simp
next
  case (Suc k)
  show ?case
  proof (cases "n < 16")
    case True
    then show ?thesis by (subst hexX_nat.simps) simp
  next
    case False
    have "n div 16 < 16 ^ Suc k" using Suc.prems by (simp add: less_mult_imp_div_less)
    from Suc.IH [OF this] False show ?thesis by (subst hexX_nat.simps) simp
  qed
qed

lemma hexX_nat_digits: "c \<in> set (hexX_nat n) \<Longrightarrow> \<exists>d. c = hexdigit_upper d \<and> d < 16"
proof (induction n rule: hexX_nat.induct)
  case (1 n)
  show ?case
  proof (cases "n < 16")
    case True
    with "1.prems" show ?thesis by (subst (asm) hexX_nat.simps) auto
  next
    case False
    with "1.prems" have "c \<in> set (hexX_nat (n div 16)) \<or> c = hexdigit_upper (n mod 16)"
      by (subst (asm) hexX_nat.simps) auto
    with "1.IH" [OF False] show ?thesis
      by (metis mod_less_divisor zero_less_numeral)
  qed
qed

lemma length_format_04X: "n < 65536 \<Longrightarrow> length (format_04X n) = 4"
  using hexX_nat_bound [of n 3] by (simp add: format_04X_def)

lemma format_04X_digits:
  assumes "c \<in> set (format_04X n)"
  shows "\<exists>d. c = hexdigit_upper d \<and> d < 16"
proof (cases "c \<in> set (hexX_nat n)")
  case True
  then show ?thesis by (rule hexX_nat_digits)
next
  case False
  with assms have "c = hexdigit_upper 0" by (simp add: format_04X_def hexdigit_upper_def)
  then show ?thesis by (intro exI [of _ 0]) simp
qed

text \<open>The value of a run of hexadecimal digits (\<open>int(s, 16)\<close> where only digits occur).\<close>

definition hex_value :: "pystr \<Rightarrow> nat" where
  "hex_value s = foldl (\<lambda>a c. 16 * a + the (unhexdigit c)) 0 s"

lemma hex_value_snoc: "hex_value (s @ [c]) = 16 * hex_value s + the (unhexdigit c)"
  by (simp add: hex_value_def)

lemma hex_value_hexX [simp]: "hex_value (hexX_nat n) = n"
proof (induction n rule: hexX_nat.induct)
  case (1 n)
  show ?case
  proof (cases "n < 16")
    case True
    then show ?thesis by (subst hexX_nat.simps) (simp add: hex_value_def)
  next
    case False
    with "1.IH" [OF False] show ?thesis by (subst hexX_nat.simps) (simp add: hex_value_snoc)
  qed
qed

lemma hex_value_zeros: "hex_value (replicate k 48 @ s) = hex_value s"
  by (induction k) (simp_all add: hex_value_def unhexdigit_def)

lemma hex_value_format_04X [simp]: "hex_value (format_04X n) = n"
  by (simp add: format_04X_def hex_value_zeros)

lemma hex_value_bound:
  "\<forall>c \<in> set s. unhexdigit c \<noteq> None \<Longrightarrow> hex_value s < 16 ^ length s"
proof (induction s rule: rev_induct)
  case (snoc c s)
  then obtain d where "unhexdigit c = Some d" by auto
  with snoc unhexdigit_bound [of c d] show ?case by (simp add: hex_value_snoc)
qed (simp add: hex_value_def)

section \<open>Dates\<close>

text \<open>
  A \<open>datetime\<close> without microseconds (none of the program's dates that are shown has
  any); whether it is naive or in UTC is known where it is made.
\<close>

record datetime =
  dt_year :: int
  dt_month :: int
  dt_day :: int
  dt_hour :: int
  dt_minute :: int
  dt_second :: int

definition leap_year :: "int \<Rightarrow> bool" where
  "leap_year y \<longleftrightarrow> y mod 4 = 0 \<and> (y mod 100 \<noteq> 0 \<or> y mod 400 = 0)"

definition days_in_month :: "int \<Rightarrow> int \<Rightarrow> int" where
  "days_in_month y m =
     (if m = 2 then (if leap_year y then 29 else 28)
      else if m \<in> {4, 6, 9, 11} then 30 else 31)"

definition valid_datetime :: "datetime \<Rightarrow> bool" where
  "valid_datetime d \<longleftrightarrow>
     1 \<le> dt_year d \<and> dt_year d \<le> 9999 \<and> 1 \<le> dt_month d \<and> dt_month d \<le> 12 \<and>
     1 \<le> dt_day d \<and> dt_day d \<le> days_in_month (dt_year d) (dt_month d) \<and>
     0 \<le> dt_hour d \<and> dt_hour d < 24 \<and> 0 \<le> dt_minute d \<and> dt_minute d < 60 \<and>
     0 \<le> dt_second d \<and> dt_second d < 60"

definition mk_datetime :: "int \<Rightarrow> int \<Rightarrow> int \<Rightarrow> int \<Rightarrow> int \<Rightarrow> int \<Rightarrow> datetime res" where
  "mk_datetime y mo d h mi s =
     (let dt = \<lparr>dt_year = y, dt_month = mo, dt_day = d, dt_hour = h, dt_minute = mi, dt_second = s\<rparr>
      in if valid_datetime dt then Inr dt else Inl ValueError)"

lemma only_raises_mk_datetime [raises_intro]:
  "P ValueError \<Longrightarrow> only_raises P (mk_datetime y mo d h mi s)"
  unfolding mk_datetime_def by (intro raises_intro) auto

lemma mk_datetime_valid: "mk_datetime y mo d h mi s = Inr dt \<Longrightarrow> valid_datetime dt"
  by (auto simp: mk_datetime_def Let_def split: if_splits)

definition pad_dec :: "nat \<Rightarrow> int \<Rightarrow> pystr" where
  "pad_dec k i = (let s = dec_nat (nat i) in replicate (k - length s) 48 @ s)"

text \<open>\<open>str(datetime)\<close>: naive, and in UTC\<close>

definition py_str_datetime :: "datetime \<Rightarrow> pystr" where
  "py_str_datetime d =
     pad_dec 4 (dt_year d) @ [45] @ pad_dec 2 (dt_month d) @ [45] @ pad_dec 2 (dt_day d) @ [32] @
     pad_dec 2 (dt_hour d) @ [58] @ pad_dec 2 (dt_minute d) @ [58] @ pad_dec 2 (dt_second d)"

definition py_str_datetime_utc :: "datetime \<Rightarrow> pystr" where
  "py_str_datetime_utc d = py_str_datetime d @ u ''+00:00''"

text \<open>
  \<open>strptime\<close>: each directive is a regular expression, an ordered list of alternatives,
  each a sequence of character ranges. The first match of the whole format (with
  backtracking) is taken; text left over is an error.
\<close>

type_synonym strp_field = "(nat \<times> nat) list list"

definition strp_d :: strp_field where
  "strp_d = [[(51, 51), (48, 49)], [(49, 50), (48, 57)], [(48, 48), (49, 57)], [(49, 57)],
             [(32, 32), (49, 57)]]"
definition strp_m :: strp_field where
  "strp_m = [[(49, 49), (48, 50)], [(48, 48), (49, 57)], [(49, 57)]]"
definition strp_y :: strp_field where
  "strp_y = [[(48, 57), (48, 57)]]"
definition strp_H :: strp_field where
  "strp_H = [[(50, 50), (48, 51)], [(48, 49), (48, 57)], [(48, 57)]]"
definition strp_M :: strp_field where
  "strp_M = [[(48, 53), (48, 57)], [(48, 57)]]"
definition strp_S :: strp_field where
  "strp_S = [[(54, 54), (48, 49)], [(48, 53), (48, 57)], [(48, 57)]]"

fun strp_alt :: "(nat \<times> nat) list \<Rightarrow> pystr \<Rightarrow> int \<Rightarrow> (int \<times> pystr) list" where
  "strp_alt [] s v = [(v, s)]"
| "strp_alt ((lo, hi) # rs) [] v = []"
| "strp_alt ((lo, hi) # rs) (c # cs) v =
     (if lo \<le> c \<and> c \<le> hi then strp_alt rs cs (if c = 32 then v else v * 10 + int c - 48) else [])"

fun strp_match :: "strp_field list \<Rightarrow> pystr \<Rightarrow> (int list \<times> pystr) list" where
  "strp_match [] s = [([], s)]"
| "strp_match (f # fs) s =
     concat (map (\<lambda>(v, r). map (\<lambda>(vs, r'). (v # vs, r')) (strp_match fs r))
       (concat (map (\<lambda>alt. strp_alt alt s 0) f)))"

definition strptime :: "strp_field list \<Rightarrow> pystr \<Rightarrow> int list res" where
  "strptime fs s = (case strp_match fs s of
       (vs, []) # _ \<Rightarrow> Inr vs
     | _ \<Rightarrow> Inl ValueError)"

text \<open>The century of a two-digit year\<close>

definition year_of :: "int \<Rightarrow> int" where
  "year_of y = (if y \<le> 68 then 2000 + y else 1900 + y)"

lemma only_raises_strptime [raises_intro]: "P ValueError \<Longrightarrow> only_raises P (strptime fs s)"
  unfolding strptime_def by (intro raises_intro) auto

end
