(* ===== verification/Pyval.thy ===== *)
theory Pyval
  imports Pynum
begin

text \<open>
  Dynamically typed values. The constructors of the message classes take keyword arguments
  whose values come from command lines, configuration files, JSON or other services, and
  convert each with a converter named in the class's \<open>KWARGS\<close>. This theory has the
  values, floats, the attribute dictionary of an object, and the constructor that both
  protocol modules share (\<open>__init__\<close> of \<open>GPS303Pkt\<close> and \<open>BeeSurePkt\<close>).
\<close>

section \<open>Floats\<close>

text \<open>
  A finite \<open>float\<close> is its exact value; rounding to double precision is not modelled, so
  \<open>float(s)\<close> is the decimal number written. Overflow to infinity is.
\<close>

datatype pyfloat = Fin rat | Inf bool | NaN

fun digit_run :: "bool \<Rightarrow> pystr \<Rightarrow> nat list \<times> pystr" where
  "digit_run seen [] = ([], [])"
| "digit_run seen (c # cs) =
     (if 48 \<le> c \<and> c \<le> 57 then (case digit_run True cs of (ds, r) \<Rightarrow> ((c - 48) # ds, r))
      else if c = 95 \<and> seen then
        (case cs of
           d # _ \<Rightarrow> if 48 \<le> d \<and> d \<le> 57 then digit_run False cs else ([], c # cs)
         | [] \<Rightarrow> ([], c # cs))
      else ([], c # cs))"

definition digits_value :: "nat list \<Rightarrow> nat" where
  "digits_value ds = foldl (\<lambda>a d. 10 * a + d) 0 ds"

definition ascii_lower :: "pystr \<Rightarrow> pystr" where
  "ascii_lower s = map (\<lambda>c. if 65 \<le> c \<and> c \<le> 90 then c + 32 else c) s"

definition ascii_upper :: "pystr \<Rightarrow> pystr" where
  "ascii_upper s = map (\<lambda>c. if 97 \<le> c \<and> c \<le> 122 then c - 32 else c) s"

text \<open>The exponent part: \<open>Some\<close> of the exponent, 0 where there is none.\<close>

definition float_exp :: "pystr \<Rightarrow> int option" where
  "float_exp s = (case s of
       [] \<Rightarrow> Some 0
     | c # cs \<Rightarrow> if c = 101 \<or> c = 69
         then (case split_sign cs of (sg, r) \<Rightarrow>
           (case digit_run False r of (ds, r') \<Rightarrow>
              if ds \<noteq> [] \<and> r' = [] then Some (sg * int (digits_value ds)) else None))
         else None)"

definition float_limit :: rat where
  "float_limit = 2 ^ 1024 - 2 ^ 970"

definition mk_float :: "int \<Rightarrow> nat \<Rightarrow> int \<Rightarrow> pyfloat" where
  "mk_float sg n e =
     (let v = (if 0 \<le> e then of_nat n * 10 ^ nat e else of_nat n / 10 ^ nat (- e))
      in if float_limit \<le> v then Inf (0 < sg) else Fin (of_int sg * v))"

definition py_float :: "pystr \<Rightarrow> pyfloat res" where
  "py_float s = (case split_sign (strip_space s) of (sg, t) \<Rightarrow>
     if ascii_lower t = u ''inf'' \<or> ascii_lower t = u ''infinity'' then Inr (Inf (0 < sg))
     else if ascii_lower t = u ''nan'' then Inr NaN
     else (case digit_run False t of (ds, r) \<Rightarrow>
       (case (case r of c # cs \<Rightarrow> if c = 46 then digit_run False cs else ([], r) | [] \<Rightarrow> ([], []))
        of (fs, r') \<Rightarrow>
          if ds = [] \<and> fs = [] then Inl ValueError
          else (case float_exp r' of
              Some e \<Rightarrow> Inr (mk_float sg (digits_value (ds @ fs)) (e - int (length fs)))
            | None \<Rightarrow> Inl ValueError))))"

lemma only_raises_py_float [raises_intro]: "P ValueError \<Longrightarrow> only_raises P (py_float s)"
  unfolding py_float_def by (intro raises_intro) auto

section \<open>Values, converters\<close>

datatype pyval =
    VNone | VBool bool | VInt int | VStr pystr | VBytes bytes | VFloat pyfloat
  | VList "pyval list" | VTup "pyval list"

fun conv_int :: "pyval \<Rightarrow> pyval res" where
  "conv_int (VInt i) = Inr (VInt i)"
| "conv_int (VBool b) = Inr (VInt (if b then 1 else 0))"
| "conv_int (VStr s) = and_then (py_int s) (\<lambda>i. Inr (VInt i))"
| "conv_int (VBytes bs) =
     (if \<exists>b \<in> set bs. 128 \<le> unat b \<or> (28 \<le> unat b \<and> unat b < 32) then Inl ValueError
      else and_then (py_int (map unat bs)) (\<lambda>i. Inr (VInt i)))"
| "conv_int (VFloat (Fin q)) = Inr (VInt (if q < 0 then - \<lfloor>- q\<rfloor> else \<lfloor>q\<rfloor>))"
| "conv_int (VFloat (Inf b)) = Inl OverflowError"
| "conv_int (VFloat NaN) = Inl ValueError"
| "conv_int VNone = Inl TypeError"
| "conv_int (VList xs) = Inl TypeError"
| "conv_int (VTup xs) = Inl TypeError"

fun conv_float :: "pyval \<Rightarrow> pyval res" where
  "conv_float (VInt i) = Inr (VFloat (Fin (of_int i)))"
| "conv_float (VBool b) = Inr (VFloat (Fin (if b then 1 else 0)))"
| "conv_float (VStr s) = and_then (py_float s) (\<lambda>f. Inr (VFloat f))"
| "conv_float (VFloat f) = Inr (VFloat f)"
| "conv_float _ = Inl TypeError"

text \<open>
  \<open>str(v)\<close>: numbers and text; the \<open>repr\<close> of floats, bytes and containers is left to
  the parameter \<open>rep\<close>.
\<close>

fun conv_str :: "(pyval \<Rightarrow> pystr) \<Rightarrow> pyval \<Rightarrow> pyval res" where
  "conv_str rep (VStr s) = Inr (VStr s)"
| "conv_str rep (VInt i) = Inr (VStr (py_str_int i))"
| "conv_str rep (VBool b) = Inr (VStr (if b then u ''True'' else u ''False''))"
| "conv_str rep VNone = Inr (VStr (u ''None''))"
| "conv_str rep v = Inr (VStr (rep v))"

fun intx :: "pyval \<Rightarrow> pyval res" where
  "intx (VStr s) = and_then (py_int_auto s) (\<lambda>i. Inr (VInt i))"
| "intx v = Inr v"

fun boolx :: "pyval \<Rightarrow> pyval res" where
  "boolx (VStr s) =
     (if ascii_upper s \<in> {u ''ON'', u ''TRUE'', u ''1''} then Inr (VBool True)
      else if ascii_upper s \<in> {u ''OFF'', u ''FALSE'', u ''0''} then Inr (VBool False)
      else Inl ValueError)"
| "boolx v = Inr v"

definition hhmm_str :: "pystr \<Rightarrow> pystr res" where
  "hhmm_str x =
     (if length x \<noteq> 4 then Inl ValueError
      else and_then (py_int (take 2 x)) (\<lambda>hh. and_then (py_int (drop 2 x)) (\<lambda>mm.
        if hh < 0 \<or> hh > 23 \<or> mm < 0 \<or> mm > 59 then Inl ValueError else Inr x)))"

fun hhmm :: "pyval \<Rightarrow> pyval res" where
  "hhmm (VStr x) = and_then (hhmm_str x) (\<lambda>s. Inr (VStr s))"
| "hhmm v = Inl ValueError"

fun hhmmhhmm :: "pyval \<Rightarrow> pyval res" where
  "hhmmhhmm (VStr x) =
     (if length x \<noteq> 8 then Inl ValueError
      else and_then (hhmm_str (take 4 x)) (\<lambda>a. and_then (hhmm_str (drop 4 x)) (\<lambda>b.
        Inr (VStr (a @ b)))))"
| "hhmmhhmm v = Inl ValueError"

text \<open>What \<open>len(v)\<close> and \<open>for el in v\<close> see.\<close>

fun py_seq :: "pyval \<Rightarrow> pyval list res" where
  "py_seq (VList xs) = Inr xs"
| "py_seq (VTup xs) = Inr xs"
| "py_seq (VStr s) = Inr (map (\<lambda>c. VStr [c]) s)"
| "py_seq (VBytes bs) = Inr (map (\<lambda>b. VInt (uint b)) bs)"
| "py_seq v = Inl TypeError"

fun is_str :: "pyval \<Rightarrow> bool" where
  "is_str (VStr s) = True"
| "is_str v = False"

fun is_int :: "pyval \<Rightarrow> bool" where
  "is_int (VInt i) = True"
| "is_int (VBool b) = True"
| "is_int v = False"

definition l3str :: "pyval \<Rightarrow> pyval res" where
  "l3str x =
     (let lx = (case x of VStr s \<Rightarrow> VList (map VStr (split_on 44 s)) | _ \<Rightarrow> x)
      in and_then (py_seq lx) (\<lambda>els. and_then (py_seq x) (\<lambda>xels.
           if length els \<noteq> 3 \<or> \<not> list_all is_str xels then Inl ValueError else Inr lx)))"

definition l3int :: "pyval \<Rightarrow> pyval res" where
  "l3int x =
     and_then (case x of
         VStr s \<Rightarrow> and_then (map_res py_int (split_on 44 s)) (\<lambda>is. Inr (VList (map VInt is)))
       | _ \<Rightarrow> Inr x)
     (\<lambda>lx. and_then (py_seq lx) (\<lambda>els.
        if length els \<noteq> 3 \<or> \<not> list_all is_int els then Inl ValueError else Inr lx))"

definition weekdays :: "(pystr \<times> int) list" where
  "weekdays = [(u ''MON'', 1), (u ''TUE'', 2), (u ''WED'', 3), (u ''THU'', 4), (u ''FRI'', 5),
               (u ''SAT'', 6), (u ''SUN'', 7)]"

definition alrmspec :: "pystr \<Rightarrow> pyval res" where
  "alrmspec sub =
     (if length sub \<noteq> 7 then Inl ValueError
      else (case map_of weekdays (ascii_upper (take 3 sub)) of
          Some d \<Rightarrow> Inr (VTup [VInt d, VStr (drop 3 sub)])
        | None \<Rightarrow> Inl KeyError))"

text \<open>\<open>for d, tm in lx\<close>: unpacking an element into two, and the day as a number\<close>

definition unpack_pair :: "pyval \<Rightarrow> (pyval \<times> pyval) res" where
  "unpack_pair v = and_then (py_seq v) (\<lambda>xs. case xs of [a, b] \<Rightarrow> Inr (a, b) | _ \<Rightarrow> Inl ValueError)"

fun int_value :: "pyval \<Rightarrow> int res" where
  "int_value (VInt i) = Inr i"
| "int_value (VBool b) = Inr (if b then 1 else 0)"
| "int_value v = Inl TypeError"

text \<open>
  \<open>any(d < 0 or d > 7 for d, tm in lx)\<close>: stops at the first day out of range, so an
  element behind it is not looked at.
\<close>

fun any_bad_day :: "pyval list \<Rightarrow> bool res" where
  "any_bad_day [] = Inr False"
| "any_bad_day (v # vs) = and_then (unpack_pair v) (\<lambda>(d, tm). and_then (int_value d) (\<lambda>i.
     if i < 0 \<or> i > 7 then Inr True else any_bad_day vs))"

definition l3alarms :: "pyval \<Rightarrow> pyval res" where
  "l3alarms x =
     and_then (case x of
         VStr s \<Rightarrow> map_res alrmspec (split_on 44 s)
       | VList xs \<Rightarrow> Inr xs
       | _ \<Rightarrow> Inl AttributeError)
     (\<lambda>lx0. let lx = lx0 @ replicate (3 - length lx0) (VTup [VInt 0, VStr (u ''0000'')]) in
        if length lx \<noteq> 3 then Inl ValueError
        else and_then (any_bad_day lx) (\<lambda>bad.
          if bad then Inl ValueError
          else and_then (map_res (\<lambda>v. and_then (unpack_pair v) (\<lambda>(d, tm).
                 and_then (hhmm tm) (\<lambda>t. Inr (VTup [d, t])))) lx) (\<lambda>ys. Inr (VList ys))))"

section \<open>Objects and their construction\<close>

type_synonym attrs = "(pystr \<times> pyval) list"
type_synonym kwspec = "(pystr \<times> (pyval \<Rightarrow> pyval res) \<times> pyval) list"

definition attr :: "attrs \<Rightarrow> pystr \<Rightarrow> pyval res" where
  "attr a k = (case map_of a k of Some v \<Rightarrow> Inr v | None \<Rightarrow> Inl AttributeError)"

text \<open>
  The keyword branch of \<open>__init__\<close>: every attribute of \<open>KWARGS\<close> is set to the converted
  argument or default, in order; arguments left over raise.
\<close>

fun set_kwargs :: "kwspec \<Rightarrow> attrs \<Rightarrow> (attrs \<times> attrs) res" where
  "set_kwargs [] kwargs = Inr ([], kwargs)"
| "set_kwargs ((kw, typ, dfl) # spec) kwargs =
     and_then (typ (case map_of kwargs kw of Some v \<Rightarrow> v | None \<Rightarrow> dfl)) (\<lambda>v.
     and_then (set_kwargs spec (filter (\<lambda>(k, _). k \<noteq> kw) kwargs)) (\<lambda>(a, rest).
       Inr ((kw, v) # a, rest)))"

definition init_kwargs :: "kwspec \<Rightarrow> attrs \<Rightarrow> attrs res" where
  "init_kwargs spec kwargs = and_then (set_kwargs spec kwargs) (\<lambda>(a, rest).
     if rest \<noteq> [] then Inl ValueError else Inr a)"

text \<open>\<open>struct.pack\<close> of a dynamically typed field: anything but an integer raises.\<close>

fun pack_val :: "nat \<Rightarrow> pyval \<Rightarrow> bytes res" where
  "pack_val n (VInt i) = pack_uint n i"
| "pack_val n (VBool b) = pack_uint n (if b then 1 else 0)"
| "pack_val n v = Inl StructError"

definition pack_attr :: "nat \<Rightarrow> attrs \<Rightarrow> pystr \<Rightarrow> bytes res" where
  "pack_attr n a k = and_then (attr a k) (pack_val n)"

text \<open>\<open>bytes.fromhex\<close> of an attribute that must be text\<close>

fun fromhex_val :: "pyval \<Rightarrow> bytes res" where
  "fromhex_val (VStr s) = fromhex s"
| "fromhex_val v = Inl TypeError"

definition concat_res :: "bytes res list \<Rightarrow> bytes res" where
  "concat_res rs = and_then (map_res id rs) (\<lambda>bss. Inr (concat bss))"

lemma attr_Cons [simp]: "attr ((k, v) # a) k' = (if k = k' then Inr v else attr a k')"
  by (simp add: attr_def)

lemma concat_res_Nil [simp]: "concat_res [] = Inr []"
  by (simp add: concat_res_def)

lemma concat_res_Cons [simp]:
  "concat_res (r # rs) = and_then r (\<lambda>b. and_then (concat_res rs) (\<lambda>bs. Inr (b @ bs)))"
  by (cases r) (auto simp: concat_res_def and_then_assoc)

lemma set_kwargs_keys:
  "set_kwargs spec kwargs = Inr (a, rest) \<Longrightarrow> map fst a = map fst spec"
  by (induction spec arbitrary: kwargs a rest) (auto simp: res_simps)

lemma set_kwargs_rest:
  "set_kwargs spec kwargs = Inr (a, rest) \<Longrightarrow>
     rest = filter (\<lambda>(k, _). k \<notin> set (map fst spec)) kwargs"
proof (induction spec arbitrary: kwargs a rest)
  case (Cons sp spec)
  obtain kw conv dfl where sp: "sp = (kw, conv, dfl)" by (cases sp)
  from Cons.prems obtain a' where
    "set_kwargs spec (filter (\<lambda>(k, _). k \<noteq> kw) kwargs) = Inr (a', rest)"
    by (auto simp: sp res_simps)
  from Cons.IH [OF this] show ?case by (simp add: sp) (rule filter_cong, auto)
qed simp

text \<open>A keyword the class does not know is refused.\<close>

lemma init_kwargs_stray:
  assumes "(k, v) \<in> set kwargs" and "k \<notin> set (map fst spec)"
  shows "\<not> returns (init_kwargs spec kwargs)"
proof
  assume "returns (init_kwargs spec kwargs)"
  then obtain a rest where "set_kwargs spec kwargs = Inr (a, rest)" "rest = []"
    by (auto simp: init_kwargs_def res_simps split: if_splits)
  from set_kwargs_rest [OF this(1)] this(2)
  have "filter (\<lambda>(k, _). k \<notin> set (map fst spec)) kwargs = []" by simp
  with assms show False unfolding filter_empty_conv by fastforce
qed

end
