(* ===== verification/Reports.thy ===== *)
theory Reports
  imports Pyval
begin

text \<open>
  The protocol-independent reports of \<open>loctrkd/common.py\<close> (\<open>CoordReport\<close>,
  \<open>HintReport\<close>, \<open>StatusReport\<close>), and the response kinds both protocol modules attach
  to their message classes (\<open>class Respond\<close>).
\<close>

record coord_report =
  cr_devtime :: pystr
  cr_battery_percentage :: "int option"
  cr_accuracy :: "pyval"
  cr_altitude :: "pyval"
  cr_speed :: "pyval"
  cr_direction :: "pyval"
  cr_latitude :: pyfloat
  cr_longitude :: pyfloat

text \<open>A cell is a tuple of integers; the terminal decides how many it holds.\<close>

record hint_report =
  hr_devtime :: pystr
  hr_battery_percentage :: "int option"
  hr_mcc :: int
  hr_mnc :: int
  hr_gsm_cells :: "int list list"
  hr_wifi_aps :: "(pystr \<times> pystr \<times> int) list"

record status_report =
  sr_battery_percentage :: int

datatype report =
    CoordReport coord_report
  | HintReport hint_report
  | StatusReport status_report

text \<open>The class attribute \<open>TYPE\<close>, stored under \<open>type\<close> in the report's JSON form.\<close>

fun report_TYPE :: "report \<Rightarrow> pystr" where
  "report_TYPE (CoordReport r) = u ''location''"
| "report_TYPE (HintReport r) = u ''approximate_location''"
| "report_TYPE (StatusReport r) = u ''status''"

datatype respond = NON | INL | EXT

text \<open>Whether a message comes from the terminal or goes to it (the nested classes \<open>In\<close> and \<open>Out\<close>).\<close>

datatype dir = In | Out

end
