(* ===== verification/ZX_Classes.thy ===== *)
theory ZX_Classes
  imports Reports
begin

text \<open>
  The message classes of \<open>loctrkd/zx303proto.py\<close>: their protocol numbers and response
  kinds, their names, and the module's tables built from them.
\<close>

unbundle bit_operations_syntax

section \<open>Message classes\<close>

datatype zx_class =
    UNKNOWN | LOGIN | SUPERVISION | HEARTBEAT | GPS_POSITIONING | GPS_OFFLINE_POSITIONING
  | STATUS | HIBERNATION | RESET | WHITELIST_TOTAL | WIFI_OFFLINE_POSITIONING | TIME
  | PROHIBIT_LBS | GPS_LBS_SWITCH_TIMES | REMOTE_MONITOR_PHONE | SOS_PHONE | DAD_PHONE
  | MOM_PHONE | STOP_UPLOAD | GPS_OFF_PERIOD | DND_PERIOD | RESTART_SHUTDOWN | DEVICE
  | ALARM_CLOCK | STOP_ALARM | SETUP | SYNCHRONOUS_WHITELIST | RESTORE_PASSWORD
  | WIFI_POSITIONING | MANUAL_POSITIONING | BATTERY_CHARGE | CHARGER_CONNECTED
  | CHARGER_DISCONNECTED | VIBRATION_RECEIVED | POSITION_UPLOAD_INTERVAL | SOS_ALARM
  | UNKNOWN_B3

fun zx_PROTO :: "zx_class \<Rightarrow> int" where
  "zx_PROTO UNKNOWN = 256"
| "zx_PROTO LOGIN = 0x01"
| "zx_PROTO SUPERVISION = 0x05"
| "zx_PROTO HEARTBEAT = 0x08"
| "zx_PROTO GPS_POSITIONING = 0x10"
| "zx_PROTO GPS_OFFLINE_POSITIONING = 0x11"
| "zx_PROTO STATUS = 0x13"
| "zx_PROTO HIBERNATION = 0x14"
| "zx_PROTO RESET = 0x15"
| "zx_PROTO WHITELIST_TOTAL = 0x16"
| "zx_PROTO WIFI_OFFLINE_POSITIONING = 0x17"
| "zx_PROTO TIME = 0x30"
| "zx_PROTO PROHIBIT_LBS = 0x33"
| "zx_PROTO GPS_LBS_SWITCH_TIMES = 0x34"
| "zx_PROTO REMOTE_MONITOR_PHONE = 0x40"
| "zx_PROTO SOS_PHONE = 0x41"
| "zx_PROTO DAD_PHONE = 0x42"
| "zx_PROTO MOM_PHONE = 0x43"
| "zx_PROTO STOP_UPLOAD = 0x44"
| "zx_PROTO GPS_OFF_PERIOD = 0x46"
| "zx_PROTO DND_PERIOD = 0x47"
| "zx_PROTO RESTART_SHUTDOWN = 0x48"
| "zx_PROTO DEVICE = 0x49"
| "zx_PROTO ALARM_CLOCK = 0x50"
| "zx_PROTO STOP_ALARM = 0x56"
| "zx_PROTO SETUP = 0x57"
| "zx_PROTO SYNCHRONOUS_WHITELIST = 0x58"
| "zx_PROTO RESTORE_PASSWORD = 0x67"
| "zx_PROTO WIFI_POSITIONING = 0x69"
| "zx_PROTO MANUAL_POSITIONING = 0x80"
| "zx_PROTO BATTERY_CHARGE = 0x81"
| "zx_PROTO CHARGER_CONNECTED = 0x82"
| "zx_PROTO CHARGER_DISCONNECTED = 0x83"
| "zx_PROTO VIBRATION_RECEIVED = 0x94"
| "zx_PROTO POSITION_UPLOAD_INTERVAL = 0x98"
| "zx_PROTO SOS_ALARM = 0x99"
| "zx_PROTO UNKNOWN_B3 = 0xB3"

fun zx_RESPOND :: "zx_class \<Rightarrow> respond" where
  "zx_RESPOND LOGIN = INL"
| "zx_RESPOND HEARTBEAT = INL"
| "zx_RESPOND GPS_POSITIONING = INL"
| "zx_RESPOND GPS_OFFLINE_POSITIONING = INL"
| "zx_RESPOND STATUS = EXT"
| "zx_RESPOND WIFI_OFFLINE_POSITIONING = INL"
| "zx_RESPOND TIME = INL"
| "zx_RESPOND SETUP = EXT"
| "zx_RESPOND WIFI_POSITIONING = EXT"
| "zx_RESPOND POSITION_UPLOAD_INTERVAL = EXT"
| "zx_RESPOND _ = NON"

text \<open>\<open>cls.__name__\<close> of the outer classes\<close>

fun zx_name :: "zx_class \<Rightarrow> pystr" where
  "zx_name UNKNOWN = u ''UNKNOWN''"
| "zx_name LOGIN = u ''LOGIN''"
| "zx_name SUPERVISION = u ''SUPERVISION''"
| "zx_name HEARTBEAT = u ''HEARTBEAT''"
| "zx_name GPS_POSITIONING = u ''GPS_POSITIONING''"
| "zx_name GPS_OFFLINE_POSITIONING = u ''GPS_OFFLINE_POSITIONING''"
| "zx_name STATUS = u ''STATUS''"
| "zx_name HIBERNATION = u ''HIBERNATION''"
| "zx_name RESET = u ''RESET''"
| "zx_name WHITELIST_TOTAL = u ''WHITELIST_TOTAL''"
| "zx_name WIFI_OFFLINE_POSITIONING = u ''WIFI_OFFLINE_POSITIONING''"
| "zx_name TIME = u ''TIME''"
| "zx_name PROHIBIT_LBS = u ''PROHIBIT_LBS''"
| "zx_name GPS_LBS_SWITCH_TIMES = u ''GPS_LBS_SWITCH_TIMES''"
| "zx_name REMOTE_MONITOR_PHONE = u ''REMOTE_MONITOR_PHONE''"
| "zx_name SOS_PHONE = u ''SOS_PHONE''"
| "zx_name DAD_PHONE = u ''DAD_PHONE''"
| "zx_name MOM_PHONE = u ''MOM_PHONE''"
| "zx_name STOP_UPLOAD = u ''STOP_UPLOAD''"
| "zx_name GPS_OFF_PERIOD = u ''GPS_OFF_PERIOD''"
| "zx_name DND_PERIOD = u ''DND_PERIOD''"
| "zx_name RESTART_SHUTDOWN = u ''RESTART_SHUTDOWN''"
| "zx_name DEVICE = u ''DEVICE''"
| "zx_name ALARM_CLOCK = u ''ALARM_CLOCK''"
| "zx_name STOP_ALARM = u ''STOP_ALARM''"
| "zx_name SETUP = u ''SETUP''"
| "zx_name SYNCHRONOUS_WHITELIST = u ''SYNCHRONOUS_WHITELIST''"
| "zx_name RESTORE_PASSWORD = u ''RESTORE_PASSWORD''"
| "zx_name WIFI_POSITIONING = u ''WIFI_POSITIONING''"
| "zx_name MANUAL_POSITIONING = u ''MANUAL_POSITIONING''"
| "zx_name BATTERY_CHARGE = u ''BATTERY_CHARGE''"
| "zx_name CHARGER_CONNECTED = u ''CHARGER_CONNECTED''"
| "zx_name CHARGER_DISCONNECTED = u ''CHARGER_DISCONNECTED''"
| "zx_name VIBRATION_RECEIVED = u ''VIBRATION_RECEIVED''"
| "zx_name POSITION_UPLOAD_INTERVAL = u ''POSITION_UPLOAD_INTERVAL''"
| "zx_name SOS_ALARM = u ''SOS_ALARM''"
| "zx_name UNKNOWN_B3 = u ''UNKNOWN_B3''"

text \<open>The module-level dictionaries, in the order the classes are defined.\<close>

definition zx_all :: "zx_class list" where
  "zx_all = [UNKNOWN, LOGIN, SUPERVISION, HEARTBEAT, GPS_POSITIONING, GPS_OFFLINE_POSITIONING,
     STATUS, HIBERNATION, RESET, WHITELIST_TOTAL, WIFI_OFFLINE_POSITIONING, TIME,
     PROHIBIT_LBS, GPS_LBS_SWITCH_TIMES, REMOTE_MONITOR_PHONE, SOS_PHONE, DAD_PHONE,
     MOM_PHONE, STOP_UPLOAD, GPS_OFF_PERIOD, DND_PERIOD, RESTART_SHUTDOWN, DEVICE,
     ALARM_CLOCK, STOP_ALARM, SETUP, SYNCHRONOUS_WHITELIST, RESTORE_PASSWORD,
     WIFI_POSITIONING, MANUAL_POSITIONING, BATTERY_CHARGE, CHARGER_CONNECTED,
     CHARGER_DISCONNECTED, VIBRATION_RECEIVED, POSITION_UPLOAD_INTERVAL, SOS_ALARM,
     UNKNOWN_B3]"

text \<open>\<open>CLASSES[cls.PROTO] = cls\<close> for each class in turn: a later class would win.\<close>

definition zx_CLASSES :: "int \<Rightarrow> zx_class option" where
  "zx_CLASSES = map_of (rev (map (\<lambda>c. (zx_PROTO c, c)) zx_all))"

definition zx_PROTOS :: "(pystr \<times> int) list" where
  "zx_PROTOS = map (\<lambda>c. (zx_name c, zx_PROTO c)) zx_all"

definition ZX_PREFIX :: pystr where
  "ZX_PREFIX = u ''ZX:''"

definition zx_proto_name :: "zx_class \<Rightarrow> pystr" where
  "zx_proto_name c = take 16 (ZX_PREFIX @ zx_name c)"

lemma zx_all_UNIV: "set zx_all = UNIV"
proof -
  have "c \<in> set zx_all" for c by (cases c) (simp_all add: zx_all_def)
  then show ?thesis by blast
qed

lemma zx_PROTO_inj: "inj zx_PROTO"
proof -
  have "distinct (map zx_PROTO zx_all)" by (simp add: zx_all_def)
  then show ?thesis by (simp add: distinct_map zx_all_UNIV)
qed

text \<open>No two classes share a number, so the order in which they enter the table is irrelevant.\<close>

lemma zx_CLASSES_PROTO: "zx_CLASSES n = Some c \<longleftrightarrow> zx_PROTO c = n"
proof -
  have "distinct (map fst (rev (map (\<lambda>c. (zx_PROTO c, c)) zx_all)))" by (simp add: zx_all_def)
  then have "zx_CLASSES n = Some c \<longleftrightarrow> (n, c) \<in> set (rev (map (\<lambda>c. (zx_PROTO c, c)) zx_all))"
    unfolding zx_CLASSES_def by (rule map_of_eq_Some_iff)
  then show ?thesis using zx_all_UNIV by auto
qed

lemma zx_PROTO_byte: "zx_PROTO c < 256 \<longleftrightarrow> c \<noteq> UNKNOWN"
  by (cases c) simp_all

text \<open>Classes are ordered by protocol number.\<close>

instantiation zx_class :: linorder
begin

definition less_eq_zx_class :: "zx_class \<Rightarrow> zx_class \<Rightarrow> bool" where
  "less_eq_zx_class c d \<longleftrightarrow> zx_PROTO c \<le> zx_PROTO d"

definition less_zx_class :: "zx_class \<Rightarrow> zx_class \<Rightarrow> bool" where
  "less_zx_class c d \<longleftrightarrow> zx_PROTO c < zx_PROTO d"

instance
proof
  fix c d :: zx_class
  assume "c \<le> d" and "d \<le> c"
  then have "zx_PROTO c = zx_PROTO d" by (simp only: less_eq_zx_class_def antisym_conv)
  with zx_PROTO_inj show "c = d" by (rule injD)
qed (auto simp: less_eq_zx_class_def less_zx_class_def)

end

end
