(* ===== verification/ZX_Packets.thy ===== *)
theory ZX_Packets
  imports ZX_Classes
begin

text \<open>
  The messages of \<open>loctrkd/zx303proto.py\<close>: decoding of payloads into attributes
  (\<open>in_decode\<close>, \<open>out_decode\<close>), encoding of messages for the terminal and, for tests, of
  messages as a terminal would send them (\<open>out_encode\<close>, \<open>in_encode\<close>, \<open>packed\<close>).

  The attributes a decoded message has are a \<open>zx_body\<close>, one constructor per decoder.
  Messages made for the terminal have dynamically typed attributes (\<open>attrs\<close>), converted
  by the class's \<open>OUT_KWARGS\<close>. The clock is a parameter \<open>now\<close> (a UTC date), and so is
  the host's conversion of naive local dates to UTC (\<open>tz\<close>).
\<close>

unbundle bit_operations_syntax

section \<open>Decoded attributes\<close>

record gps_fix =
  g_dtime :: bytes
  g_devtime :: "datetime option"
  g_gps_data_length :: int
  g_gps_nb_sat :: int
  g_gps_is_valid :: bool
  g_heading :: int
  g_latitude :: rat
  g_longitude :: rat
  g_speed :: int
  g_flags :: int

record zx_status =
  s_batt :: int
  s_ver :: int
  s_timezone :: int
  s_intvl :: int
  s_signal :: "int option"

record wifi_fix =
  w_dtime :: bytes
  w_devtime :: "datetime option"
  w_wifi_aps :: "(pystr \<times> int) list"
  w_mcc :: int
  w_mnc :: int
  w_gsm_cells :: "(int \<times> int \<times> int) list"

datatype zx_body =
    No_Body
  | Login_Body pystr int
  | Gps_Body gps_fix
  | Status_Body zx_status
  | Wifi_Body wifi_fix
  | Stop_Alarm_Body int
  | Approx_Body pyfloat pyfloat
  | Manual_Body int pystr
  | Interval_Body "int list"
  | Ascii_Body pystr

definition NUL6 :: bytes where
  "NUL6 = replicate 6 0"

definition login_in_decode :: "bytes \<Rightarrow> zx_body res" where
  "login_in_decode payload =
     (let imei = hex_bytes (ljust 8 0 (take 8 payload))
      in and_then (pyget payload 8) (\<lambda>ver. Inr (Login_Body imei (uint ver))))"

definition gps_devtime :: "bytes \<Rightarrow> datetime option res" where
  "gps_devtime dtime =
     (if dtime = NUL6 then Inr None
      else (case map uint dtime of
          [yr, mo, da, hr, mi, se] \<Rightarrow>
            and_then (mk_datetime (2000 + yr) mo da hr mi se) (\<lambda>d. Inr (Some d))
        | _ \<Rightarrow> Inl StructError))"

definition gps_in_decode :: "bytes \<Rightarrow> zx_body res" where
  "gps_in_decode payload =
     (let dtime = take 6 payload in
      and_then (gps_devtime dtime) (\<lambda>devtime.
      and_then (pyget payload 6) (\<lambda>b6.
        let rest = pyslice 7 18 payload in
        if length rest \<noteq> 11 then Inl StructError
        else
          (let lat = be (pyslice 0 4 rest); lon = be (pyslice 4 8 rest);
               speed = uint (rest ! 8); flags = be (pyslice 9 11 rest);
               flip_lon = (flags AND 0b0000100000000000 \<noteq> 0);
               flip_lat = (\<not> (flags AND 0b0000010000000000 \<noteq> 0))
           in Inr (Gps_Body
             \<lparr>g_dtime = dtime, g_devtime = devtime,
              g_gps_data_length = uint b6 div 16, g_gps_nb_sat = uint b6 AND 0x0F,
              g_gps_is_valid = (flags AND 0b0001000000000000 \<noteq> 0),
              g_heading = flags AND 0b0000001111111111,
              g_latitude = of_int lat / (30000 * 60) * (if flip_lat then -1 else 1),
              g_longitude = of_int lon / (30000 * 60) * (if flip_lon then -1 else 1),
              g_speed = speed, g_flags = flags\<rparr>)))))"

definition status_in_decode :: "bytes \<Rightarrow> zx_body res" where
  "status_in_decode payload =
     (case map uint (take 4 payload) of
        [batt, ver, timezone, intvl] \<Rightarrow>
          Inr (Status_Body \<lparr>s_batt = batt, s_ver = ver, s_timezone = timezone, s_intvl = intvl,
            s_signal = (if length payload > 4 then Some (uint (payload ! 4)) else None)\<rparr>)
      | _ \<Rightarrow> Inl StructError)"

text \<open>\<open>strptime(dtime.hex(), "%y%m%d%H%M%S")\<close>, taken as local time and converted to UTC\<close>

definition wifi_devtime :: "(datetime \<Rightarrow> datetime) \<Rightarrow> bytes \<Rightarrow> datetime option res" where
  "wifi_devtime tz dtime =
     (if dtime = NUL6 then Inr None
      else and_then (strptime [strp_y, strp_m, strp_d, strp_H, strp_M, strp_S] (hex_bytes dtime))
        (\<lambda>vs. case vs of
           [y, mo, d, h, mi, s] \<Rightarrow>
             and_then (mk_datetime (year_of y) mo d h mi s) (\<lambda>dt. Inr (Some (tz dt)))
         | _ \<Rightarrow> Inl ValueError))"

definition wifi_ap :: "bytes \<Rightarrow> nat \<Rightarrow> (pystr \<times> int) res" where
  "wifi_ap payload i =
     (let slice = pyslice (6 + i * 7) (13 + i * 7) payload in
      and_then (pyget slice 6) (\<lambda>sig.
        Inr (join_with [58] (map format_02X (take 6 slice)), - uint sig)))"

definition gsm_cell :: "bytes \<Rightarrow> nat \<Rightarrow> (int \<times> int \<times> int) res" where
  "gsm_cell gsm_slice i =
     (let slice = pyslice (4 + i * 5) (9 + i * 5) gsm_slice in
      if length slice \<noteq> 5 then Inl StructError
      else Inr (be (take 2 slice), be (pyslice 2 4 slice), - uint (slice ! 4)))"

definition wifi_in_decode :: "(datetime \<Rightarrow> datetime) \<Rightarrow> nat \<Rightarrow> bytes \<Rightarrow> zx_body res" where
  "wifi_in_decode tz len payload =
     (let dtime = take 6 payload in
      and_then (wifi_devtime tz dtime) (\<lambda>devtime.
      and_then (map_res (wifi_ap payload) [0..<len]) (\<lambda>aps.
        let gsm_slice = drop (6 + len * 7) payload; hdr = take 4 gsm_slice in
        if length hdr \<noteq> 4 then Inl StructError
        else
          (let ncells = unat (hdr ! 0); mcc = be (pyslice 1 3 hdr); mnc = uint (hdr ! 3) in
           and_then (map_res (gsm_cell gsm_slice) [0..<ncells]) (\<lambda>cells.
             Inr (Wifi_Body \<lparr>w_dtime = dtime, w_devtime = devtime, w_wifi_aps = aps,
               w_mcc = mcc, w_mnc = mnc, w_gsm_cells = cells\<rparr>))))))"

definition manual_in_decode :: "bytes \<Rightarrow> zx_body res" where
  "manual_in_decode payload =
     (let flag = (if length payload > 0 then uint (payload ! 0) else -1);
          reason = (if flag = 1 then u ''Incorrect time''
            else if flag = 2 then u ''LBS less''
            else if flag = 3 then u ''WiFi less''
            else if flag = 4 then u ''LBS search > 3 times''
            else if flag = 5 then u ''Same LBS and WiFi data''
            else if flag = 6 then u ''LBS prohibited, WiFi absent''
            else if flag = 7 then u ''GPS spacing < 50 m''
            else u ''Unknown'')
      in Inr (Manual_Body flag reason))"

text \<open>The \<open>in_decode\<close> method of each class; the base class's decodes nothing.\<close>

fun zx_in_decode :: "(datetime \<Rightarrow> datetime) \<Rightarrow> zx_class \<Rightarrow> nat \<Rightarrow> bytes \<Rightarrow> zx_body res" where
  "zx_in_decode tz LOGIN len payload = login_in_decode payload"
| "zx_in_decode tz GPS_POSITIONING len payload = gps_in_decode payload"
| "zx_in_decode tz GPS_OFFLINE_POSITIONING len payload = gps_in_decode payload"
| "zx_in_decode tz STATUS len payload = status_in_decode payload"
| "zx_in_decode tz WIFI_OFFLINE_POSITIONING len payload = wifi_in_decode tz len payload"
| "zx_in_decode tz WIFI_POSITIONING len payload = wifi_in_decode tz len payload"
| "zx_in_decode tz STOP_ALARM len payload =
     and_then (pyget payload 0) (\<lambda>b. Inr (Stop_Alarm_Body (uint b)))"
| "zx_in_decode tz MANUAL_POSITIONING len payload = manual_in_decode payload"
| "zx_in_decode tz POSITION_UPLOAD_INTERVAL len payload =
     (if length (take 2 payload) \<noteq> 2 then Inl StructError
      else Inr (Interval_Body [be (take 2 payload)]))"
| "zx_in_decode tz UNKNOWN_B3 len payload =
     and_then (utf8_decode payload) (\<lambda>s. Inr (Ascii_Body s))"
| "zx_in_decode tz _ len payload = Inr No_Body"

fun zx_out_decode :: "zx_class \<Rightarrow> bytes \<Rightarrow> zx_body res" where
  "zx_out_decode WIFI_POSITIONING payload =
     and_then (utf8_decode payload) (\<lambda>s.
       case split_on 44 s of
         [lat, lon] \<Rightarrow> and_then (py_float lat) (\<lambda>la. and_then (py_float lon) (\<lambda>lo.
           Inr (Approx_Body la lo)))
       | _ \<Rightarrow> Inl ValueError)"
| "zx_out_decode _ payload = Inr No_Body"

text \<open>
  The positional branch of \<open>__init__\<close>: \<open>struct.error\<close> from the decoder becomes
  \<open>DecodeError\<close>.
\<close>

fun wrap_struct :: "'a res \<Rightarrow> 'a res" where
  "wrap_struct (Inl StructError) = Inl DecodeError"
| "wrap_struct r = r"

definition zx_decode :: "(datetime \<Rightarrow> datetime) \<Rightarrow> dir \<Rightarrow> zx_class \<Rightarrow> nat \<Rightarrow> bytes \<Rightarrow> zx_body res" where
  "zx_decode tz d c len payload =
     wrap_struct (case d of In \<Rightarrow> zx_in_decode tz c len payload | Out \<Rightarrow> zx_out_decode c payload)"

section \<open>What decoders may raise\<close>

lemma wrap_struct_Inl: "wrap_struct r = Inl e \<longleftrightarrow>
    (r = Inl StructError \<and> e = DecodeError) \<or> (r = Inl e \<and> e \<noteq> StructError)"
  by (cases r rule: wrap_struct.cases) auto

lemma wrap_struct_Inr [simp]: "wrap_struct r = Inr x \<longleftrightarrow> r = Inr x"
  by (cases r rule: wrap_struct.cases) auto

definition decode_exn :: "py_exn \<Rightarrow> bool" where
  "decode_exn e \<longleftrightarrow> e = StructError \<or> e = IndexError \<or> is_ValueError e"

lemma decode_exn_simps [simp]:
  "decode_exn StructError" "decode_exn IndexError" "decode_exn ValueError"
  "decode_exn UnicodeDecodeError"
  by (simp_all add: decode_exn_def)

lemma only_raises_decoders [raises_intro]:
  "only_raises decode_exn (login_in_decode p)"
  "only_raises decode_exn (gps_devtime bs)"
  "only_raises decode_exn (status_in_decode p)"
  "only_raises decode_exn (wifi_devtime tz bs)"
  "only_raises decode_exn (wifi_ap p i)"
  "only_raises decode_exn (gsm_cell p i)"
  "only_raises decode_exn (manual_in_decode p)"
  unfolding login_in_decode_def gps_devtime_def status_in_decode_def wifi_devtime_def wifi_ap_def
    gsm_cell_def manual_in_decode_def
  by (intro raises_intro; simp)+

lemma only_raises_gps_wifi [raises_intro]:
  "only_raises decode_exn (gps_in_decode p)"
  "only_raises decode_exn (wifi_in_decode tz len p)"
  unfolding gps_in_decode_def wifi_in_decode_def by (intro raises_intro; simp)+

lemma only_raises_in_decode: "only_raises decode_exn (zx_in_decode tz c len p)"
  by (cases c) (simp_all add: raises_intro)

lemma only_raises_out_decode: "only_raises decode_exn (zx_out_decode c p)"
  by (cases c) (auto intro!: raises_intro)

text \<open>Whatever a decoder raises is among the exceptions that \<open>parse_message\<close> catches.\<close>

lemma only_raises_wrap_struct:
  "only_raises decode_exn r \<Longrightarrow>
   only_raises (\<lambda>e. e = DecodeError \<or> e = IndexError \<or> is_ValueError e) (wrap_struct r)"
  by (cases r rule: wrap_struct.cases) (auto simp: decode_exn_def)

lemma zx_decode_exn:
  "only_raises (\<lambda>e. e = DecodeError \<or> e = IndexError \<or> is_ValueError e) (zx_decode tz d c len p)"
  unfolding zx_decode_def
  by (rule only_raises_wrap_struct)
    (simp add: only_raises_in_decode only_raises_out_decode split: dir.split)

end
