(* ===== verification/Pyformat.thy ===== *)
theory Pyformat
  imports Pyval
begin

text \<open>
  The format \<open>{:+#010.8g}\<close> of floats, in which the server sends an approximated position
  back to a terminal: sign, eight significant digits, trailing zeros kept.
\<close>

definition round_half_even :: "rat \<Rightarrow> int" where
  "round_half_even q =
     (let f = \<lfloor>q\<rfloor>; r = q - of_int f
      in if r < 1 / 2 then f else if r > 1 / 2 then f + 1 else if even f then f else f + 1)"

text \<open>
  The decimal exponent of a positive number: the number of digits before the point, or the
  number of zeros after it. The denominator bounds the search.
\<close>

fun neg_exp10 :: "nat \<Rightarrow> nat \<Rightarrow> rat \<Rightarrow> nat" where
  "neg_exp10 0 k a = k"
| "neg_exp10 (Suc f) k a = (if 1 \<le> a * 10 ^ k then k else neg_exp10 f (Suc k) a)"

definition exp10_of :: "rat \<Rightarrow> int" where
  "exp10_of a =
     (if 1 \<le> a then int (length (dec_nat (nat \<lfloor>a\<rfloor>))) - 1
      else - int (neg_exp10 (length (dec_nat (nat (snd (quotient_of a))))) 1 a))"

text \<open>\<open>a * 10 ^ e\<close> for an integer exponent\<close>

definition scale10 :: "rat \<Rightarrow> int \<Rightarrow> rat" where
  "scale10 a e = (if 0 \<le> e then a * 10 ^ nat e else a / 10 ^ nat (- e))"

text \<open>Eight significant digits \<open>m\<close> and the exponent \<open>X\<close> of the first one.\<close>

definition sig8 :: "rat \<Rightarrow> nat \<times> int" where
  "sig8 a =
     (let X = exp10_of a; m = nat (round_half_even (scale10 a (7 - X)))
      in if m = 10 ^ 8 then (10 ^ 7, X + 1) else (m, X))"

definition fmt_exp :: "int \<Rightarrow> pystr" where
  "fmt_exp X = (if X < 0 then 45 else 43) # pad_dec 2 \<bar>X\<bar>"

definition fmt_digits :: "nat \<Rightarrow> int \<Rightarrow> pystr" where
  "fmt_digits m X =
     (let ds = dec_nat m in
      if 0 \<le> X \<and> X < 8 then take (nat X + 1) ds @ [46] @ drop (nat X + 1) ds
      else if -4 \<le> X \<and> X < 0 then [48, 46] @ replicate (nat (- X) - 1) 48 @ ds
      else take 1 ds @ [46] @ drop 1 ds @ [101] @ fmt_exp X)"

text \<open>Padding with zeros goes between the sign and the digits.\<close>

definition pad10 :: "nat \<Rightarrow> pystr \<Rightarrow> pystr" where
  "pad10 sg body = sg # replicate (9 - length body) 48 @ body"

fun format_g8 :: "pyfloat \<Rightarrow> pystr" where
  "format_g8 (Fin q) =
     (if q = 0 then pad10 43 (u ''0.0000000'')
      else pad10 (if q < 0 then 45 else 43) (case sig8 \<bar>q\<bar> of (m, X) \<Rightarrow> fmt_digits m X))"
| "format_g8 (Inf pos) = pad10 (if pos then 43 else 45) (u ''inf'')"
| "format_g8 NaN = pad10 43 (u ''nan'')"

end
