(* ===== verification/ZX_Encode.thy ===== *)
theory ZX_Encode
  imports ZX_Packets Pyformat
begin

text \<open>
  Encoding of zx303 messages: \<open>OUT_KWARGS\<close> and \<open>out_encode\<close> of every class the server
  can send, \<open>in_encode\<close> of those a test terminal sends, and \<open>packed\<close>.
\<close>

section \<open>Messages for the terminal\<close>

text \<open>\<open>rep\<close> is the \<open>repr\<close> of values that \<open>str\<close> is not modelled on.\<close>

fun zx_OUT_KWARGS :: "(pyval \<Rightarrow> pystr) \<Rightarrow> zx_class \<Rightarrow> kwspec" where
  "zx_OUT_KWARGS rep SUPERVISION = [(u ''status'', conv_int, VInt 1)]"
| "zx_OUT_KWARGS rep STATUS = [(u ''upload_interval'', conv_int, VInt 25)]"
| "zx_OUT_KWARGS rep WHITELIST_TOTAL = [(u ''number'', conv_int, VInt 3)]"
| "zx_OUT_KWARGS rep PROHIBIT_LBS = [(u ''status'', conv_int, VInt 1)]"
| "zx_OUT_KWARGS rep GPS_LBS_SWITCH_TIMES =
     [(u ''gps_off'', boolx, VBool False),
      (u ''gps_interval_set'', boolx, VBool False),
      (u ''gps_interval'', hhmmhhmm, VStr (u ''00000000'')),
      (u ''lbs_off'', boolx, VBool False),
      (u ''boot_time_set'', boolx, VBool False),
      (u ''boot_time'', hhmm, VStr (u ''0000'')),
      (u ''shut_time_set'', boolx, VBool False),
      (u ''shut_time'', hhmm, VStr (u ''0000''))]"
| "zx_OUT_KWARGS rep REMOTE_MONITOR_PHONE = [(u ''phone'', conv_str rep, VStr [])]"
| "zx_OUT_KWARGS rep SOS_PHONE = [(u ''phone'', conv_str rep, VStr [])]"
| "zx_OUT_KWARGS rep DAD_PHONE = [(u ''phone'', conv_str rep, VStr [])]"
| "zx_OUT_KWARGS rep MOM_PHONE = [(u ''phone'', conv_str rep, VStr [])]"
| "zx_OUT_KWARGS rep GPS_OFF_PERIOD =
     [(u ''onoff'', conv_int, VInt 0),
      (u ''fm'', hhmm, VStr (u ''0000'')),
      (u ''to'', hhmm, VStr (u ''2359''))]"
| "zx_OUT_KWARGS rep DND_PERIOD =
     [(u ''onoff'', conv_int, VInt 0),
      (u ''week'', conv_int, VInt 3),
      (u ''fm1'', hhmm, VStr (u ''0000'')),
      (u ''to1'', hhmm, VStr (u ''2359'')),
      (u ''fm2'', hhmm, VStr (u ''0000'')),
      (u ''to2'', hhmm, VStr (u ''2359''))]"
| "zx_OUT_KWARGS rep RESTART_SHUTDOWN = [(u ''flag'', conv_int, VInt 0)]"
| "zx_OUT_KWARGS rep DEVICE = [(u ''flag'', conv_int, VInt 0)]"
| "zx_OUT_KWARGS rep ALARM_CLOCK = [(u ''alarms'', l3alarms, VList [])]"
| "zx_OUT_KWARGS rep SETUP =
     [(u ''uploadintervalseconds'', intx, VInt 0x0300),
      (u ''binaryswitch'', intx, VInt 0b00110001),
      (u ''alarms'', l3int, VList [VInt 0, VInt 0, VInt 0]),
      (u ''dndtimeswitch'', conv_int, VInt 0),
      (u ''dndtimes'', l3int, VList [VInt 0, VInt 0, VInt 0]),
      (u ''gpstimeswitch'', conv_int, VInt 0),
      (u ''gpstimestart'', conv_int, VInt 0),
      (u ''gpstimestop'', conv_int, VInt 0),
      (u ''phonenumbers'', l3str, VList [VStr [], VStr [], VStr []])]"
| "zx_OUT_KWARGS rep WIFI_POSITIONING =
     [(u ''latitude'', conv_float, VNone), (u ''longitude'', conv_float, VNone)]"
| "zx_OUT_KWARGS rep POSITION_UPLOAD_INTERVAL = [(u ''interval'', conv_int, VInt 10)]"
| "zx_OUT_KWARGS rep _ = []"

text \<open>\<open>str.encode\<close> of an attribute\<close>

fun encode_val :: "pyval \<Rightarrow> bytes res" where
  "encode_val (VStr s) = utf8_encode s"
| "encode_val v = Inl AttributeError"

definition fromhex_attr :: "attrs \<Rightarrow> pystr \<Rightarrow> bytes res" where
  "fromhex_attr a k = and_then (attr a k) fromhex_val"

text \<open>Iterating over an attribute that holds a list\<close>

definition seq_attr :: "attrs \<Rightarrow> pystr \<Rightarrow> pyval list res" where
  "seq_attr a k = and_then (attr a k) py_seq"

definition pack3b :: "pyval \<Rightarrow> bytes res" where
  "pack3b x = and_then (pack_val 4 x) (\<lambda>b. Inr (drop 1 b))"

definition setup_out_encode :: "attrs \<Rightarrow> bytes res" where
  "setup_out_encode a =
     and_then (concat_res [pack_attr 2 a (u ''uploadintervalseconds''),
       pack_attr 1 a (u ''binaryswitch'')]) (\<lambda>b1.
     and_then (and_then (seq_attr a (u ''alarms'')) (\<lambda>xs. concat_res (map pack3b xs))) (\<lambda>b2.
     and_then (pack_attr 1 a (u ''dndtimeswitch'')) (\<lambda>b3.
     and_then (and_then (seq_attr a (u ''dndtimes'')) (\<lambda>xs. concat_res (map pack3b xs))) (\<lambda>b4.
     and_then (concat_res [pack_attr 1 a (u ''gpstimeswitch''),
       pack_attr 2 a (u ''gpstimestart''), pack_attr 2 a (u ''gpstimestop'')]) (\<lambda>b5.
     and_then (and_then (seq_attr a (u ''phonenumbers'')) (\<lambda>xs. map_res encode_val xs)) (\<lambda>ps.
       Inr (b1 @ b2 @ b3 @ b4 @ b5 @ join_with [59] ps)))))))"

definition alarm_out_encode :: "attrs \<Rightarrow> bytes res" where
  "alarm_out_encode a =
     and_then (seq_attr a (u ''alarms'')) (\<lambda>xs.
       concat_res (map (\<lambda>v. and_then (unpack_pair v) (\<lambda>(day, tm).
         concat_res [pack_val 1 day, fromhex_val tm])) xs))"

definition gps_out_encode :: "datetime \<Rightarrow> bytes res" where
  "gps_out_encode now = concat_res (map (pack_uint 1)
     [dt_year now mod 100, dt_month now, dt_day now, dt_hour now, dt_minute now, dt_second now])"

definition wifi_offline_out_encode :: "datetime \<Rightarrow> bytes res" where
  "wifi_offline_out_encode now =
     fromhex (concat (map (pad_dec 2)
       [dt_year now mod 100, dt_month now, dt_day now, dt_hour now, dt_minute now, dt_second now]))"

definition time_out_encode :: "datetime \<Rightarrow> bytes res" where
  "time_out_encode now = concat_res (pack_uint 2 (dt_year now) # map (pack_uint 1)
     [dt_month now, dt_day now, dt_hour now, dt_minute now, dt_second now])"

definition wifi_out_encode :: "attrs \<Rightarrow> bytes res" where
  "wifi_out_encode a =
     and_then (attr a (u ''latitude'')) (\<lambda>la. and_then (attr a (u ''longitude'')) (\<lambda>lo.
       case (la, lo) of
         (VNone, _) \<Rightarrow> Inr []
       | (_, VNone) \<Rightarrow> Inr []
       | (VFloat x, VFloat y) \<Rightarrow> utf8_encode (format_g8 x @ [44] @ format_g8 y)
       | _ \<Rightarrow> Inl ValueError))"

fun zx_out_encode :: "datetime \<Rightarrow> zx_class \<Rightarrow> attrs \<Rightarrow> bytes res" where
  "zx_out_encode now SUPERVISION a = pack_attr 1 a (u ''status'')"
| "zx_out_encode now GPS_POSITIONING a = gps_out_encode now"
| "zx_out_encode now GPS_OFFLINE_POSITIONING a = gps_out_encode now"
| "zx_out_encode now STATUS a = pack_attr 1 a (u ''upload_interval'')"
| "zx_out_encode now WHITELIST_TOTAL a = pack_attr 1 a (u ''number'')"
| "zx_out_encode now WIFI_OFFLINE_POSITIONING a = wifi_offline_out_encode now"
| "zx_out_encode now TIME a = time_out_encode now"
| "zx_out_encode now PROHIBIT_LBS a = pack_attr 1 a (u ''status'')"
| "zx_out_encode now GPS_LBS_SWITCH_TIMES a = concat_res
     [pack_attr 1 a (u ''gps_off''), pack_attr 1 a (u ''gps_interval_set''),
      fromhex_attr a (u ''gps_interval''), pack_attr 1 a (u ''lbs_off''),
      pack_attr 1 a (u ''boot_time_set''), fromhex_attr a (u ''boot_time''),
      pack_attr 1 a (u ''shut_time_set''), fromhex_attr a (u ''shut_time'')]"
| "zx_out_encode now REMOTE_MONITOR_PHONE a = and_then (attr a (u ''phone'')) (\<lambda>_. Inl LookupError)"
| "zx_out_encode now SOS_PHONE a = and_then (attr a (u ''phone'')) (\<lambda>_. Inl LookupError)"
| "zx_out_encode now DAD_PHONE a = and_then (attr a (u ''phone'')) (\<lambda>_. Inl LookupError)"
| "zx_out_encode now MOM_PHONE a = and_then (attr a (u ''phone'')) (\<lambda>_. Inl LookupError)"
| "zx_out_encode now GPS_OFF_PERIOD a = concat_res
     [pack_attr 1 a (u ''onoff''), fromhex_attr a (u ''fm''), fromhex_attr a (u ''to'')]"
| "zx_out_encode now DND_PERIOD a = concat_res
     [pack_attr 1 a (u ''onoff''), pack_attr 1 a (u ''week''),
      fromhex_attr a (u ''fm1''), fromhex_attr a (u ''to1''),
      fromhex_attr a (u ''fm2''), fromhex_attr a (u ''to2'')]"
| "zx_out_encode now RESTART_SHUTDOWN a = pack_attr 1 a (u ''flag'')"
| "zx_out_encode now DEVICE a = pack_attr 1 a (u ''flag'')"
| "zx_out_encode now ALARM_CLOCK a = alarm_out_encode a"
| "zx_out_encode now SETUP a = setup_out_encode a"
| "zx_out_encode now WIFI_POSITIONING a = wifi_out_encode a"
| "zx_out_encode now POSITION_UPLOAD_INTERVAL a = pack_attr 2 a (u ''interval'')"
| "zx_out_encode now _ a = Inr []"

text \<open>
  The property \<open>packed\<close>: the length byte is the attribute \<open>length\<close> where the object has
  one and otherwise one more than the length of the payload.
\<close>

definition zx_packed :: "int option \<Rightarrow> zx_class \<Rightarrow> bytes \<Rightarrow> bytes res" where
  "zx_packed len c payload =
     and_then (pack_uint 1 (case len of Some n \<Rightarrow> n | None \<Rightarrow> int (length payload) + 1)) (\<lambda>l.
     and_then (pack_uint 1 (zx_PROTO c)) (\<lambda>p. Inr (l @ p @ payload)))"

text \<open>\<open>cls.Out(**kwargs).packed\<close>\<close>

definition zx_Out_packed :: "(pyval \<Rightarrow> pystr) \<Rightarrow> datetime \<Rightarrow> zx_class \<Rightarrow> attrs \<Rightarrow> bytes res" where
  "zx_Out_packed rep now c kwargs =
     and_then (init_kwargs (zx_OUT_KWARGS rep c) kwargs) (\<lambda>a.
     and_then (zx_out_encode now c a) (zx_packed None c))"

section \<open>Messages of a terminal\<close>

definition login_in_encode :: "pystr \<Rightarrow> int \<Rightarrow> bytes res" where
  "login_in_encode imei ver =
     and_then (fromhex imei) (\<lambda>b. and_then (pack_uint 1 ver) (\<lambda>v.
       Inr (take 8 (ljust 8 0 b) @ v)))"

definition status_in_encode :: "zx_status \<Rightarrow> bytes res" where
  "status_in_encode s =
     and_then (concat_res (map (pack_uint 1) [s_batt s, s_ver s, s_timezone s, s_intvl s])) (\<lambda>b.
     and_then (case s_signal s of None \<Rightarrow> Inr [] | Some sig \<Rightarrow> pack_uint 1 sig) (\<lambda>sig.
       Inr (b @ sig)))"

definition wifi_ap_encode :: "pystr \<times> int \<Rightarrow> bytes res" where
  "wifi_ap_encode ap = (case ap of (mac, sigstr) \<Rightarrow>
     and_then (fromhex (filter (\<lambda>c. c \<noteq> 58) mac)) (\<lambda>m. and_then (pack_uint 1 (- sigstr)) (\<lambda>s.
       Inr (take 6 (ljust 6 0 m) @ s))))"

definition gsm_cell_encode :: "int \<times> int \<times> int \<Rightarrow> bytes res" where
  "gsm_cell_encode cell = (case cell of (locac, cellid, sigstr) \<Rightarrow>
     concat_res [pack_uint 2 locac, pack_uint 2 cellid, pack_uint 1 (- sigstr)])"

definition wifi_in_encode :: "wifi_fix \<Rightarrow> bytes res" where
  "wifi_in_encode w =
     and_then (concat_res (map wifi_ap_encode (w_wifi_aps w))) (\<lambda>aps.
     and_then (concat_res [pack_uint 1 (int (length (w_gsm_cells w))), pack_uint 2 (w_mcc w),
       pack_uint 1 (w_mnc w)]) (\<lambda>hdr.
     and_then (concat_res (map gsm_cell_encode (w_gsm_cells w))) (\<lambda>cells.
       Inr (w_dtime w @ aps @ hdr @ cells))))"

text \<open>
  \<open>cls.In(**attributes).packed\<close>. A WiFi message's length byte is the number of its
  access points. Classes that inherit \<open>in_encode\<close> cannot be encoded.
\<close>

definition zx_In_packed :: "zx_class \<Rightarrow> zx_body \<Rightarrow> bytes res" where
  "zx_In_packed c body =
     (case body of
        Login_Body imei ver \<Rightarrow>
          if c = LOGIN then and_then (login_in_encode imei ver) (zx_packed None LOGIN)
          else Inl NotImplementedError
      | Status_Body s \<Rightarrow>
          if c = STATUS then and_then (status_in_encode s) (zx_packed None STATUS)
          else Inl NotImplementedError
      | Wifi_Body w \<Rightarrow>
          if c = WIFI_POSITIONING \<or> c = WIFI_OFFLINE_POSITIONING then
            and_then (wifi_in_encode w) (zx_packed (Some (int (length (w_wifi_aps w)))) c)
          else Inl NotImplementedError
      | No_Body \<Rightarrow>
          if c = HIBERNATION \<or> c = SETUP then zx_packed None c [] else Inl NotImplementedError
      | _ \<Rightarrow> Inl NotImplementedError)"

section \<open>Round trips of payloads\<close>

lemma zx_packed_Inr:
  "zx_packed len c pl = Inr p \<longleftrightarrow>
     (let n = (case len of Some n \<Rightarrow> n | None \<Rightarrow> int (length pl) + 1) in
      0 \<le> n \<and> n < 256 \<and> c \<noteq> UNKNOWN \<and> p = word_of_int n # word_of_int (zx_PROTO c) # pl)"
proof -
  have "0 \<le> zx_PROTO c" by (cases c) simp_all
  then show ?thesis
    using zx_PROTO_byte [of c] by (auto simp: zx_packed_def res_simps Let_def)
qed

lemma uint_word_of_int_byte [simp]: "0 \<le> x \<Longrightarrow> x < 256 \<Longrightarrow> uint (word_of_int x :: byte) = x"
  by (simp add: uint_word_of_int)

lemma uint_minus_word_of_int_byte [simp]:
  "x \<le> 0 \<Longrightarrow> - x < 256 \<Longrightarrow> uint (- word_of_int x :: byte) = - x"
  using uint_word_of_int_byte [of "- x"] by simp

lemma login_roundtrip:
  assumes "length b = 8" and "login_in_encode (hex_bytes b) ver = Inr pl"
  shows "login_in_decode pl = Inr (Login_Body (hex_bytes b) ver)"
  using assms
  by (auto simp: login_in_encode_def login_in_decode_def res_simps ljust_def nth_append pyget_def)

lemma status_roundtrip:
  assumes "status_in_encode s = Inr pl"
  shows "status_in_decode pl = Inr (Status_Body s)"
  using assms
  by (cases s) (auto simp: status_in_encode_def status_in_decode_def res_simps split: option.splits)

definition mac_of :: "bytes \<Rightarrow> pystr" where
  "mac_of b = join_with [58] (map format_02X b)"

lemma filter_colon_mac: "filter (\<lambda>c. c \<noteq> 58) (mac_of b) = concat (map format_02X b)"
proof -
  have dig: "hexdigit_upper n \<noteq> 58" if "n < 16" for n
    using that by (auto simp: hexdigit_upper_def)
  have one: "filter (\<lambda>c. c \<noteq> 58) (format_02X w) = format_02X w" for w
    by (simp add: format_02X_def dig)
  show ?thesis unfolding mac_of_def
  proof (induction b)
    case (Cons w b)
    then show ?case by (cases b) (auto simp: one)
  qed simp
qed

lemma fromhex_mac: "fromhex (filter (\<lambda>c. c \<noteq> 58) (mac_of b)) = Inr b"
  using fromhex_format_02X [of b "[]"] by (simp add: filter_colon_mac)

lemma wifi_ap_encode_length: "wifi_ap_encode ap = Inr bs \<Longrightarrow> length bs = 7"
  by (cases ap) (auto simp: wifi_ap_encode_def res_simps ljust_def)

lemma gsm_cell_encode_length: "gsm_cell_encode c = Inr bs \<Longrightarrow> length bs = 5"
  by (cases c) (auto simp: gsm_cell_encode_def res_simps)

text \<open>Element \<open>i\<close> of a concatenation of encodings of equal length.\<close>

lemma concat_res_Inr: "concat_res rs = Inr bs \<longleftrightarrow> (\<exists>bss. map_res id rs = Inr bss \<and> bs = concat bss)"
  by (auto simp: concat_res_def res_simps)

lemma slice_concat:
  assumes "\<forall>b \<in> set bss. length b = k" and "i < length bss"
  shows "pyslice (i * k) (i * k + k) (concat bss @ rest) = bss ! i"
  using assms
proof (induction bss arbitrary: i)
  case (Cons b bss)
  then show ?case by (cases i) (auto simp: pyslice_def add.assoc)
qed simp

lemma pyslice_shift: "pyslice (k + a) (k + b) xs = pyslice a b (drop k xs)"
  by (simp add: pyslice_def take_drop drop_drop add.commute)

lemma wifi_ap_roundtrip:
  assumes "wifi_ap_encode (mac_of b, sg) = Inr ap" and "length b = 6"
    and "pyslice (6 + i * 7) (13 + i * 7) payload = ap"
  shows "wifi_ap payload i = Inr (mac_of b, sg)"
proof -
  from assms(1,2) have "ap = b @ [word_of_int (- sg)]" "0 \<le> - sg" "- sg < 256"
    by (auto simp: wifi_ap_encode_def fromhex_mac res_simps ljust_def)
  with assms(2,3) show ?thesis
    by (simp add: wifi_ap_def mac_of_def pyget_def nth_append)
qed

lemma gsm_cell_roundtrip:
  assumes "gsm_cell_encode c = Inr bs" and "pyslice (4 + i * 5) (9 + i * 5) payload = bs"
  shows "gsm_cell payload i = Inr c"
proof -
  obtain l ci sg where c: "c = (l, ci, sg)" by (cases c)
  from assms(1) have b: "bs = to_be 2 l @ to_be 2 ci @ [word_of_int (- sg)]"
    and r: "0 \<le> l" "l < 65536" "0 \<le> ci" "ci < 65536" "0 \<le> - sg" "- sg < 256"
    by (auto simp: c gsm_cell_encode_def res_simps)
  have "be (to_be 2 l) = l" "be (to_be 2 ci) = ci" using r by (simp_all add: be_to_be)
  moreover have "pyslice 2 4 bs = to_be 2 ci" "take 2 bs = to_be 2 l" "bs ! 4 = word_of_int (- sg)"
    by (simp_all add: b pyslice_def nth_append)
  moreover have "length bs = 5" by (simp add: b)
  ultimately show ?thesis using r assms(2) by (simp add: gsm_cell_def c)
qed

lemma map_res_upt:
  assumes "length ys = n" and "\<And>i. i < n \<Longrightarrow> f i = Inr (ys ! i)"
  shows "map_res f [0..<n] = Inr ys"
proof -
  have "map_res f [0..<n] = Inr (map (\<lambda>i. ys ! i) [0..<n])"
    by (rule map_res_total) (simp add: assms(2))
  then show ?thesis using assms(1) map_nth [of ys] by simp
qed

text \<open>
  What a terminal's WiFi message must satisfy to be encodable without loss: a date field of
  six bytes that is zero or a date in binary-coded decimal, and well-formed MAC addresses.
\<close>

definition mac_wf :: "pystr \<Rightarrow> bool" where
  "mac_wf mac = (case fromhex (filter (\<lambda>c. c \<noteq> 58) mac) of
     Inr b \<Rightarrow> length b = 6 \<and> mac = mac_of b | Inl e \<Rightarrow> False)"

definition wifi_wf :: "(datetime \<Rightarrow> datetime) \<Rightarrow> wifi_fix \<Rightarrow> bool" where
  "wifi_wf tz w \<longleftrightarrow> length (w_dtime w) = 6 \<and> wifi_devtime tz (w_dtime w) = Inr (w_devtime w) \<and>
     (\<forall>ap \<in> set (w_wifi_aps w). mac_wf (fst ap))"

lemma wifi_roundtrip:
  assumes wf: "wifi_wf tz w" and enc: "wifi_in_encode w = Inr pl"
  shows "wifi_in_decode tz (length (w_wifi_aps w)) pl = Inr (Wifi_Body w)"
proof -
  let ?aps = "w_wifi_aps w" and ?cells = "w_gsm_cells w"
  from enc obtain abs hdr cbs where
    abs: "map_res id (map wifi_ap_encode ?aps) = Inr abs" and
    hdr: "hdr = word_of_int (int (length ?cells)) # to_be 2 (w_mcc w) @ [word_of_int (w_mnc w)]" and
    ranges: "length ?cells < 256" "0 \<le> w_mcc w" "w_mcc w < 65536" "0 \<le> w_mnc w" "w_mnc w < 256" and
    cbs: "map_res id (map gsm_cell_encode ?cells) = Inr cbs" and
    pl: "pl = w_dtime w @ concat abs @ hdr @ concat cbs"
    by (auto simp: wifi_in_encode_def concat_res_Inr res_simps)
  have la: "length abs = length ?aps" and lc: "length cbs = length ?cells"
    using map_res_Inr_length [OF abs] map_res_Inr_length [OF cbs] by simp_all
  have ea: "wifi_ap_encode (?aps ! i) = Inr (abs ! i)" if "i < length ?aps" for i
    using map_res_Inr_nth [OF abs, of i] that by simp
  have ec: "gsm_cell_encode (?cells ! i) = Inr (cbs ! i)" if "i < length ?cells" for i
    using map_res_Inr_nth [OF cbs, of i] that by simp
  have l7: "\<forall>b \<in> set abs. length b = 7"
    using wifi_ap_encode_length [OF ea] la by (auto simp: in_set_conv_nth)
  have l5: "\<forall>b \<in> set cbs. length b = 5"
    using gsm_cell_encode_length [OF ec] lc by (auto simp: in_set_conv_nth)
  have ld: "length (w_dtime w) = 6" using wf by (simp add: wifi_wf_def)
  have aps: "map_res (wifi_ap pl) [0..<length ?aps] = Inr ?aps"
  proof (rule map_res_upt)
    fix i assume i: "i < length ?aps"
    from wf nth_mem [OF i] have "mac_wf (fst (?aps ! i))" by (auto simp: wifi_wf_def)
    then obtain b where b: "length b = 6" "fst (?aps ! i) = mac_of b"
      by (auto simp: mac_wf_def split: sum.splits)
    have "pyslice (6 + i * 7) (13 + i * 7) pl = abs ! i"
      using slice_concat [OF l7, of i "hdr @ concat cbs"] pyslice_shift [of 6 "i * 7" "i * 7 + 7" pl]
        i la ld by (simp add: pl add.commute)
    then have "wifi_ap pl i = Inr (mac_of b, snd (?aps ! i))"
      using wifi_ap_roundtrip [of b "snd (?aps ! i)" "abs ! i"] ea [OF i] b
      by (metis prod.collapse)
    with b show "wifi_ap pl i = Inr (?aps ! i)" by (metis prod.collapse)
  qed simp
  have lab: "length (concat abs) = length ?aps * 7"
    using l7 la by (simp add: length_concat sum_list_triv map_eq_conv [THEN iffD2, of abs length "\<lambda>_. 7"])
  then have gsm: "drop (6 + length ?aps * 7) pl = hdr @ concat cbs"
    using ld by (simp add: pl)
  have lh: "length hdr = 4" by (simp add: hdr)
  have cells: "map_res (gsm_cell (hdr @ concat cbs)) [0..<length ?cells] = Inr ?cells"
  proof (rule map_res_upt)
    fix i assume i: "i < length ?cells"
    have "pyslice (4 + i * 5) (9 + i * 5) (hdr @ concat cbs) = cbs ! i"
      using slice_concat [OF l5, of i "[]"] pyslice_shift [of 4 "i * 5" "i * 5 + 5" "hdr @ concat cbs"]
        i lc lh by (simp add: add.commute)
    with ec [OF i] show "gsm_cell (hdr @ concat cbs) i = Inr (?cells ! i)"
      by (rule gsm_cell_roundtrip)
  qed simp
  have h: "unat (hdr ! 0) = length ?cells" "be (pyslice 1 3 hdr) = w_mcc w" "uint (hdr ! 3) = w_mnc w"
    using ranges by (simp_all add: hdr pyslice_def be_to_be nth_append unat_of_nat)
  show ?thesis
    using wf ld lh aps gsm cells h
    by (simp add: wifi_in_decode_def wifi_wf_def Let_def) (simp add: pl)
qed

end
