(* ===== verification/Proto_Module.thy ===== *)
theory Proto_Module
  imports Pystd
begin

text \<open>
  The interface of a protocol module (\<open>loctrkd/protomodule.py\<close>) as far as its stream is
  concerned: \<open>Stream.recv\<close> turns segments of a TCP stream into packets and
  diagnostics. The loop of both deframers has the same shape: every round either stops or
  goes on with a shorter buffer. The locale \<open>deframer\<close> states the laws of such a loop and
  proves, once for both protocols, that the packets do not depend on how the stream was cut
  into segments.
\<close>

section \<open>What a stream returns\<close>

text \<open>
  \<open>Stream.recv\<close> returns a list of \<open>bytes\<close> (packets) and \<open>str\<close> (diagnostics, which
  the collector only logs). A diagnostic is modelled by its message's kind and the values
  formatted into it.
\<close>

datatype stream_msg =
    Packet bytes
  | Too_Much_Junk nat
  | Undecodable nat bytes
  | Too_Short bytes
  | Imei_Mismatch pystr pystr
  | Bad_End nat bytes

fun packets :: "stream_msg list \<Rightarrow> bytes list" where
  "packets [] = []"
| "packets (Packet p # ms) = p # packets ms"
| "packets (_ # ms) = packets ms"

lemma packets_append [simp]: "packets (xs @ ys) = packets xs @ packets ys"
  by (induction xs rule: packets.induct) auto

lemma in_packets_iff: "p \<in> set (packets ms) \<longleftrightarrow> Packet p \<in> set ms"
  by (induction ms rule: packets.induct) auto

section \<open>One round of a deframer\<close>

text \<open>
  A round of the \<open>while True\<close> loop of \<open>Stream.recv\<close> appends some messages and then
  either breaks out of the loop or starts over, in both cases with a new stream state.
\<close>

datatype 's round = Break "stream_msg list" 's | Again "stream_msg list" 's

text \<open>The same round with more messages before those of its own\<close>

fun prepend :: "stream_msg list \<Rightarrow> 's round \<Rightarrow> 's round" where
  "prepend ms (Break ms' s) = Break (ms @ ms') s"
| "prepend ms (Again ms' s) = Again (ms @ ms') s"

text \<open>States whose rounds differ only in leading messages end in the same state.\<close>

lemma loop_prepend:
  assumes unfold: "\<And>s. loop s = (case round_of s of
        Break ms s' \<Rightarrow> (ms, s')
      | Again ms s' \<Rightarrow> (ms @ fst (loop s'), snd (loop s')))"
    and "round_of s = prepend ms r" and "round_of t = prepend ms' r"
  shows "\<exists>rest. fst (loop s) = ms @ rest \<and> fst (loop t) = ms' @ rest \<and> snd (loop s) = snd (loop t)"
proof (cases r)
  case (Break m u)
  with assms(2,3) have "loop s = (ms @ m, u)" "loop t = (ms' @ m, u)"
    by (subst unfold, simp)+
  then show ?thesis by simp
next
  case (Again m u)
  with assms(2,3) have "loop s = (ms @ m @ fst (loop u), snd (loop u))"
    "loop t = (ms' @ m @ fst (loop u), snd (loop u))"
    by (subst unfold, simp)+
  then show ?thesis by simp
qed

locale deframer =
  fixes round_of :: "'s \<Rightarrow> 's round"
    and loop :: "'s \<Rightarrow> stream_msg list \<times> 's"
    and extend :: "'s \<Rightarrow> bytes \<Rightarrow> 's"
    and size_of :: "'s \<Rightarrow> nat"
  assumes loop_unfold: "loop s = (case round_of s of
        Break ms s' \<Rightarrow> (ms, s')
      | Again ms s' \<Rightarrow> (ms @ fst (loop s'), snd (loop s')))"
    and shrinks: "round_of s = Again ms s' \<Longrightarrow> size_of s' < size_of s"
    and break_size: "round_of s = Break ms s' \<Longrightarrow> size_of s' \<le> size_of s"
    and extend_size: "size_of (extend s b) = size_of s + length b"
    and extend_append: "extend s (a @ b) = extend (extend s a) b"
    and extend_Nil: "extend s [] = s"
    and again_extend: "round_of s = Again ms s' \<Longrightarrow>
        \<exists>ms'. round_of (extend s b) = Again ms' (extend s' b) \<and> packets ms' = packets ms"
    and break_extend: "round_of s = Break ms s' \<Longrightarrow>
        packets (fst (loop (extend s b))) = packets ms @ packets (fst (loop (extend s' b))) \<and>
        snd (loop (extend s b)) = snd (loop (extend s' b))"
begin

lemma loop_Break: "round_of s = Break ms s' \<Longrightarrow> loop s = (ms, s')"
  by (subst loop_unfold) simp

lemma loop_Again: "round_of s = Again ms s' \<Longrightarrow> loop s = (ms @ fst (loop s'), snd (loop s'))"
  by (subst loop_unfold) simp

lemma loop_induct:
  assumes "\<And>s. (\<And>ms s'. round_of s = Again ms s' \<Longrightarrow> P s') \<Longrightarrow> P s"
  shows "P s"
  by (rule measure_induct_rule [of size_of P s]) (blast intro: assms shrinks)

lemma loop_size: "size_of (snd (loop s)) \<le> size_of s"
proof (induction s rule: loop_induct)
  case (1 s)
  show ?case
  proof (cases "round_of s")
    case (Break ms s')
    then show ?thesis by (simp add: loop_Break break_size)
  next
    case (Again ms s')
    with 1 have "size_of (snd (loop s')) \<le> size_of s'" by blast
    with shrinks [OF Again] show ?thesis by (simp add: loop_Again [OF Again])
  qed
qed

lemma loop_extend:
  "packets (fst (loop (extend s b))) =
     packets (fst (loop s)) @ packets (fst (loop (extend (snd (loop s)) b))) \<and>
   snd (loop (extend s b)) = snd (loop (extend (snd (loop s)) b))"
proof (induction s rule: loop_induct)
  case (1 s)
  show ?case
  proof (cases "round_of s")
    case (Break ms s')
    from break_extend [OF Break] show ?thesis by (simp add: loop_Break [OF Break])
  next
    case (Again ms s')
    from again_extend [OF Again, of b] obtain ms' where
      ms': "round_of (extend s b) = Again ms' (extend s' b)" "packets ms' = packets ms" by blast
    from 1 [OF Again] show ?thesis
      by (simp add: loop_Again [OF Again] loop_Again [OF ms'(1)] ms'(2))
  qed
qed

text \<open>The loop stops only when nothing is left to find in the buffer.\<close>

lemma loop_settled:
  "packets (fst (loop (snd (loop s)))) = [] \<and> snd (loop (snd (loop s))) = snd (loop s)"
  using loop_extend [of s "[]"] by (simp add: extend_Nil)

end

text \<open>
  \<open>Stream.recv\<close> guards the loop by a bound on the buffer. A deframer with that guard
  is a \<open>bounded_deframer\<close>: below the bound, receiving is the loop on the extended buffer.
\<close>

locale bounded_deframer = deframer round_of loop extend size_of
  for round_of :: "'s \<Rightarrow> 's round"
    and loop :: "'s \<Rightarrow> stream_msg list \<times> 's"
    and extend :: "'s \<Rightarrow> bytes \<Rightarrow> 's"
    and size_of :: "'s \<Rightarrow> nat" +
  fixes recv :: "'s \<Rightarrow> bytes \<Rightarrow> stream_msg list \<times> 's"
    and bound :: nat
  assumes recv_loop: "size_of s + length b \<le> bound \<Longrightarrow> recv s b = loop (extend s b)"
    and recv_overflow: "size_of s + length b > bound \<Longrightarrow>
        fst (recv s b) = [Too_Much_Junk bound] \<and> size_of (snd (recv s b)) = 0"
begin

lemma recv_bounded: "size_of (snd (recv s b)) \<le> bound"
proof (cases "size_of s + length b \<le> bound")
  case True
  have "size_of (snd (loop (extend s b))) \<le> size_of (extend s b)" by (rule loop_size)
  with True show ?thesis by (simp add: recv_loop extend_size)
next
  case False
  then show ?thesis using recv_overflow [of s b] by simp
qed

lemma recv_settled:
  assumes "size_of s + length b \<le> bound"
  shows "packets (fst (recv (snd (recv s b)) [])) = []"
    and "snd (recv (snd (recv s b)) []) = snd (recv s b)"
proof -
  from recv_bounded [of s b]
  have "recv (snd (recv s b)) [] = loop (snd (recv s b))" by (simp add: recv_loop extend_Nil)
  then show "packets (fst (recv (snd (recv s b)) [])) = []"
    and "snd (recv (snd (recv s b)) []) = snd (recv s b)"
    using assms loop_settled [of "extend s b"] by (simp_all add: recv_loop)
qed

text \<open>Receiving two segments in turn is receiving them glued together.\<close>

lemma recv_append:
  assumes "size_of s + length a + length b \<le> bound"
  shows "packets (fst (recv s (a @ b))) =
      packets (fst (recv s a)) @ packets (fst (recv (snd (recv s a)) b))"
    and "snd (recv s (a @ b)) = snd (recv (snd (recv s a)) b)"
proof -
  let ?s' = "snd (recv s a)"
  have ra: "recv s a = loop (extend s a)" using assms by (simp add: recv_loop)
  have "size_of ?s' \<le> size_of s + length a"
    using loop_size [of "extend s a"] by (simp add: ra extend_size)
  with assms have rb: "recv ?s' b = loop (extend ?s' b)" by (simp add: recv_loop)
  have rab: "recv s (a @ b) = loop (extend (extend s a) b)"
    using assms by (simp add: recv_loop extend_append add.assoc)
  from loop_extend [of "extend s a" b]
  show "packets (fst (recv s (a @ b))) = packets (fst (recv s a)) @ packets (fst (recv ?s' b))"
    and "snd (recv s (a @ b)) = snd (recv ?s' b)"
    by (simp_all only: rab rb) (simp_all add: ra)
qed

end

text \<open>A whole conversation: the segments are received one by one.\<close>

fun recv_all :: "('s \<Rightarrow> bytes \<Rightarrow> stream_msg list \<times> 's) \<Rightarrow> 's \<Rightarrow> bytes list \<Rightarrow>
    stream_msg list \<times> 's" where
  "recv_all recv s [] = ([], s)"
| "recv_all recv s (seg # segs) =
     (let (ms, s') = recv s seg; (ms', s'') = recv_all recv s' segs in (ms @ ms', s''))"

text \<open>
  No call in the conversation overflows: what is left in the buffer and the next segment stay within
  the bound. The conversation as a whole may be of any length.
\<close>

fun in_bounds :: "('s \<Rightarrow> bytes \<Rightarrow> stream_msg list \<times> 's) \<Rightarrow> ('s \<Rightarrow> nat) \<Rightarrow> nat \<Rightarrow> 's \<Rightarrow> bytes list \<Rightarrow> bool" where
  "in_bounds recv size_of bound s [] = True"
| "in_bounds recv size_of bound s (seg # segs) =
     (size_of s + length seg \<le> bound \<and> in_bounds recv size_of bound (snd (recv s seg)) segs)"

context bounded_deframer
begin

lemma recv_size: "size_of s + length a \<le> bound \<Longrightarrow>
    size_of (snd (recv s a)) \<le> size_of s + length a"
  using loop_size [of "extend s a"] by (simp add: recv_loop extend_size)

lemma recv_all_concat:
  assumes "segs \<noteq> []" and "size_of s + length (concat segs) \<le> bound"
  shows "packets (fst (recv_all recv s segs)) = packets (fst (recv s (concat segs)))"
    and "snd (recv_all recv s segs) = snd (recv s (concat segs))"
proof -
  have "packets (fst (recv_all recv s segs)) = packets (fst (recv s (concat segs))) \<and>
      snd (recv_all recv s segs) = snd (recv s (concat segs))"
    using assms
  proof (induction segs arbitrary: s)
    case (Cons a segs)
    show ?case
    proof (cases "segs = []")
      case False
      let ?s' = "snd (recv s a)"
      have "size_of ?s' \<le> size_of s + length a" using Cons.prems by (intro recv_size) simp
      with Cons.prems(2) have "size_of ?s' + length (concat segs) \<le> bound" by simp
      from Cons.IH [OF False this] recv_append [of s a "concat segs"] Cons.prems(2)
      show ?thesis by (simp add: Let_def split_beta add.assoc)
    qed (simp add: Let_def split_beta)
  qed simp
  then show "packets (fst (recv_all recv s segs)) = packets (fst (recv s (concat segs)))"
    and "snd (recv_all recv s segs) = snd (recv s (concat segs))" by auto
qed

lemma in_bounds_total: "size_of s + length (concat segs) \<le> bound \<Longrightarrow> in_bounds recv size_of bound s segs"
proof (induction segs arbitrary: s)
  case (Cons a segs)
  from Cons.prems have "size_of (snd (recv s a)) \<le> size_of s + length a" by (intro recv_size) simp
  with Cons show ?case by simp
qed simp

text \<open>Without an overflow, the conversation is the loop on all of its bytes.\<close>

lemma recv_all_loop:
  assumes "segs \<noteq> []" and "in_bounds recv size_of bound s segs"
  shows "packets (fst (recv_all recv s segs)) = packets (fst (loop (extend s (concat segs)))) \<and>
    snd (recv_all recv s segs) = snd (loop (extend s (concat segs)))"
  using assms
proof (induction segs arbitrary: s)
  case (Cons a segs)
  have a: "recv s a = loop (extend s a)" using Cons.prems(2) by (simp add: recv_loop)
  show ?case
  proof (cases "segs = []")
    case False
    with Cons.prems(2) have "packets (fst (recv_all recv (snd (recv s a)) segs)) =
        packets (fst (loop (extend (snd (recv s a)) (concat segs)))) \<and>
        snd (recv_all recv (snd (recv s a)) segs) = snd (loop (extend (snd (recv s a)) (concat segs)))"
      by (intro Cons.IH) simp_all
    with loop_extend [of "extend s a" "concat segs"] show ?thesis
      by (simp add: split_beta a extend_append)
  qed (simp add: split_beta a)
qed simp

lemma recv_all_any_segmentation:
  assumes "segs \<noteq> []" and "segs' \<noteq> []" and "concat segs' = concat segs"
    and "in_bounds recv size_of bound s segs" and "in_bounds recv size_of bound s segs'"
  shows "packets (fst (recv_all recv s segs')) = packets (fst (recv_all recv s segs)) \<and>
    snd (recv_all recv s segs') = snd (recv_all recv s segs)"
  using recv_all_loop [of segs s] recv_all_loop [of segs' s] assms by simp

end

end
