(* ===== verification/ZX_Stream.thy ===== *)
theory ZX_Stream
  imports Proto_Module
begin

text \<open>
  The deframer of the zx303 protocol (\<open>class Stream\<close> and \<open>enframe\<close> of
  \<open>loctrkd/zx303proto.py\<close>). The state of a stream is its buffer. A frame is \<open>xx\<close>, a
  packet and a carriage return with a line feed; the first byte of the packet is a length
  that tells how far into the buffer the terminator may first be looked for.
\<close>

definition ZX_MAXBUFFER :: nat where
  "ZX_MAXBUFFER = 4096"

abbreviation CRLF :: bytes where
  "CRLF \<equiv> [13, 10]"

abbreviation XX :: bytes where
  "XX \<equiv> [120, 120]"

record zx_stream =
  zx_buffer :: bytes

definition zx_Stream :: zx_stream where
  "zx_Stream = \<lparr>zx_buffer = []\<rparr>"

text \<open>The inner loop: the first terminator at or after \<open>least\<close>, searched from \<open>frameend + 1\<close>.\<close>

function zx_frameend :: "bytes \<Rightarrow> nat \<Rightarrow> nat \<Rightarrow> nat option" where
  "zx_frameend buf least frameend =
     (case find_from CRLF buf (frameend + 1) of
        None \<Rightarrow> None
      | Some fe \<Rightarrow> if least \<le> fe then Some fe else zx_frameend buf least fe)"
  by pat_completeness auto
termination
proof (relation "measure (\<lambda>(buf, least, frameend). length buf - frameend)")
  fix buf :: bytes and least frameend fe
  assume "find_from CRLF buf (frameend + 1) = Some fe"
  from find_from_bound [OF this] have "frameend < fe" "fe < length buf" by auto
  then show "((buf, least, fe), buf, least, frameend)
      \<in> measure (\<lambda>(buf, least, frameend). length buf - frameend)" by simp
qed simp

declare zx_frameend.simps [simp del]

text \<open>One round of the outer loop of \<open>Stream.recv\<close>.\<close>

definition zx_round :: "zx_stream \<Rightarrow> zx_stream round" where
  "zx_round s =
     (case find_sub XX (zx_buffer s) of
        None \<Rightarrow> Break [] s
      | Some framestart \<Rightarrow>
          (let skipped = (if framestart > 0
                 then [Undecodable framestart (take 64 (take framestart (zx_buffer s)))] else []);
               buf = (if framestart > 0 then drop framestart (zx_buffer s) else zx_buffer s)
           in if length buf < 6 then Break skipped (s\<lparr>zx_buffer := buf\<rparr>)
              else (let exp_end = unat (buf ! 2) + 3
                in case zx_frameend buf (exp_end - 3) 0 of
                     None \<Rightarrow> Break skipped (s\<lparr>zx_buffer := buf\<rparr>)
                   | Some frameend \<Rightarrow>
                       (let packet = pyslice 2 frameend buf;
                            msg = (if length packet < 2 then Too_Short packet else Packet packet)
                        in Again (skipped @ [msg])
                             (s\<lparr>zx_buffer := drop (frameend + 2) buf\<rparr>)))))"

lemma zx_frameend_Some:
  "zx_frameend buf least i = Some k \<Longrightarrow>
     i < k \<and> least \<le> k \<and> k + 2 \<le> length buf \<and> prefix CRLF (drop k buf)"
proof (induction buf least i rule: zx_frameend.induct)
  case (1 buf least i)
  show ?case
  proof (cases "find_from CRLF buf (i + 1)")
    case None
    with "1.prems" show ?thesis by (simp add: zx_frameend.simps [of buf least i])
  next
    case (Some fe)
    then have fe: "fe + 2 \<le> length buf" "i < fe" "prefix CRLF (drop fe buf)"
      using find_from_bound [OF Some] by (auto simp: find_from_Some)
    show ?thesis
    proof (cases "least \<le> fe")
      case True
      with "1.prems" Some fe show ?thesis by (simp add: zx_frameend.simps [of buf least i])
    next
      case False
      with "1.prems" Some have "zx_frameend buf least fe = Some k"
        by (simp add: zx_frameend.simps [of buf least i])
      from "1.IH" [OF Some False this] fe show ?thesis by auto
    qed
  qed
qed

lemma zx_frameend_first:
  "zx_frameend buf least i = Some k \<Longrightarrow> i < j \<Longrightarrow> least \<le> j \<Longrightarrow> j < k \<Longrightarrow> \<not> prefix CRLF (drop j buf)"
proof (induction buf least i rule: zx_frameend.induct)
  case (1 buf least i)
  from "1.prems"(1) obtain fe where fe: "find_from CRLF buf (i + 1) = Some fe"
    by (auto simp: zx_frameend.simps [of buf least i] split: option.splits)
  show ?case
  proof (cases "least \<le> fe")
    case True
    with "1.prems"(1) fe have "k = fe" by (simp add: zx_frameend.simps [of buf least i])
    with "1.prems" fe show ?thesis by (simp add: find_from_Some)
  next
    case False
    with "1.prems"(1) fe have k: "zx_frameend buf least fe = Some k"
      by (simp add: zx_frameend.simps [of buf least i])
    from False "1.prems" have "fe < j" by simp
    with "1.IH" [OF fe False k] "1.prems" show ?thesis by simp
  qed
qed

lemma zx_frameend_append:
  "zx_frameend buf least i = Some k \<Longrightarrow> zx_frameend (buf @ b) least i = Some k"
proof (induction buf least i rule: zx_frameend.induct)
  case (1 buf least i)
  from "1.prems" obtain fe where fe: "find_from CRLF buf (i + 1) = Some fe"
    by (auto simp: zx_frameend.simps [of buf least i] split: option.splits)
  then have fe': "find_from CRLF (buf @ b) (i + 1) = Some fe" by (simp add: find_from_append)
  show ?case
  proof (cases "least \<le> fe")
    case True
    with "1.prems" fe fe' show ?thesis
      by (simp add: zx_frameend.simps [of buf least i] zx_frameend.simps [of "buf @ b" least i])
  next
    case False
    with "1.prems" fe have "zx_frameend buf least fe = Some k"
      by (simp add: zx_frameend.simps [of buf least i])
    from "1.IH" [OF fe False this] fe' False show ?thesis
      by (simp add: zx_frameend.simps [of "buf @ b" least i])
  qed
qed

lemma zx_round_shrinks:
  "zx_round s = Again ms s' \<Longrightarrow> length (zx_buffer s') < length (zx_buffer s)"
  by (auto simp: zx_round_def Let_def split: option.splits if_splits)

function zx_loop :: "zx_stream \<Rightarrow> stream_msg list \<times> zx_stream" where
  "zx_loop s = (case zx_round s of
      Break ms s' \<Rightarrow> (ms, s')
    | Again ms s' \<Rightarrow> (ms @ fst (zx_loop s'), snd (zx_loop s')))"
  by pat_completeness auto
termination
  by (relation "measure (\<lambda>s. length (zx_buffer s))") (auto dest: zx_round_shrinks)

declare zx_loop.simps [simp del]

definition zx_recv :: "zx_stream \<Rightarrow> bytes \<Rightarrow> stream_msg list \<times> zx_stream" where
  "zx_recv s segment =
     (let s1 = s\<lparr>zx_buffer := zx_buffer s @ segment\<rparr>
      in if length (zx_buffer s1) > ZX_MAXBUFFER
         then ([Too_Much_Junk ZX_MAXBUFFER], s1\<lparr>zx_buffer := []\<rparr>)
         else zx_loop s1)"

definition zx_close :: "zx_stream \<Rightarrow> bytes \<times> zx_stream" where
  "zx_close s = (zx_buffer s, s\<lparr>zx_buffer := []\<rparr>)"

definition zx_enframe :: "bytes \<Rightarrow> pystr option \<Rightarrow> bytes res" where
  "zx_enframe buffer imei = Inr (XX @ buffer @ CRLF)"

section \<open>The deframer laws\<close>

lemma find_sub_skip: "find_sub pat xs = Some i \<Longrightarrow> find_sub pat (drop i xs) = Some 0"
  by (auto simp: find_sub_Some)

lemma zx_round_trimmed:
  assumes "find_sub XX (zx_buffer s) = Some 0"
  shows "zx_round s =
     (if length (zx_buffer s) < 6 then Break [] s
      else case zx_frameend (zx_buffer s) (unat (zx_buffer s ! 2)) 0 of
             None \<Rightarrow> Break [] s
           | Some frameend \<Rightarrow>
               Again [if frameend < 4 then Too_Short (pyslice 2 frameend (zx_buffer s))
                      else Packet (pyslice 2 frameend (zx_buffer s))]
                     (s\<lparr>zx_buffer := drop (frameend + 2) (zx_buffer s)\<rparr>))"
  using assms by (auto simp: zx_round_def Let_def dest!: zx_frameend_Some split: option.split)

text \<open>A round is a skip to the frame start followed by a round that starts there.\<close>

lemma zx_round_skip:
  assumes "find_sub XX (zx_buffer s) = Some i"
  shows "zx_round s = prepend
      (if i > 0 then [Undecodable i (take 64 (take i (zx_buffer s)))] else [])
      (zx_round (s\<lparr>zx_buffer := drop i (zx_buffer s)\<rparr>))"
  using assms find_sub_skip [OF assms]
  by (cases "i > 0") (auto simp: zx_round_def Let_def split: option.split)

lemma zx_round_extend:
  assumes "find_sub XX (zx_buffer s) = Some i"
  shows "zx_round (s\<lparr>zx_buffer := zx_buffer s @ b\<rparr>) = prepend
      (if i > 0 then [Undecodable i (take 64 (take i (zx_buffer s)))] else [])
      (zx_round (s\<lparr>zx_buffer := drop i (zx_buffer s) @ b\<rparr>))"
proof -
  from find_sub_bound [OF assms] have bound: "i \<le> length (zx_buffer s)" by simp
  have i: "find_sub XX (zx_buffer (s\<lparr>zx_buffer := zx_buffer s @ b\<rparr>)) = Some i"
    using find_sub_append [OF assms] by simp
  show ?thesis by (rule trans [OF zx_round_skip [OF i]]) (simp add: bound)
qed

lemma zx_round_trimmed_extend:
  assumes "find_sub XX (zx_buffer s) = Some 0" and "zx_round s = Again ms s'"
  shows "zx_round (s\<lparr>zx_buffer := zx_buffer s @ b\<rparr>) = Again ms (s'\<lparr>zx_buffer := zx_buffer s' @ b\<rparr>)"
proof -
  let ?buf = "zx_buffer s"
  have b0: "find_sub XX (zx_buffer (s\<lparr>zx_buffer := ?buf @ b\<rparr>)) = Some 0"
    using find_sub_append [OF assms(1)] by simp
  from assms obtain k where len: "\<not> length ?buf < 6"
    and k: "zx_frameend ?buf (unat (?buf ! 2)) 0 = Some k"
    and ms: "ms = [if k < 4 then Too_Short (pyslice 2 k ?buf) else Packet (pyslice 2 k ?buf)]"
    and s': "s' = s\<lparr>zx_buffer := drop (k + 2) ?buf\<rparr>"
    by (auto simp: zx_round_trimmed split: if_splits option.splits)
  from zx_frameend_Some [OF k] have bound: "k + 2 \<le> length ?buf" by simp
  have at2: "(?buf @ b) ! 2 = ?buf ! 2" using len by (simp add: nth_append)
  from bound have "pyslice 2 k (?buf @ b) = pyslice 2 k ?buf" by (intro pyslice_append) simp
  with bound len show ?thesis
    by (simp only: zx_round_trimmed [OF b0])
      (simp add: at2 zx_frameend_append [OF k] ms s')
qed

lemma packets_loop_prepend:
  assumes "zx_round s = prepend ms (zx_round t)"
  shows "fst (zx_loop s) = ms @ fst (zx_loop t) \<and> snd (zx_loop s) = snd (zx_loop t)"
  using loop_prepend [OF zx_loop.simps assms, of t "[]"] by (cases "zx_round t") auto

interpretation zx: bounded_deframer zx_round zx_loop
  "\<lambda>s b. s\<lparr>zx_buffer := zx_buffer s @ b\<rparr>" "\<lambda>s. length (zx_buffer s)" zx_recv ZX_MAXBUFFER
proof (unfold_locales, goal_cases)
  case (1 s)
  show ?case by (rule zx_loop.simps)
next
  case (2 s ms s')
  then show ?case by (rule zx_round_shrinks)
next
  case (3 s ms s')
  then show ?case by (auto simp: zx_round_def Let_def split: option.splits if_splits)
next
  case (7 s ms s' b)
  then obtain i where i: "find_sub XX (zx_buffer s) = Some i"
    by (auto simp: zx_round_def split: option.splits)
  define t where "t = s\<lparr>zx_buffer := drop i (zx_buffer s)\<rparr>"
  have t0: "find_sub XX (zx_buffer t) = Some 0" using find_sub_skip [OF i] by (simp add: t_def)
  from 7 zx_round_skip [OF i] obtain ms1 where t: "zx_round t = Again ms1 s'"
    by (cases "zx_round t") (auto simp: t_def)
  then have "zx_round (t\<lparr>zx_buffer := zx_buffer t @ b\<rparr>) =
      Again ms1 (s'\<lparr>zx_buffer := zx_buffer s' @ b\<rparr>)"
    by (rule zx_round_trimmed_extend [OF t0])
  with 7 t zx_round_skip [OF i] zx_round_extend [OF i, of b] show ?case
    by (auto simp: t_def)
next
  case (8 s ms s' b)
  show ?case
  proof (cases "find_sub XX (zx_buffer s)")
    case None
    with 8 show ?thesis by (auto simp: zx_round_def)
  next
    case (Some i)
    have "find_sub XX (zx_buffer (s\<lparr>zx_buffer := drop i (zx_buffer s)\<rparr>)) = Some 0"
      using find_sub_skip [OF Some] by simp
    from zx_round_trimmed [OF this] 8 zx_round_skip [OF Some]
    have s': "s' = s\<lparr>zx_buffer := drop i (zx_buffer s)\<rparr>"
      and ms: "ms = (if i > 0 then [Undecodable i (take 64 (take i (zx_buffer s)))] else [])"
      by (auto split: if_splits option.splits)
    have "zx_round (s\<lparr>zx_buffer := zx_buffer s @ b\<rparr>) =
        prepend ms (zx_round (s'\<lparr>zx_buffer := zx_buffer s' @ b\<rparr>))"
      using zx_round_extend [OF Some, of b] by (simp add: s' ms)
    from packets_loop_prepend [OF this] show ?thesis by simp
  qed
qed (auto simp: zx_recv_def)

section \<open>Every packet comes from a frame\<close>

lemma zx_round_sound:
  assumes "zx_round s = Again ms s'" and "Packet p \<in> set ms"
  shows "2 \<le> length p \<and> sublist (XX @ p @ CRLF) (zx_buffer s)"
proof -
  from assms(1) obtain i where i: "find_sub XX (zx_buffer s) = Some i"
    by (auto simp: zx_round_def split: option.splits)
  define buf where "buf = drop i (zx_buffer s)"
  have b0: "find_sub XX (zx_buffer (s\<lparr>zx_buffer := buf\<rparr>)) = Some 0"
    using find_sub_skip [OF i] by (simp add: buf_def)
  from assms zx_round_skip [OF i] obtain ms1 where
    "zx_round (s\<lparr>zx_buffer := buf\<rparr>) = Again ms1 s'" "Packet p \<in> set ms1"
    by (cases "zx_round (s\<lparr>zx_buffer := buf\<rparr>)") (auto simp: buf_def split: if_splits)
  then obtain k where len: "\<not> length buf < 6" and k: "zx_frameend buf (unat (buf ! 2)) 0 = Some k"
    and p: "\<not> k < 4" "p = pyslice 2 k buf"
    unfolding zx_round_trimmed [OF b0] by (auto split: if_splits option.splits)
  from zx_frameend_Some [OF k] have kb: "k + 2 \<le> length buf" "prefix CRLF (drop k buf)" by auto
  from b0 have "prefix XX buf" by (simp add: find_sub_Some)
  then have "take 2 buf = XX" by (auto simp: prefix_def)
  moreover have "take k buf = take 2 buf @ pyslice 2 k buf"
    using append_take_drop_id [of 2 "take k buf"] p(1) by (simp add: pyslice_def)
  moreover have "take 2 (drop k buf) = CRLF" using kb(2) by (auto simp: prefix_def)
  moreover have "take (k + 2) buf = take k buf @ take 2 (drop k buf)" by (rule take_add)
  ultimately have "take (k + 2) buf = XX @ p @ CRLF" by (simp only: p(2) append.assoc)
  then have "prefix (XX @ p @ CRLF) buf" by (metis take_is_prefix)
  moreover have "suffix buf (zx_buffer s)" by (simp add: buf_def suffix_drop)
  ultimately have "sublist (XX @ p @ CRLF) (zx_buffer s)"
    by (meson sublist_order.order.trans prefix_imp_sublist suffix_imp_sublist)
  with p kb show ?thesis by simp
qed

lemma zx_round_suffix:
  "zx_round s = Again ms s' \<Longrightarrow> suffix (zx_buffer s') (zx_buffer s)"
  by (auto simp: zx_round_def Let_def suffix_drop suffix_order.trans [OF suffix_drop suffix_drop]
      split: option.splits if_splits)

lemma zx_round_break_packets: "zx_round s = Break ms s' \<Longrightarrow> Packet p \<notin> set ms"
  by (auto simp: zx_round_def Let_def split: option.splits if_splits)

lemma zx_loop_sound:
  "Packet p \<in> set (fst (zx_loop s)) \<Longrightarrow> 2 \<le> length p \<and> sublist (XX @ p @ CRLF) (zx_buffer s)"
proof (induction s rule: zx.loop_induct)
  case (1 s)
  show ?case
  proof (cases "zx_round s")
    case (Break ms s')
    with 1(2) zx_round_break_packets show ?thesis by (auto simp: zx.loop_Break)
  next
    case (Again ms s')
    show ?thesis
    proof (cases "Packet p \<in> set ms")
      case True
      with Again show ?thesis by (rule zx_round_sound)
    next
      case False
      with 1(2) have "Packet p \<in> set (fst (zx_loop s'))" by (simp add: zx.loop_Again [OF Again])
      from 1(1) [OF Again this] zx_round_suffix [OF Again] show ?thesis
        by (meson sublist_order.order.trans suffix_imp_sublist)
    qed
  qed
qed

section \<open>Framing and deframing\<close>

text \<open>
  The packets that survive framing: no terminator may occur in the region the length byte
  opens to the search, and the length byte must not point behind the packet's end.
\<close>

definition zx_framable :: "bytes \<Rightarrow> bool" where
  "zx_framable p \<longleftrightarrow> 2 \<le> length p \<and> unat (p ! 0) \<le> length p + 2 \<and>
     (\<forall>j<length p. unat (p ! 0) \<le> j + 2 \<longrightarrow> \<not> prefix CRLF (drop j p))"

lemma zx_frameend_eq:
  "i < k \<Longrightarrow> least \<le> k \<Longrightarrow> prefix CRLF (drop k buf) \<Longrightarrow>
   (\<forall>j. i < j \<and> j < k \<and> least \<le> j \<longrightarrow> \<not> prefix CRLF (drop j buf)) \<Longrightarrow>
   zx_frameend buf least i = Some k"
proof (induction buf least i rule: zx_frameend.induct)
  case (1 buf least i)
  have k: "k < length buf" using "1.prems"(3) by (rule_tac ccontr) simp
  have "find_sub CRLF (drop (i + 1) buf) \<noteq> None"
  proof
    assume "find_sub CRLF (drop (i + 1) buf) = None"
    then have "\<forall>m \<le> length (drop (i + 1) buf). \<not> prefix CRLF (drop m (drop (i + 1) buf))"
      by (simp only: find_sub_None)
    moreover have "k - (i + 1) \<le> length (drop (i + 1) buf)" using k by simp
    ultimately have "\<not> prefix CRLF (drop (k - (i + 1)) (drop (i + 1) buf))" by blast
    with "1.prems"(1,3) show False by simp
  qed
  then obtain fe where fe: "find_from CRLF buf (i + 1) = Some fe" by (auto simp: find_from_def)
  then have fe': "i < fe" "prefix CRLF (drop fe buf)" "fe \<le> k"
    using "1.prems"(1,3) by (auto simp: find_from_Some) (meson Suc_leI not_le)
  show ?case
  proof (cases "least \<le> fe")
    case True
    with fe' "1.prems"(4) have "fe = k" by (auto simp: le_less)
    with fe True show ?thesis by (simp add: zx_frameend.simps [of buf least i])
  next
    case False
    with fe' "1.prems"(2) have "fe < k" by simp
    from "1.IH" [OF fe False this "1.prems"(2,3)] "1.prems"(4) fe'(1) fe False
    show ?thesis by (simp add: zx_frameend.simps [of buf least i])
  qed
qed

lemma zx_frameend_framable:
  assumes "zx_framable p"
  shows "zx_frameend (XX @ p @ CRLF @ rest) (unat (p ! 0)) 0 = Some (length p + 2)"
proof (rule zx_frameend_eq)
  have drops: "drop (j + 2) (XX @ ys) = drop j ys" for j and ys :: bytes by simp
  show "prefix CRLF (drop (length p + 2) (XX @ p @ CRLF @ rest))" by (simp only: drops) simp
  have no: "\<not> prefix CRLF (drop j (p @ CRLF @ rest))" if "j < length p" "unat (p ! 0) \<le> j + 2" for j
  proof (cases "j + 1 < length p")
    case True
    then have "drop j p = p ! j # p ! (j + 1) # drop (j + 2) p"
      by (metis Cons_nth_drop_Suc Suc_eq_plus1 Suc_lessD add_2_eq_Suc' )
    moreover from that assms have "\<not> prefix CRLF (drop j p)" by (simp add: zx_framable_def)
    ultimately show ?thesis using that(1) by simp
  next
    case False
    with that(1) have "j = length p - 1" "p \<noteq> []" by auto
    then have "drop j p = [last p]" by (metis append_butlast_last_id append_eq_conv_conj length_butlast)
    with that(1) show ?thesis by simp
  qed
  show "\<forall>j. 0 < j \<and> j < length p + 2 \<and> unat (p ! 0) \<le> j \<longrightarrow>
      \<not> prefix CRLF (drop j (XX @ p @ CRLF @ rest))"
  proof (intro allI impI)
    fix j
    assume j: "0 < j \<and> j < length p + 2 \<and> unat (p ! 0) \<le> j"
    show "\<not> prefix CRLF (drop j (XX @ p @ CRLF @ rest))"
    proof (cases "j < 2")
      case True
      with j have "j = 1" by simp
      then show ?thesis by simp
    next
      case False
      then obtain i where "j = i + 2" by (metis le_add_diff_inverse2 not_less)
      with no [of i] j show ?thesis by (simp only: drops) simp
    qed
  qed
qed (use assms in \<open>auto simp: zx_framable_def\<close>)

lemma zx_round_framed:
  assumes "zx_framable p"
  shows "zx_round (s\<lparr>zx_buffer := XX @ p @ CRLF @ rest\<rparr>) = Again [Packet p] (s\<lparr>zx_buffer := rest\<rparr>)"
proof -
  let ?buf = "XX @ p @ CRLF @ rest"
  have len: "2 \<le> length p" using assms by (simp add: zx_framable_def)
  have b0: "find_sub XX (zx_buffer (s\<lparr>zx_buffer := ?buf\<rparr>)) = Some 0" by simp
  have "?buf ! 2 = p ! 0" using len by (cases p) auto
  moreover have "pyslice 2 (length p + 2) ?buf = p" by (simp add: pyslice_def)
  moreover have "drop (length p + 2 + 2) ?buf = rest" by simp
  moreover have "\<not> length ?buf < 6" "\<not> length p + 2 < 4" using len by auto
  ultimately show ?thesis
    unfolding zx_round_trimmed [OF b0]
    using zx_frameend_framable [OF assms, of rest] by simp
qed

lemma zx_loop_framed:
  assumes "\<forall>p \<in> set ps. zx_framable p"
  shows "zx_loop (s\<lparr>zx_buffer := concat (map (\<lambda>p. XX @ p @ CRLF) ps)\<rparr>) =
    (map Packet ps, s\<lparr>zx_buffer := []\<rparr>)"
  using assms
proof (induction ps)
  case Nil
  have "zx_round (s\<lparr>zx_buffer := []\<rparr>) = Break [] (s\<lparr>zx_buffer := []\<rparr>)"
    by (simp add: zx_round_def)
  then show ?case by (simp add: zx.loop_Break)
next
  case (Cons p ps)
  from zx_round_framed [of p "concat (map (\<lambda>p. XX @ p @ CRLF) ps)" s] Cons.prems
  have "zx_round (s\<lparr>zx_buffer := concat (map (\<lambda>p. XX @ p @ CRLF) (p # ps))\<rparr>) =
      Again [Packet p] (s\<lparr>zx_buffer := concat (map (\<lambda>p. XX @ p @ CRLF) ps)\<rparr>)" by simp
  from zx.loop_Again [OF this] Cons show ?case by simp
qed

lemma packets_map_Packet [simp]: "packets (map Packet ps) = ps"
  by (induction ps) auto

lemma zx_enframe_all: "map_res (\<lambda>p. zx_enframe p imei) ps = Inr (map (\<lambda>p. XX @ p @ CRLF) ps)"
  by (induction ps) (auto simp: zx_enframe_def)

section \<open>Properties\<close>

abbreviation zx_in_bounds :: "zx_stream \<Rightarrow> bytes list \<Rightarrow> bool" where
  "zx_in_bounds \<equiv> in_bounds zx_recv (\<lambda>s. length (zx_buffer s)) ZX_MAXBUFFER"

text \<open>
  C6: framing and deframing round trip. Packets framed by \<open>enframe\<close> and sent as one byte
  stream, cut into segments at arbitrary places, are delivered by \<open>Stream.recv\<close> exactly
  as they were and in order, under two conditions. Each packet is framable: its first byte, the
  length, points at most at the terminator that follows the packet, and the packet has no
  carriage return with line feed from there on (other packets are cut or joined, as the comments of
  the code say). And no call overflows: what is left of an unfinished packet with the next segment is not
  longer than the bound, however long the whole stream is.
\<close>

theorem zx_frames_roundtrip:
  assumes "\<forall>p \<in> set ps. zx_framable p"
    and "map_res (\<lambda>p. zx_enframe p imei) ps = Inr frames"
    and "concat segs = concat frames" and "segs \<noteq> []"
    and "zx_in_bounds zx_Stream segs"
  shows "packets (fst (recv_all zx_recv zx_Stream segs)) = ps \<and>
    zx_buffer (snd (recv_all zx_recv zx_Stream segs)) = []"
proof -
  have frames: "frames = map (\<lambda>p. XX @ p @ CRLF) ps" using assms(2) by (simp add: zx_enframe_all)
  have "zx_loop (zx_Stream\<lparr>zx_buffer := zx_buffer zx_Stream @ concat segs\<rparr>) = (map Packet ps, zx_Stream\<lparr>zx_buffer := []\<rparr>)"
    using zx_loop_framed [OF assms(1), of zx_Stream] by (simp add: assms(3) frames zx_Stream_def)
  with zx.recv_all_loop [OF assms(4,5)] show ?thesis by (simp add: zx_Stream_def)
qed

theorem zx_frames_roundtrip_witness:
  "packets (fst (recv_all zx_recv zx_Stream [[120], [120, 1, 8, 13], [10]])) = [[1, 8]] \<and>
   zx_buffer (snd (recv_all zx_recv zx_Stream [[120], [120, 1, 8, 13], [10]])) = []"
proof (rule zx_frames_roundtrip [where frames = "[[120, 120, 1, 8, 13, 10]]" and imei = None])
  show "zx_in_bounds zx_Stream [[120], [120, 1, 8, 13], [10]]"
    by (rule zx.in_bounds_total) (simp add: ZX_MAXBUFFER_def zx_Stream_def)
qed (simp_all add: zx_framable_def zx_enframe_def All_less_Suc)

text \<open>
  C23: segmentation independence. Of two ways to cut the same bytes into segments, neither of which
  overflows the buffer in any call, the stream delivers the same packets and ends in the same
  state, from any state of the buffer and for a stream of any length. (Where a call overflows, what
  was in the buffer is dropped, so there it does depend on the segments.)
\<close>

theorem zx_segmentation_independent:
  assumes "segs \<noteq> []" and "segs' \<noteq> []" and "concat segs' = concat segs"
    and "zx_in_bounds s segs" and "zx_in_bounds s segs'"
  shows "packets (fst (recv_all zx_recv s segs')) = packets (fst (recv_all zx_recv s segs)) \<and>
    snd (recv_all zx_recv s segs') = snd (recv_all zx_recv s segs)"
  using assms by (rule zx.recv_all_any_segmentation)

theorem zx_segmentation_independent_witness:
  "packets (fst (recv_all zx_recv zx_Stream [[120, 120, 1], [8, 13, 10, 7]])) =
     packets (fst (recv_all zx_recv zx_Stream [[120, 120, 1, 8, 13, 10], [7]])) \<and>
   snd (recv_all zx_recv zx_Stream [[120, 120, 1], [8, 13, 10, 7]]) =
     snd (recv_all zx_recv zx_Stream [[120, 120, 1, 8, 13, 10], [7]])"
proof (rule zx_segmentation_independent)
  show "zx_in_bounds zx_Stream [[120, 120, 1, 8, 13, 10], [7]]"
    by (rule zx.in_bounds_total) (simp add: ZX_MAXBUFFER_def zx_Stream_def)
  show "zx_in_bounds zx_Stream [[120, 120, 1], [8, 13, 10, 7]]"
    by (rule zx.in_bounds_total) (simp add: ZX_MAXBUFFER_def zx_Stream_def)
qed simp_all

text \<open>
  C25: packets are genuine, and memory is bounded. Whatever bytes a terminal sends and whatever is in
  the buffer, a packet delivered by \<open>Stream.recv\<close> has at least the length and protocol bytes (the later
  \<open>packet[1]\<close> cannot fail) and stood between \<open>xx\<close> and the terminator in the received bytes;
  what is kept in the buffer never exceeds the bound; and a call that would exceed it delivers no packet
  and empties the buffer.
\<close>

theorem zx_recv_sound:
  assumes "zx_recv s segment = (ms, s')"
  shows "(\<forall>p \<in> set (packets ms). 2 \<le> length p \<and> sublist (XX @ p @ CRLF) (zx_buffer s @ segment)) \<and>
    length (zx_buffer s') \<le> ZX_MAXBUFFER \<and>
    (length (zx_buffer s @ segment) > ZX_MAXBUFFER \<longrightarrow> packets ms = [] \<and> zx_buffer s' = [])"
proof (cases "length (zx_buffer s @ segment) > ZX_MAXBUFFER")
  case True
  with assms show ?thesis by (auto simp: zx_recv_def)
next
  case False
  with assms have ms: "ms = fst (zx_loop (s\<lparr>zx_buffer := zx_buffer s @ segment\<rparr>))" by (simp add: zx_recv_def)
  have "2 \<le> length p \<and> sublist (XX @ p @ CRLF) (zx_buffer s @ segment)" if "p \<in> set (packets ms)" for p
    using zx_loop_sound [of p "s\<lparr>zx_buffer := zx_buffer s @ segment\<rparr>"] that ms by (simp add: in_packets_iff)
  with zx.recv_bounded [of s segment] assms False show ?thesis by simp
qed

theorem zx_recv_sound_witness:
  "\<exists>ms s'. zx_recv \<lparr>zx_buffer = replicate 4096 120\<rparr> [7] = (ms, s') \<and> packets ms = [] \<and> zx_buffer s' = []"
proof -
  obtain ms s' where r: "zx_recv \<lparr>zx_buffer = replicate 4096 120\<rparr> [7] = (ms, s')" by fastforce
  from zx_recv_sound [OF this] r show ?thesis by (simp add: ZX_MAXBUFFER_def)
qed

end
