(* ===== verification/ZX_Proto.thy ===== *)
theory ZX_Proto
  imports ZX_Encode ZX_Stream
begin

text \<open>
  The functions \<open>loctrkd/zx303proto.py\<close> exports: they look at a packet's two leading
  bytes (length and protocol number), parse it into a message object, name it, and answer it.
  The theorems say what each returns on every packet and when it raises.
\<close>

section \<open>Parsed messages\<close>

record zx_obj =
  zo_class :: zx_class
  zo_dir :: dir
  zo_length :: int
  zo_payload :: bytes
  zo_PROTO :: int
  zo_body :: zx_body
  zo_cause :: "py_exn option"

text \<open>The exceptions that \<open>parse_message\<close> turns into an \<open>UNKNOWN\<close> object with a cause\<close>

definition zx_caught :: "py_exn \<Rightarrow> bool" where
  "zx_caught e \<longleftrightarrow> e = DecodeError \<or> is_ValueError e \<or> e = IndexError"

definition zx_unknown :: "dir \<Rightarrow> int \<Rightarrow> bytes \<Rightarrow> int \<Rightarrow> py_exn \<Rightarrow> zx_obj" where
  "zx_unknown d len payload proto e =
     \<lparr>zo_class = UNKNOWN, zo_dir = d, zo_length = len, zo_payload = payload, zo_PROTO = proto,
      zo_body = No_Body, zo_cause = Some e\<rparr>"

definition zx_parse_message ::
  "(datetime \<Rightarrow> datetime) \<Rightarrow> bytes \<Rightarrow> dir \<Rightarrow> zx_obj res" where
  "zx_parse_message tz packet d =
     (case take 2 packet of
        [l, p] \<Rightarrow>
          (let payload = drop 2 packet; len = uint l; proto = uint p in
           case zx_CLASSES proto of
             None \<Rightarrow> Inr (zx_unknown d len payload proto ValueError)
           | Some c \<Rightarrow>
               (case zx_decode tz d c (unat l) payload of
                  Inr body \<Rightarrow>
                    Inr \<lparr>zo_class = c, zo_dir = d, zo_length = len, zo_payload = payload,
                         zo_PROTO = zx_PROTO c, zo_body = body, zo_cause = None\<rparr>
                | Inl e \<Rightarrow>
                    if zx_caught e then Inr (zx_unknown d len payload proto e) else Inl e))
      | _ \<Rightarrow> Inl StructError)"

section \<open>The module's functions\<close>

text \<open>
  A unique match is the class, otherwise the list of the matching names. A prefix without
  the protocol's tag runs into an unbound name. Names are ASCII; upper-casing of other
  letters is not modelled.
\<close>

definition zx_class_by_prefix :: "pystr \<Rightarrow> (zx_class + pystr list) res" where
  "zx_class_by_prefix pfx =
     (if prefix ZX_PREFIX pfx then
        (let lst = filter (\<lambda>(name, proto). prefix (ascii_upper pfx) (ascii_upper name)) zx_PROTOS in
         case lst of
           [(name, proto)] \<Rightarrow>
             (case zx_CLASSES proto of Some c \<Rightarrow> Inr (Inl c) | None \<Rightarrow> Inl KeyError)
         | _ \<Rightarrow> Inr (Inr (map fst lst)))
      else Inl UnboundLocalError)"

definition zx_proto_handled :: "pystr \<Rightarrow> bool" where
  "zx_proto_handled proto = prefix ZX_PREFIX proto"

definition zx_proto_of_message :: "bytes \<Rightarrow> pystr res" where
  "zx_proto_of_message packet =
     and_then (pyget packet 1) (\<lambda>p.
       Inr (zx_proto_name (case zx_CLASSES (uint p) of Some c \<Rightarrow> c | None \<Rightarrow> UNKNOWN)))"

definition zx_imei_from_packet :: "(datetime \<Rightarrow> datetime) \<Rightarrow> bytes \<Rightarrow> pystr option res" where
  "zx_imei_from_packet tz packet =
     and_then (pyget packet 1) (\<lambda>p.
       if uint p = zx_PROTO LOGIN then
         and_then (zx_parse_message tz packet In) (\<lambda>msg.
           Inr (if zo_class msg = LOGIN
                then (case zo_body msg of Login_Body imei ver \<Rightarrow> Some imei | _ \<Rightarrow> None)
                else None))
       else Inr None)"

definition zx_is_goodbye_packet :: "bytes \<Rightarrow> bool res" where
  "zx_is_goodbye_packet packet =
     and_then (pyget packet 1) (\<lambda>p. Inr (uint p = zx_PROTO HIBERNATION))"

definition zx_inline_response :: "(pyval \<Rightarrow> pystr) \<Rightarrow> datetime \<Rightarrow> bytes \<Rightarrow> bytes option res" where
  "zx_inline_response rep now packet =
     and_then (pyget packet 1) (\<lambda>p.
       case zx_CLASSES (uint p) of
         Some c \<Rightarrow>
           if zx_RESPOND c = INL
           then and_then (zx_Out_packed rep now c []) (\<lambda>r. Inr (Some r))
           else Inr None
       | None \<Rightarrow> Inr None)"

definition zx_probe_buffer :: "bytes \<Rightarrow> bool" where
  "zx_probe_buffer buffer =
     (case find_sub (b8 ''xx'') buffer of
        None \<Rightarrow> False
      | Some framestart \<Rightarrow> \<not> length buffer - framestart < 6)"

text \<open>The classes that have a method \<open>rectified\<close>, and the reports it makes.\<close>

fun zx_has_rectified :: "zx_class \<Rightarrow> bool" where
  "zx_has_rectified GPS_POSITIONING = True"
| "zx_has_rectified GPS_OFFLINE_POSITIONING = True"
| "zx_has_rectified STATUS = True"
| "zx_has_rectified WIFI_OFFLINE_POSITIONING = True"
| "zx_has_rectified WIFI_POSITIONING = True"
| "zx_has_rectified _ = False"

definition zx_exposed_protos :: "(pystr \<times> bool) list" where
  "zx_exposed_protos =
     map (\<lambda>c. (zx_proto_name c, zx_RESPOND c = EXT)) (filter zx_has_rectified zx_all)"

definition str_devtime :: "datetime option \<Rightarrow> pystr" where
  "str_devtime d = (case d of None \<Rightarrow> u ''None'' | Some dt \<Rightarrow> py_str_datetime_utc dt)"

definition zx_rectified :: "zx_obj \<Rightarrow> report res" where
  "zx_rectified m =
     (if \<not> zx_has_rectified (zo_class m) then Inl AttributeError
      else (case zo_body m of
          Gps_Body g \<Rightarrow> Inr (CoordReport
            \<lparr>cr_devtime = str_devtime (g_devtime g), cr_battery_percentage = None,
             cr_accuracy = VNone, cr_altitude = VNone, cr_speed = VInt (g_speed g),
             cr_direction = VInt (g_heading g), cr_latitude = Fin (g_latitude g),
             cr_longitude = Fin (g_longitude g)\<rparr>)
        | Status_Body s \<Rightarrow> Inr (StatusReport \<lparr>sr_battery_percentage = s_batt s\<rparr>)
        | Wifi_Body w \<Rightarrow> Inr (HintReport
            \<lparr>hr_devtime = str_devtime (w_devtime w), hr_battery_percentage = None,
             hr_mcc = w_mcc w, hr_mnc = w_mnc w,
             hr_gsm_cells = map (\<lambda>(l, c, s). [l, c, s]) (w_gsm_cells w),
             hr_wifi_aps = map (\<lambda>(mac, s). (u ''<UNKNOWN>'', mac, s)) (w_wifi_aps w)\<rparr>)
        | _ \<Rightarrow> Inl AttributeError))"

text \<open>\<open>make_response\<close>: an \<open>Out\<close> object is its class and converted attributes.\<close>

definition zx_make_response ::
  "(pyval \<Rightarrow> pystr) \<Rightarrow> pystr \<Rightarrow> pystr \<Rightarrow> attrs \<Rightarrow> (zx_class \<times> attrs) option res" where
  "zx_make_response rep cmd imei kwargs =
     (if cmd = u ''poweroff''
      then and_then (init_kwargs (zx_OUT_KWARGS rep HIBERNATION) []) (\<lambda>a. Inr (Some (HIBERNATION, a)))
      else Inr None)"

section \<open>Parsing never raises\<close>

lemma zx_decode_caught: "zx_decode tz d c len p = Inl e \<Longrightarrow> zx_caught e"
  using only_raisesD [OF zx_decode_exn] by (fastforce simp: zx_caught_def)

lemma zx_parse_two:
  "zx_parse_message tz (l # p # payload) d =
     Inr (case zx_CLASSES (uint p) of
            None \<Rightarrow> zx_unknown d (uint l) payload (uint p) ValueError
          | Some c \<Rightarrow>
              (case zx_decode tz d c (unat l) payload of
                 Inr body \<Rightarrow>
                   \<lparr>zo_class = c, zo_dir = d, zo_length = uint l, zo_payload = payload,
                    zo_PROTO = uint p, zo_body = body, zo_cause = None\<rparr>
               | Inl e \<Rightarrow> zx_unknown d (uint l) payload (uint p) e))"
proof (cases "zx_CLASSES (uint p)")
  case None
  then show ?thesis by (simp add: zx_parse_message_def numeral_2_eq_2)
next
  case (Some c)
  then have "zx_PROTO c = uint p" by (simp add: zx_CLASSES_PROTO)
  with Some show ?thesis
    by (cases "zx_decode tz d c (unat l) payload")
      (simp_all add: zx_parse_message_def numeral_2_eq_2 zx_decode_caught)
qed

lemma two_bytes: "2 \<le> length xs \<Longrightarrow> \<exists>a b ys. xs = a # b # ys"
  by (metis One_nat_def Suc_1 Suc_le_length_iff)

text \<open>
  C14: \<open>parse_message\<close> raises exactly on packets of fewer than two bytes. On any other
  packet it returns an object that holds the packet's length byte, its payload and its
  protocol number; the object is of the class registered for that number with the fields
  its decoder found, or an UNKNOWN with the decoder's exception as cause.
\<close>

theorem zx_parse_total:
  "zx_parse_message tz packet d =
     (if length packet < 2 then Inl StructError
      else
        (let l = packet ! 0; p = packet ! 1; payload = drop 2 packet in
         Inr (case zx_CLASSES (uint p) of
            None \<Rightarrow> zx_unknown d (uint l) payload (uint p) ValueError
          | Some c \<Rightarrow>
              (case zx_decode tz d c (unat l) payload of
                 Inr body \<Rightarrow>
                   \<lparr>zo_class = c, zo_dir = d, zo_length = uint l, zo_payload = payload,
                    zo_PROTO = uint p, zo_body = body, zo_cause = None\<rparr>
               | Inl e \<Rightarrow> zx_unknown d (uint l) payload (uint p) e))))"
proof (cases "length packet < 2")
  case True
  then show ?thesis
    by (cases packet rule: remdups_adj.cases) (auto simp: zx_parse_message_def)
next
  case False
  with two_bytes [of packet] obtain l p ys where "packet = l # p # ys" by auto
  then show ?thesis by (simp add: zx_parse_two numeral_2_eq_2)
qed


section \<open>Round trips of messages\<close>

text \<open>The messages that a terminal can encode without loss\<close>

definition zx_body_wf :: "(datetime \<Rightarrow> datetime) \<Rightarrow> zx_body \<Rightarrow> bool" where
  "zx_body_wf tz body = (case body of
       Login_Body imei ver \<Rightarrow>
         (case fromhex imei of Inr b \<Rightarrow> length b = 8 \<and> imei = hex_bytes b | Inl e \<Rightarrow> False)
     | Wifi_Body w \<Rightarrow> wifi_wf tz w
     | _ \<Rightarrow> True)"

lemma zx_In_packed_payload:
  assumes wf: "zx_body_wf tz body" and enc: "zx_In_packed c body = Inr p"
  shows "\<exists>l pl. p = l # word_of_int (zx_PROTO c) # pl \<and> c \<noteq> UNKNOWN \<and>
    zx_in_decode tz c (unat l) pl = Inr body"
proof (cases body)
  case No_Body
  then have "zx_packed None c [] = Inr p" "c = HIBERNATION \<or> c = SETUP"
    using enc by (auto simp: zx_In_packed_def split: if_splits)
  then show ?thesis by (auto simp: zx_packed_Inr No_Body)
next
  case (Login_Body imei ver)
  from wf obtain b where b: "length b = 8" "imei = hex_bytes b"
    by (auto simp: Login_Body zx_body_wf_def split: sum.splits)
  from enc obtain pl where c: "c = LOGIN" and pl: "login_in_encode imei ver = Inr pl"
    and p: "zx_packed None LOGIN pl = Inr p"
    by (auto simp: Login_Body zx_In_packed_def res_simps split: if_splits)
  from login_roundtrip [of b ver pl] pl b
  have "login_in_decode pl = Inr body" by (simp add: Login_Body)
  with p c show ?thesis by (auto simp: zx_packed_Inr Let_def)
next
  case (Status_Body st)
  from enc obtain pl where c: "c = STATUS" and pl: "status_in_encode st = Inr pl"
    and p: "zx_packed None STATUS pl = Inr p"
    by (auto simp: Status_Body zx_In_packed_def res_simps split: if_splits)
  from status_roundtrip [OF pl] p c show ?thesis by (auto simp: zx_packed_Inr Let_def Status_Body)
next
  case (Wifi_Body w)
  from wf have ww: "wifi_wf tz w" by (simp add: Wifi_Body zx_body_wf_def)
  from enc obtain pl where c: "c = WIFI_POSITIONING \<or> c = WIFI_OFFLINE_POSITIONING"
    and pl: "wifi_in_encode w = Inr pl"
    and p: "zx_packed (Some (int (length (w_wifi_aps w)))) c pl = Inr p"
    by (auto simp: Wifi_Body zx_In_packed_def res_simps split: if_splits)
  from p have len: "length (w_wifi_aps w) < 256"
    and pp: "p = word_of_int (int (length (w_wifi_aps w))) # word_of_int (zx_PROTO c) # pl" "c \<noteq> UNKNOWN"
    by (auto simp: zx_packed_Inr)
  then have "unat (word_of_int (int (length (w_wifi_aps w))) :: byte) = length (w_wifi_aps w)"
    by (simp add: unat_of_nat)
  with wifi_roundtrip [OF ww pl] pp c show ?thesis by (auto simp: Wifi_Body)
qed (use enc in \<open>simp_all add: zx_In_packed_def\<close>)

text \<open>
  C18: A LOGIN, STATUS, HIBERNATION, SETUP or WiFi message that a terminal encodes is parsed
  back to the same class with the same fields: the IMEI and version, the battery and signal
  values, the access points with their MAC addresses and signals, and the cells.
\<close>

theorem zx_message_roundtrip:
  assumes "zx_body_wf tz body" and "zx_In_packed c body = Inr p"
  shows "zx_parse_message tz p In =
    Inr \<lparr>zo_class = c, zo_dir = In, zo_length = uint (p ! 0), zo_payload = drop 2 p,
         zo_PROTO = zx_PROTO c, zo_body = body, zo_cause = None\<rparr>"
proof -
  from zx_In_packed_payload [OF assms] obtain l pl where
    p: "p = l # word_of_int (zx_PROTO c) # pl" and c: "c \<noteq> UNKNOWN"
    and d: "zx_in_decode tz c (unat l) pl = Inr body" by blast
  have "0 \<le> zx_PROTO c" by (cases c) simp_all
  with c zx_PROTO_byte [of c] have n: "uint (word_of_int (zx_PROTO c) :: byte) = zx_PROTO c" by simp
  then have "zx_CLASSES (uint (word_of_int (zx_PROTO c) :: byte)) = Some c"
    by (simp add: zx_CLASSES_PROTO)
  with d n show ?thesis by (simp add: p zx_parse_two zx_decode_def numeral_2_eq_2)
qed

theorem zx_message_roundtrip_witness:
  "\<exists>p. zx_In_packed STATUS (Status_Body \<lparr>s_batt = 80, s_ver = 3, s_timezone = 2, s_intvl = 25,
        s_signal = Some 7\<rparr>) = Inr p \<and>
     zx_parse_message (\<lambda>d. d) p In =
    Inr \<lparr>zo_class = STATUS, zo_dir = In, zo_length = uint (p ! 0), zo_payload = drop 2 p,
         zo_PROTO = 0x13, zo_body = Status_Body \<lparr>s_batt = 80, s_ver = 3, s_timezone = 2,
         s_intvl = 25, s_signal = Some 7\<rparr>, zo_cause = None\<rparr>"
proof -
  let ?b = "Status_Body \<lparr>s_batt = 80, s_ver = 3, s_timezone = 2, s_intvl = 25, s_signal = Some 7\<rparr>"
  have e: "zx_In_packed STATUS ?b = Inr [6, 0x13, 80, 3, 2, 25, 7]"
    by (simp add: zx_In_packed_def status_in_encode_def zx_packed_def pack_uint_def)
  have "zx_body_wf (\<lambda>d. d) ?b" by (simp add: zx_body_wf_def)
  from zx_message_roundtrip [OF this e] e show ?thesis by auto
qed

section \<open>Responses\<close>

lemma dec_nat_2: "n < 100 \<Longrightarrow> dec_nat n = (if n < 10 then [48 + n] else [48 + n div 10, 48 + n mod 10])"
  by (cases "n div 10 < 10") (simp_all add: dec_nat.simps [of n] dec_nat.simps [of "n div 10"])

lemma pad_dec_2:
  assumes "0 \<le> i" and "i < 100"
  shows "pad_dec 2 i = [48 + nat i div 10, 48 + nat i mod 10]"
proof -
  have "nat i < 100" using assms by simp
  then show ?thesis by (auto simp: pad_dec_def dec_nat_2 Let_def)
qed

text \<open>Two decimal digits are one byte in binary-coded decimal.\<close>

lemma fromhex_pad_dec:
  assumes "0 \<le> i" and "i < 100" and "fromhex s = Inr bs"
  shows "\<exists>w. fromhex (pad_dec 2 i @ s) = Inr (w # bs)"
proof -
  have "nat i div 10 < 10" "nat i mod 10 < 10" using assms by (simp_all add: div_less_iff_less_mult)
  moreover have "\<not> ascii_space (48 + d)" "unhexdigit (48 + d) = Some d" if "d < 10" for d
    using that by (auto simp: ascii_space_def unhexdigit_def)
  ultimately show ?thesis using assms by (simp add: pad_dec_2)
qed

definition clock_fields :: "datetime \<Rightarrow> int list" where
  "clock_fields now =
     [dt_year now mod 100, dt_month now, dt_day now, dt_hour now, dt_minute now, dt_second now]"

lemma clock_field_bounds: "valid_datetime now \<Longrightarrow> i \<in> set (clock_fields now) \<Longrightarrow> 0 \<le> i \<and> i < 100"
  by (auto simp: clock_fields_def valid_datetime_def days_in_month_def split: if_splits)

lemma fromhex_fields: "\<forall>i \<in> set is. 0 \<le> i \<and> i < 100 \<Longrightarrow>
    \<exists>bs. fromhex (concat (map (pad_dec 2) is)) = Inr bs \<and> length bs = length is"
proof (induction "is")
  case (Cons i "is")
  then obtain bs where "fromhex (concat (map (pad_dec 2) is)) = Inr bs" "length bs = length is"
    by auto
  with fromhex_pad_dec [of i _ bs] Cons.prems show ?case by fastforce
qed simp

lemma map_res_pack1: "\<forall>i \<in> set is. 0 \<le> i \<and> i < 256 \<Longrightarrow>
    concat_res (map (pack_uint 1) is) = Inr (map word_of_int is)"
  by (induction "is") (simp_all add: pack_uint_def)

lemma clock_encodings:
  assumes "valid_datetime now"
  shows "\<exists>bs. gps_out_encode now = Inr bs \<and> length bs = 6"
    and "\<exists>bs. wifi_offline_out_encode now = Inr bs \<and> length bs = 6"
    and "\<exists>bs. time_out_encode now = Inr bs \<and> length bs = 7"
proof -
  have f: "\<forall>i \<in> set (clock_fields now). 0 \<le> i \<and> i < 100" using clock_field_bounds [OF assms] by blast
  then have "concat_res (map (pack_uint 1) (clock_fields now)) = Inr (map word_of_int (clock_fields now))"
    by (intro map_res_pack1) fastforce
  then show "\<exists>bs. gps_out_encode now = Inr bs \<and> length bs = 6"
    by (simp add: gps_out_encode_def clock_fields_def)
  from fromhex_fields [OF f] show "\<exists>bs. wifi_offline_out_encode now = Inr bs \<and> length bs = 6"
    by (simp add: wifi_offline_out_encode_def clock_fields_def numeral_eq_Suc)
  have t: "concat_res (map (pack_uint 1) (tl (clock_fields now))) =
      Inr (map word_of_int (tl (clock_fields now)))"
    using f by (intro map_res_pack1) (fastforce simp: clock_fields_def)
  moreover have "0 \<le> dt_year now" "dt_year now < 65536" using assms by (auto simp: valid_datetime_def)
  ultimately show "\<exists>bs. time_out_encode now = Inr bs \<and> length bs = 7"
    by (simp add: time_out_encode_def clock_fields_def pack_uint_def)
qed

lemma zx_INL_packed:
  assumes "zx_RESPOND c = INL" and "valid_datetime now"
  shows "\<exists>pl. zx_Out_packed rep now c [] =
      Inr (word_of_int (int (length pl) + 1) # word_of_int (zx_PROTO c) # pl) \<and> length pl \<le> 7"
proof -
  have "c \<in> {LOGIN, HEARTBEAT, GPS_POSITIONING, GPS_OFFLINE_POSITIONING, WIFI_OFFLINE_POSITIONING, TIME}"
    using assms(1) by (cases c) simp_all
  moreover from clock_encodings [OF assms(2)] obtain g w t where
    "gps_out_encode now = Inr g" "length g = 6" "wifi_offline_out_encode now = Inr w" "length w = 6"
    "time_out_encode now = Inr t" "length t = 7" by blast
  ultimately show ?thesis
    by (auto simp: zx_Out_packed_def init_kwargs_def zx_packed_def pack_uint_def)
qed

text \<open>
  C21: On every packet of two or more bytes \<open>inline_response\<close> returns. It answers exactly
  the messages whose class asks for an inline response, and the answer repeats the packet's
  protocol number, counts its own length in its first byte and has at most nine bytes.
\<close>

theorem zx_inline_reply:
  assumes "2 \<le> length packet" and "valid_datetime now"
  shows "\<exists>r. zx_inline_response rep now packet = Inr r \<and>
    (r \<noteq> None) = (\<exists>c \<in> set zx_all. zx_PROTO c = uint (packet ! 1) \<and> zx_RESPOND c = INL) \<and>
    (\<forall>reply \<in> set_option r. reply ! 1 = packet ! 1 \<and> unat (reply ! 0) + 1 = length reply \<and>
       length reply \<le> 9)"
proof (cases "\<exists>c. zx_CLASSES (uint (packet ! 1)) = Some c \<and> zx_RESPOND c = INL")
  case True
  then obtain c where c: "zx_CLASSES (uint (packet ! 1)) = Some c" "zx_RESPOND c = INL" by blast
  from zx_INL_packed [OF c(2) assms(2)] obtain pl where
    pl: "zx_Out_packed rep now c [] =
      Inr (word_of_int (int (length pl) + 1) # word_of_int (zx_PROTO c) # pl)" "length pl \<le> 7" by blast
  have "zx_PROTO c = uint (packet ! 1)" using c(1) by (simp add: zx_CLASSES_PROTO)
  moreover have "unat (word_of_int (int (length pl) + 1) :: byte) = length pl + 1"
    using pl(2) uint_word_of_int_byte [of "int (length pl) + 1"] by (simp flip: nat_uint_eq)
  moreover have "pyget packet 1 = Inr (packet ! 1)" using assms(1) by (simp add: pyget_def)
  ultimately show ?thesis
    using c pl zx_all_UNIV by (auto simp: zx_inline_response_def)
next
  case False
  have "pyget packet 1 = Inr (packet ! 1)" using assms(1) by (simp add: pyget_def)
  moreover have "\<not> (\<exists>c \<in> set zx_all. zx_PROTO c = uint (packet ! 1) \<and> zx_RESPOND c = INL)"
    using False by (auto simp: zx_CLASSES_PROTO)
  ultimately show ?thesis using False
    by (auto simp: zx_inline_response_def split: option.split)
qed

theorem zx_inline_reply_witness:
  "\<exists>r. zx_inline_response (\<lambda>v. []) \<lparr>dt_year = 2022, dt_month = 5, dt_day = 1, dt_hour = 12,
       dt_minute = 0, dt_second = 59\<rparr> [1, 0x30] = Inr r \<and>
    (r \<noteq> None) = (\<exists>c \<in> set zx_all. zx_PROTO c = uint ([1, 0x30 :: byte] ! 1) \<and> zx_RESPOND c = INL) \<and>
    (\<forall>reply \<in> set_option r. reply ! 1 = [1, 0x30 :: byte] ! 1 \<and>
       unat (reply ! 0) + 1 = length reply \<and> length reply \<le> 9)"
  by (rule zx_inline_reply) (simp_all add: valid_datetime_def days_in_month_def)

text \<open>The keyword defaults of every class, and which of them can be sent as they are.\<close>

definition zx_unsendable :: "zx_class set" where
  "zx_unsendable = {UNKNOWN, REMOTE_MONITOR_PHONE, SOS_PHONE, DAD_PHONE, MOM_PHONE, WIFI_POSITIONING}"

lemma py_int_dd: "a < 10 \<Longrightarrow> b < 10 \<Longrightarrow> py_int [48 + a, 48 + b] = Inr (int (10 * a + b))"
  by (auto simp: py_int_def strip_space_def py_space_def split_sign_def unhexdigit_def)

lemma u0: "u ''0000'' = [48,48,48,48]" "u ''2359'' = [50,51,53,57]" "u ''00000000'' = [48,48,48,48,48,48,48,48]"
  by simp_all

lemma py00: "py_int [48,48] = Inr 0" "py_int [50,51] = Inr 23" "py_int [53,57] = Inr 59"
  using py_int_dd [of 0 0] py_int_dd [of 2 3] py_int_dd [of 5 9] by simp_all

lemma hhmm_defaults:
  "hhmm (VStr [48,48,48,48]) = Inr (VStr [48,48,48,48])"
  "hhmm (VStr [50,51,53,57]) = Inr (VStr [50,51,53,57])"
  "hhmmhhmm (VStr [48,48,48,48,48,48,48,48]) = Inr (VStr [48,48,48,48,48,48,48,48])"
  by (simp_all add: hhmm_str_def py00)

lemma replicate_3: "replicate 3 x = [x, x, x]"
  by (simp add: numeral_3_eq_3)

lemma alarm_default: "l3alarms (VList []) = Inr (VList (replicate 3 (VTup [VInt 0, VStr [48,48,48,48]])))"
  by (simp add: l3alarms_def replicate_3 unpack_pair_def hhmm_defaults del: hhmm.simps)

lemma setup_defaults:
  "l3str (VList [VStr [], VStr [], VStr []]) = Inr (VList [VStr [], VStr [], VStr []])"
  "l3int (VList [VInt 0, VInt 0, VInt 0]) = Inr (VList [VInt 0, VInt 0, VInt 0])"
  by (simp_all add: l3str_def l3int_def)

lemma fromhex_defaults:
  "fromhex [48,48,48,48] = Inr [0, 0]" "fromhex [50,51,53,57] = Inr [0x23, 0x59]"
  "fromhex [48,48,48,48,48,48,48,48] = Inr [0, 0, 0, 0]"
  by (simp_all add: ascii_space_def unhexdigit_def)

lemma default_unsendable:
  "c \<in> zx_unsendable \<Longrightarrow> \<not> returns (zx_Out_packed rep now c [])"
  unfolding zx_unsendable_def
  by (auto simp: zx_Out_packed_def init_kwargs_def zx_packed_def pack_uint_def res_simps)

lemma default_sendable:
  assumes "c \<notin> zx_unsendable" and "valid_datetime now"
  shows "returns (zx_Out_packed rep now c [])"
proof -
  from clock_encodings [OF assms(2)] obtain g w t where
    "gps_out_encode now = Inr g" "length g = 6" "wifi_offline_out_encode now = Inr w" "length w = 6"
    "time_out_encode now = Inr t" "length t = 7" by blast
  with assms(1) show ?thesis
    by (cases c)
      (simp_all add: zx_unsendable_def zx_Out_packed_def init_kwargs_def zx_packed_def pack_uint_def
        pack_attr_def fromhex_attr_def seq_attr_def hhmm_defaults fromhex_defaults setup_defaults
        alarm_default alarm_out_encode_def setup_out_encode_def pack3b_def unpack_pair_def
        utf8_encode_def replicate_3 del: hhmm.simps hhmmhhmm.simps fromhex.simps)
qed


text \<open>
  With its defaults, a message for the terminal can be packed exactly when its class is
  not one of six: the four phone-number messages, whose \<open>out_encode\<close> asks for the codec
  named by the empty string; \<open>WIFI_POSITIONING\<close>, whose default \<open>None\<close> is no float;
  and \<open>UNKNOWN\<close>, whose number does not fit a byte.
\<close>

theorem zx_default_out:
  assumes "valid_datetime now"
  shows "returns (zx_Out_packed rep now c []) \<longleftrightarrow> c \<notin> zx_unsendable"
  using default_unsendable default_sendable [OF _ assms] by blast

theorem zx_default_out_witness:
  "returns (zx_Out_packed (\<lambda>v. []) \<lparr>dt_year = 2022, dt_month = 5, dt_day = 1, dt_hour = 12,
       dt_minute = 0, dt_second = 59\<rparr> SETUP []) \<longleftrightarrow> SETUP \<notin> zx_unsendable"
  by (rule zx_default_out) (simp add: valid_datetime_def days_in_month_def)

lemma set_kwargs_phone: "set_kwargs [(u ''phone'', conv_str rep, VStr [])] kwargs = Inr (a, r) \<Longrightarrow>
    \<exists>v. a = [(u ''phone'', v)]"
  by (auto simp: res_simps simp del: list.map)

text \<open>
  No arguments make a phone-number message packable: its encoder raises
  \<open>LookupError\<close> for any phone number.
\<close>

theorem zx_phone_unsendable:
  assumes "c \<in> {REMOTE_MONITOR_PHONE, SOS_PHONE, DAD_PHONE, MOM_PHONE}"
  shows "zx_Out_packed rep now c [(u ''phone'', VStr number)] = Inl LookupError \<and>
    \<not> returns (zx_Out_packed rep now c kwargs)"
proof -
  have c: "zx_OUT_KWARGS rep c = [(u ''phone'', conv_str rep, VStr [])]"
    and e: "zx_out_encode now c a = and_then (attr a (u ''phone'')) (\<lambda>_. Inl LookupError)" for a
    using assms by auto
  have "zx_Out_packed rep now c [(u ''phone'', VStr number)] = Inl LookupError"
    unfolding zx_Out_packed_def c e by (simp add: init_kwargs_def)
  moreover have "\<not> returns (zx_Out_packed rep now c kwargs)"
    unfolding zx_Out_packed_def c e by (simp add: returns_and_then and_then_Inr del: set_kwargs.simps)
  ultimately show ?thesis by blast
qed

theorem zx_phone_unsendable_witness:
  "zx_Out_packed (\<lambda>v. []) \<lparr>dt_year = 2022, dt_month = 5, dt_day = 1, dt_hour = 12,
       dt_minute = 0, dt_second = 59\<rparr> SOS_PHONE [(u ''phone'', VStr (u ''112''))] = Inl LookupError \<and>
    \<not> returns (zx_Out_packed (\<lambda>v. []) \<lparr>dt_year = 2022, dt_month = 5, dt_day = 1, dt_hour = 12,
       dt_minute = 0, dt_second = 59\<rparr> SOS_PHONE [])"
  by (rule zx_phone_unsendable) simp

section \<open>Names, reports, prefixes\<close>

lemma zx_proto_name_inj: "inj zx_proto_name"
proof -
  have "distinct (map zx_proto_name zx_all)" by (simp add: zx_all_def zx_proto_name_def ZX_PREFIX_def)
  then show ?thesis by (simp add: distinct_map zx_all_UNIV)
qed

text \<open>
  The name under which a message is published fits the sixteen characters of the topic
  and starts with the module's tag, and two messages have the same name only if they have
  the same class: no two classes collide where their names are cut.
\<close>

theorem zx_topic_names:
  assumes "2 \<le> length p" and "2 \<le> length q"
  shows "\<exists>m n. zx_proto_of_message p = Inr m \<and> zx_proto_of_message q = Inr n \<and>
    length m \<le> 16 \<and> zx_proto_handled m \<and> ascii m \<and>
    (m = n) = (zx_CLASSES (uint (p ! 1)) = zx_CLASSES (uint (q ! 1)))"
proof -
  let ?cls = "\<lambda>p. case zx_CLASSES (uint (p ! 1)) of Some c \<Rightarrow> c | None \<Rightarrow> UNKNOWN"
  have n: "zx_proto_of_message p = Inr (zx_proto_name (?cls p))" if "2 \<le> length p" for p :: bytes
    using that by (simp add: zx_proto_of_message_def pyget_def)
  have not_unknown: "zx_CLASSES (uint (w :: byte)) \<noteq> Some UNKNOWN" for w
    using unsigned_less [of w, where ?'a = int] by (simp add: zx_CLASSES_PROTO)
  have "(?cls p = ?cls q) = (zx_CLASSES (uint (p ! 1)) = zx_CLASSES (uint (q ! 1)))"
    using not_unknown [of "p ! 1"] not_unknown [of "q ! 1"] by (auto split: option.splits)
  then have "(zx_proto_name (?cls p) = zx_proto_name (?cls q)) =
      (zx_CLASSES (uint (p ! 1)) = zx_CLASSES (uint (q ! 1)))"
    by (simp add: inj_eq [OF zx_proto_name_inj])
  moreover have "length (zx_proto_name c) \<le> 16" for c by (simp add: zx_proto_name_def)
  moreover have "zx_proto_handled (zx_proto_name c)" for c
    by (simp add: zx_proto_handled_def zx_proto_name_def ZX_PREFIX_def)
  moreover have "ascii (zx_proto_name c)" for c
    by (cases c) (simp_all add: ascii_def zx_proto_name_def ZX_PREFIX_def)
  ultimately show ?thesis using n [OF assms(1)] n [OF assms(2)] by blast
qed

theorem zx_topic_names_witness:
  "\<exists>m n. zx_proto_of_message [1, 0x17] = Inr m \<and> zx_proto_of_message [1, 0x69] = Inr n \<and>
    length m \<le> 16 \<and> zx_proto_handled m \<and> ascii m \<and>
    (m = n) = (zx_CLASSES (uint ([1 :: byte, 0x17] ! 1)) = zx_CLASSES (uint ([1 :: byte, 0x69] ! 1)))"
  by (rule zx_topic_names) simp_all

text \<open>
  Looking a class up by a prefix of its name never finds one. The names are compared with the
  whole prefix, tag included, and no class name starts with the tag; without the tag the
  function trips over an unbound name.
\<close>

theorem zx_class_by_prefix_useless:
  "zx_class_by_prefix pfx =
     (if prefix ZX_PREFIX pfx then Inr (Inr []) else Inl UnboundLocalError)"
proof (cases "prefix ZX_PREFIX pfx")
  case True
  then obtain s where s: "pfx = ZX_PREFIX @ s" by (auto simp: prefix_def)
  have z: "\<not> prefix (90 # xs) (ascii_upper (zx_name c))" for xs c
    by (cases c) (simp_all add: ascii_upper_def)
  have "ascii_upper pfx = 90 # tl (ascii_upper pfx)"
    by (simp add: s ZX_PREFIX_def ascii_upper_def)
  then have "\<not> prefix (ascii_upper pfx) (ascii_upper n)" if "(n, p) \<in> set zx_PROTOS" for n p
    using that z [of "tl (ascii_upper pfx)"] by (auto simp: zx_PROTOS_def)
  then have "filter (\<lambda>(n, p). prefix (ascii_upper pfx) (ascii_upper n)) zx_PROTOS = []"
    by (auto simp: filter_empty_conv)
  with True show ?thesis by (simp add: zx_class_by_prefix_def)
qed (simp add: zx_class_by_prefix_def)


lemma zx_rectified_cases:
  assumes "zx_parse_message tz packet In = Inr m"
    and "zx_proto_of_message packet = Inr name"
    and "name \<in> fst ` set zx_exposed_protos"
  shows "(if zo_cause m = None
      then \<exists>r. zx_rectified m = Inr r \<and>
        (report_TYPE r = u ''location'') = (zo_class m \<in> {GPS_POSITIONING, GPS_OFFLINE_POSITIONING}) \<and>
        (report_TYPE r = u ''status'') = (zo_class m = STATUS) \<and>
        zx_CLASSES (uint (packet ! 1)) = Some (zo_class m)
      else zx_rectified m = Inl AttributeError)"
proof -
  have "\<not> length packet < 2" using assms(1) by (auto simp: zx_parse_total split: if_splits)
  then obtain l p ys where packet: "packet = l # p # ys" using two_bytes [of packet] by auto
  from assms(3) obtain c0 where c0: "zx_has_rectified c0" "name = zx_proto_name c0"
    by (auto simp: zx_exposed_protos_def)
  with assms(2) have cls: "zx_CLASSES (uint p) = Some c0"
    by (auto simp: packet zx_proto_of_message_def pyget_def inj_eq [OF zx_proto_name_inj]
        split: option.splits)
  show ?thesis
  proof (cases "zx_decode tz In c0 (unat l) ys")
    case (Inl e)
    then have "m = zx_unknown In (uint l) ys (uint p) e"
      using assms(1) cls by (simp add: packet zx_parse_two)
    then show ?thesis by (simp add: zx_unknown_def zx_rectified_def)
  next
    case (Inr body)
    then have m: "m = \<lparr>zo_class = c0, zo_dir = In, zo_length = uint l, zo_payload = ys,
        zo_PROTO = uint p, zo_body = body, zo_cause = None\<rparr>"
      using assms(1) cls by (simp add: packet zx_parse_two)
    from Inr c0(1) have "(case body of Gps_Body g \<Rightarrow> c0 \<in> {GPS_POSITIONING, GPS_OFFLINE_POSITIONING}
        | Status_Body st \<Rightarrow> c0 = STATUS
        | Wifi_Body w \<Rightarrow> c0 \<in> {WIFI_POSITIONING, WIFI_OFFLINE_POSITIONING} | _ \<Rightarrow> False)"
      by (cases c0) (auto simp: zx_decode_def gps_in_decode_def status_in_decode_def
          wifi_in_decode_def Let_def res_simps split: if_splits list.splits)
    with c0(1) cls show ?thesis by (auto simp: m packet zx_rectified_def split: zx_body.splits)
  qed
qed

text \<open>
  A message whose name the module exposes can be turned into a report exactly when it
  was parsed: of a GPS message the position, of a status message the battery, of a WiFi
  message the surroundings. A malformed one (an object with a cause) has no \<open>rectified\<close>, and the
  attempt raises \<open>AttributeError\<close>.
\<close>

theorem zx_rectified_iff:
  assumes "zx_parse_message tz packet In = Inr m"
    and "zx_proto_of_message packet = Inr name"
    and "name \<in> fst ` set zx_exposed_protos"
  shows "(if zo_cause m = None
      then \<exists>r. zx_rectified m = Inr r \<and>
        (report_TYPE r = u ''location'') = (zo_class m \<in> {GPS_POSITIONING, GPS_OFFLINE_POSITIONING}) \<and>
        (report_TYPE r = u ''status'') = (zo_class m = STATUS)
      else zx_rectified m = Inl AttributeError)"
  using zx_rectified_cases [OF assms] by (auto split: if_splits)

theorem zx_rectified_iff_witness:
  "\<exists>m. zx_parse_message (\<lambda>d. d) [3, 0x13, 80] In = Inr m \<and> zo_cause m = Some DecodeError \<and>
     zx_proto_of_message [3, 0x13, 80] = Inr (u ''ZX:STATUS'') \<and> zx_rectified m = Inl AttributeError"
proof -
  let ?p = "[3, 0x13, 80] :: bytes"
  let ?m = "zx_unknown In 3 [80] 0x13 DecodeError"
  have cls: "zx_CLASSES 0x13 = Some STATUS" by (simp add: zx_CLASSES_PROTO)
  then have parse: "zx_parse_message (\<lambda>d. d) ?p In = Inr ?m"
    by (simp add: zx_parse_two zx_decode_def status_in_decode_def)
  have name: "zx_proto_of_message ?p = Inr (zx_proto_name STATUS)"
    using cls by (simp add: zx_proto_of_message_def pyget_def)
  have "zx_proto_name STATUS \<in> fst ` set zx_exposed_protos"
    by (auto simp: zx_exposed_protos_def zx_all_UNIV image_iff intro!: exI [of _ STATUS])
  from zx_rectified_iff [OF parse name this]
  have "zx_rectified ?m = Inl AttributeError" by (simp add: zx_unknown_def)
  with parse name show ?thesis by (simp add: zx_unknown_def zx_proto_name_def ZX_PREFIX_def)
qed

section \<open>Positions\<close>

lemma and_mask_1023: "(x :: int) AND 0b1111111111 = x mod 1024"
  using take_bit_eq_mask [of 10 x] by (simp add: mask_eq_exp_minus_1 take_bit_eq_mod)

lemma and_mask_15: "(x :: int) AND 0x0F = x mod 16"
  using take_bit_eq_mask [of 4 x] by (simp add: mask_eq_exp_minus_1 take_bit_eq_mod)

lemma and_power_bit: "(x AND 0b0000010000000000 \<noteq> 0) = bit (x :: int) 10"
  "(x AND 0b0000100000000000 \<noteq> 0) = bit x 11" "(x AND 0b0001000000000000 \<noteq> 0) = bit x 12"
  using and_exp_eq_0_iff_not_bit [of x 10] and_exp_eq_0_iff_not_bit [of x 11]
    and_exp_eq_0_iff_not_bit [of x 12] by simp_all

text \<open>
  A GPS payload with a valid date and at least eighteen bytes is decoded into the
  position it encodes: the coordinates are the two big-endian numbers in 1/30000 of a minute, south
  where flag bit 10 is clear and west where bit 11 is set; the heading is the low ten bits
  of the flags, validity bit 12, and the byte before splits into data length and satellites.
\<close>

theorem zx_gps_position:
  assumes "18 \<le> length p" and "gps_devtime (take 6 p) = Inr dt"
  shows "\<exists>g. gps_in_decode p = Inr (Gps_Body g) \<and> g_devtime g = dt \<and>
    1800000 * g_latitude g =
      of_int (if bit (g_flags g) 10 then be (pyslice 7 11 p) else - be (pyslice 7 11 p)) \<and>
    1800000 * g_longitude g =
      of_int (if bit (g_flags g) 11 then - be (pyslice 11 15 p) else be (pyslice 11 15 p)) \<and>
    g_flags g = be (pyslice 16 18 p) \<and> g_heading g = g_flags g mod 1024 \<and>
    g_gps_is_valid g = bit (g_flags g) 12 \<and> g_speed g = uint (p ! 15) \<and>
    16 * g_gps_data_length g + g_gps_nb_sat g = uint (p ! 6)"
proof -
  have s: "pyslice a b (pyslice 7 18 p) = pyslice (7 + a) (7 + b) p" if "b \<le> 11" for a b
    using that by (simp add: pyslice_def take_drop min_def add.commute)
  have n: "pyslice 7 18 p ! 8 = p ! 15" using assms(1) by (simp add: pyslice_def)
  show ?thesis
    using assms s [of 4 0] s [of 8 4] s [of 11 9] n
    by (simp add: gps_in_decode_def pyget_def Let_def and_mask_1023 and_mask_15 and_power_bit)
qed

theorem zx_gps_position_witness:
  "\<exists>g. gps_in_decode [22, 5, 1, 12, 0, 0, 0x9C, 3, 0, 0, 0, 1, 0, 0, 0, 50, 0x14, 0x5A] =
      Inr (Gps_Body g) \<and> 1800000 * g_latitude g = 50331648 \<and> g_heading g = 90"
proof -
  let ?p = "[22, 5, 1, 12, 0, 0, 0x9C, 3, 0, 0, 0, 1, 0, 0, 0, 50, 0x14, 0x5A] :: bytes"
  have "gps_devtime (take 6 ?p) = Inr (Some \<lparr>dt_year = 2022, dt_month = 5, dt_day = 1,
      dt_hour = 12, dt_minute = 0, dt_second = 0\<rparr>)"
    by (simp add: gps_devtime_def NUL6_def Cons_replicate_eq mk_datetime_def valid_datetime_def days_in_month_def)
  from zx_gps_position [OF _ this] obtain g where
    "gps_in_decode ?p = Inr (Gps_Body g)" and f: "g_flags g = be (pyslice 16 18 ?p)"
    and h: "g_heading g = g_flags g mod 1024"
    and l: "1800000 * g_latitude g =
      of_int (if bit (g_flags g) 10 then be (pyslice 7 11 ?p) else - be (pyslice 7 11 ?p))"
    by auto
  moreover have "be (pyslice 16 18 ?p) = 5210" "be (pyslice 7 11 ?p) = 50331648"
    by (simp_all add: be_def pyslice_def)
  moreover have "bit (5210 :: int) 10" by (simp add: bit_iff_odd)
  ultimately show ?thesis by auto
qed

end
