(* ===== verification/BS_Stream.thy ===== *)
theory BS_Stream
  imports Proto_Module Pynum
begin

text \<open>
  The deframer of the beesure protocol (\<open>_framestart\<close>, \<open>class Stream\<close> and \<open>enframe\<close> of
  \<open>loctrkd/beesure.py\<close>). A packet is its own frame: a header of twenty bytes
  \<open>[VV*IIIIIIIIII*LLLL*\<close> with a vendor, an IMEI of ten digits and the data length in
  hexadecimal, then the data, then a closing bracket. The state of a stream is its buffer, the
  IMEI seen first, and the data length of the packet being received (zero where no header has
  been seen).
\<close>

definition BS_MAXBUFFER :: nat where
  "BS_MAXBUFFER = 65557"

section \<open>Headers\<close>

text \<open>The character classes of the regular expression, on bytes: \<open>\w\<close>, \<open>\d\<close>, \<open>[0-9a-fA-F]\<close>.\<close>

definition re_digit :: "byte \<Rightarrow> bool" where
  "re_digit b \<longleftrightarrow> 48 \<le> unat b \<and> unat b \<le> 57"

definition re_word :: "byte \<Rightarrow> bool" where
  "re_word b \<longleftrightarrow> re_digit b \<or> (65 \<le> unat b \<and> unat b \<le> 90) \<or> unat b = 95 \<or>
     (97 \<le> unat b \<and> unat b \<le> 122)"

definition re_hex :: "byte \<Rightarrow> bool" where
  "re_hex b \<longleftrightarrow> unhexdigit (unat b) \<noteq> None"

text \<open>The expression \<open>RE\<close> matches at the start of \<open>xs\<close>; a match has twenty bytes.\<close>

definition bs_header :: "bytes \<Rightarrow> bool" where
  "bs_header xs \<longleftrightarrow> 20 \<le> length xs \<and> xs ! 0 = 91 \<and> list_all re_word (pyslice 1 3 xs) \<and>
     xs ! 3 = 42 \<and> list_all re_digit (pyslice 4 14 xs) \<and> xs ! 14 = 42 \<and>
     list_all re_hex (pyslice 15 19 xs) \<and> xs ! 19 = 42"

text \<open>\<open>RE.search\<close>: the first position where it matches.\<close>

fun bs_search :: "bytes \<Rightarrow> nat option" where
  "bs_search [] = None"
| "bs_search (x # xs) = (if bs_header (x # xs) then Some 0 else map_option Suc (bs_search xs))"

definition hdr_vendor :: "bytes \<Rightarrow> pystr" where
  "hdr_vendor xs = map unat (pyslice 1 3 xs)"

definition hdr_imei :: "bytes \<Rightarrow> pystr" where
  "hdr_imei xs = map unat (pyslice 4 14 xs)"

definition hdr_datalen :: "bytes \<Rightarrow> nat" where
  "hdr_datalen xs = hex_value (map unat (pyslice 15 19 xs))"

text \<open>\<open>None\<close> stands for the offset \<open>-1\<close>.\<close>

definition bs_framestart :: "bytes \<Rightarrow> (nat \<times> pystr \<times> pystr \<times> nat) option" where
  "bs_framestart buffer =
     (case bs_search buffer of
        None \<Rightarrow> None
      | Some i \<Rightarrow>
          (let m = drop i buffer in Some (i, hdr_vendor m, hdr_imei m, hdr_datalen m)))"

section \<open>Stream\<close>

record bs_stream =
  bs_buffer :: bytes
  bs_imei :: "pystr option"
  bs_datalen :: nat

definition bs_Stream :: bs_stream where
  "bs_Stream = \<lparr>bs_buffer = [], bs_imei = None, bs_datalen = 0\<rparr>"

text \<open>The first half of a round: find a header where none is pending. \<open>None\<close>: no frame yet.\<close>

definition bs_start :: "bs_stream \<Rightarrow> (stream_msg list \<times> bs_stream) option" where
  "bs_start s =
     (if bs_datalen s = 0 then
        (case bs_framestart (bs_buffer s) of
           None \<Rightarrow> None
         | Some (toskip, vendor, imei, datalen) \<Rightarrow>
             (let skipped = (if toskip > 0
                    then [Undecodable toskip (take 64 (take toskip (bs_buffer s)))] else []);
                  buf = (if toskip > 0 then drop toskip (bs_buffer s) else bs_buffer s);
                  own = (case bs_imei s of None \<Rightarrow> imei | Some i \<Rightarrow> i);
                  mismatch = (if own \<noteq> imei then [Imei_Mismatch imei own] else [])
              in Some (skipped @ mismatch,
                   s\<lparr>bs_buffer := buf, bs_imei := Some own, bs_datalen := datalen\<rparr>)))
      else Some ([], s))"

text \<open>The second half: take the packet off the buffer once it is complete.\<close>

definition bs_finish :: "stream_msg list \<Rightarrow> bs_stream \<Rightarrow> bs_stream round" where
  "bs_finish msgs s =
     (let buf = bs_buffer s; dl = bs_datalen s in
      if length buf < dl + 21 then Break msgs s
      else
        (let msg = (if buf ! (dl + 20) = 93 then Packet (take (dl + 21) buf)
                    else Bad_End (dl + 20) (take 64 buf))
         in Again (msgs @ [msg]) (s\<lparr>bs_buffer := drop (dl + 21) buf, bs_datalen := 0\<rparr>)))"

definition bs_round :: "bs_stream \<Rightarrow> bs_stream round" where
  "bs_round s = (case bs_start s of None \<Rightarrow> Break [] s | Some (msgs, s') \<Rightarrow> bs_finish msgs s')"

lemma bs_start_size: "bs_start s = Some (ms, s') \<Longrightarrow> length (bs_buffer s') \<le> length (bs_buffer s)"
  by (auto simp: bs_start_def Let_def split: if_splits option.splits)

lemma bs_round_shrinks: "bs_round s = Again ms s' \<Longrightarrow> length (bs_buffer s') < length (bs_buffer s)"
  by (auto simp: bs_round_def bs_finish_def Let_def dest!: bs_start_size split: option.splits if_splits)

function bs_loop :: "bs_stream \<Rightarrow> stream_msg list \<times> bs_stream" where
  "bs_loop s = (case bs_round s of
      Break ms s' \<Rightarrow> (ms, s')
    | Again ms s' \<Rightarrow> (ms @ fst (bs_loop s'), snd (bs_loop s')))"
  by pat_completeness auto
termination
  by (relation "measure (\<lambda>s. length (bs_buffer s))") (auto dest: bs_round_shrinks)

declare bs_loop.simps [simp del]

definition bs_recv :: "bs_stream \<Rightarrow> bytes \<Rightarrow> stream_msg list \<times> bs_stream" where
  "bs_recv s segment =
     (let s1 = s\<lparr>bs_buffer := bs_buffer s @ segment\<rparr>
      in if length (bs_buffer s1) > BS_MAXBUFFER
         then ([Too_Much_Junk BS_MAXBUFFER], s1\<lparr>bs_buffer := []\<rparr>)
         else bs_loop s1)"

definition bs_close :: "bs_stream \<Rightarrow> bytes \<times> bs_stream" where
  "bs_close s = (bs_buffer s, s\<lparr>bs_buffer := [], bs_imei := None, bs_datalen := 0\<rparr>)"

text \<open>
  \<open>enframe\<close> puts the terminal's IMEI and the data length as four digits into the header.
  The header pads nothing: a vendor has two characters and the IMEI was checked to have ten.
\<close>

definition bs_enframe :: "bytes \<Rightarrow> pystr option \<Rightarrow> bytes res" where
  "bs_enframe buffer imei =
     (case imei of
        None \<Rightarrow> Inl AssertionError
      | Some im \<Rightarrow>
          if length im \<noteq> 10 then Inl AssertionError
          else (case bs_framestart buffer of
              Some (0, vid, old, dlen) \<Rightarrow>
                and_then (utf8_encode ([91] @ vid @ [42] @ im @ [42] @ format_04X dlen @ [42]))
                  (\<lambda>hdr. Inr (hdr @ drop 20 buffer))
            | _ \<Rightarrow> Inl AssertionError))"

section \<open>The deframer laws\<close>

lemma nth_append_lt: "i < length xs \<Longrightarrow> (xs @ ys) ! i = xs ! i"
  by (simp add: nth_append)

lemma bs_header_append: "bs_header xs \<Longrightarrow> bs_header (xs @ ys)"
  by (auto simp: bs_header_def nth_append pyslice_append)

lemma bs_header_take: "20 \<le> length xs \<Longrightarrow> bs_header (xs @ ys) \<longleftrightarrow> bs_header xs"
  by (auto simp: bs_header_def nth_append pyslice_append)

lemma hdr_append:
  assumes "20 \<le> length xs"
  shows "hdr_vendor (xs @ ys) = hdr_vendor xs" "hdr_imei (xs @ ys) = hdr_imei xs"
    "hdr_datalen (xs @ ys) = hdr_datalen xs"
  using assms by (simp_all add: hdr_vendor_def hdr_imei_def hdr_datalen_def pyslice_append)

lemma bs_search_Some: "bs_search xs = Some i \<longleftrightarrow>
    i < length xs \<and> bs_header (drop i xs) \<and> (\<forall>j<i. \<not> bs_header (drop j xs))"
proof (induction xs arbitrary: i)
  case (Cons x xs)
  show ?case
  proof (cases i)
    case 0
    then show ?thesis by auto
  next
    case (Suc k)
    then show ?thesis using Cons.IH [of k] by (auto simp: All_less_Suc2)
  qed
qed simp

lemma bs_header_long: "bs_header xs \<Longrightarrow> 20 \<le> length xs"
  by (simp add: bs_header_def)

lemma bs_search_append: "bs_search xs = Some i \<Longrightarrow> bs_search (xs @ ys) = Some i"
proof -
  assume a: "bs_search xs = Some i"
  then have i: "i < length xs" "bs_header (drop i xs)" and no: "\<forall>j<i. \<not> bs_header (drop j xs)"
    by (auto simp: bs_search_Some)
  have "20 \<le> length (drop i xs)" using i(2) by (rule bs_header_long)
  then have "\<not> bs_header (drop j (xs @ ys))" if "j < i" for j
    using that i(1) no bs_header_take [of "drop j xs" ys] by simp
  moreover have "bs_header (drop i (xs @ ys))"
    using i bs_header_append [OF i(2), of ys] by simp
  ultimately show ?thesis using i(1) by (simp add: bs_search_Some)
qed

lemma bs_search_0: "bs_search xs = Some 0 \<longleftrightarrow> bs_header xs"
  by (auto simp: bs_search_Some bs_header_def)

lemma bs_start_append:
  assumes "bs_start s = Some (ms, s')"
  shows "bs_start (s\<lparr>bs_buffer := bs_buffer s @ b\<rparr>) =
    Some (ms, s'\<lparr>bs_buffer := bs_buffer s' @ b\<rparr>)"
proof (cases "bs_datalen s = 0")
  case True
  with assms obtain i where i: "bs_search (bs_buffer s) = Some i"
    by (auto simp: bs_start_def bs_framestart_def split: option.splits)
  then have lt: "i < length (bs_buffer s)" and "bs_header (drop i (bs_buffer s))"
    by (auto simp: bs_search_Some)
  from bs_header_long [OF this(2)] have len: "20 \<le> length (drop i (bs_buffer s))" .
  have "bs_framestart (bs_buffer s @ b) = bs_framestart (bs_buffer s)"
    using i lt len by (simp add: bs_framestart_def bs_search_append Let_def hdr_append)
  with assms True lt i show ?thesis
    by (auto simp: bs_start_def Let_def bs_framestart_def)
next
  case False
  with assms show ?thesis by (auto simp: bs_start_def)
qed

text \<open>Once the header is at the start of the buffer, looking for it again finds it there.\<close>

lemma bs_start_again:
  assumes "bs_start s = Some (ms, s')"
  shows "\<exists>ms'. bs_start s' = Some (ms', s') \<and> packets ms' = [] \<and> packets ms = []"
proof (cases "bs_datalen s = 0")
  case True
  with assms obtain i where i: "bs_search (bs_buffer s) = Some i"
    by (auto simp: bs_start_def bs_framestart_def split: option.splits)
  then have "bs_search (drop i (bs_buffer s)) = Some 0"
    by (simp add: bs_search_Some [of "bs_buffer s"] bs_search_0)
  with assms True i show ?thesis
    by (cases "i > 0") (auto simp: bs_start_def Let_def bs_framestart_def split: option.splits if_splits)
next
  case False
  with assms show ?thesis by (auto simp: bs_start_def)
qed

lemma bs_finish_prepend: "bs_finish ms s = prepend ms (bs_finish [] s)"
  by (simp add: bs_finish_def Let_def)

interpretation bs: bounded_deframer bs_round bs_loop
  "\<lambda>s b. s\<lparr>bs_buffer := bs_buffer s @ b\<rparr>" "\<lambda>s. length (bs_buffer s)" bs_recv BS_MAXBUFFER
proof (unfold_locales, goal_cases)
  case (1 s)
  show ?case by (rule bs_loop.simps)
next
  case (2 s ms s')
  then show ?case by (rule bs_round_shrinks)
next
  case (3 s ms s')
  then show ?case
    by (auto simp: bs_round_def bs_finish_def Let_def dest!: bs_start_size split: option.splits if_splits)
next
  case (7 s ms s' b)
  then obtain m1 s1 where st: "bs_start s = Some (m1, s1)" and "bs_finish m1 s1 = Again ms s'"
    by (auto simp: bs_round_def split: option.splits)
  then show ?case
    unfolding bs_round_def bs_start_append [OF st, of b]
    by (auto simp: bs_finish_def Let_def nth_append split: if_splits)
next
  case (8 s ms s' b)
  show ?case
  proof (cases "bs_start s")
    case None
    with 8 show ?thesis by (simp add: bs_round_def)
  next
    case (Some m1s1)
    obtain m1 s1 where ms1: "m1s1 = (m1, s1)" by (cases m1s1)
    with 8 Some have s1: "s1 = s'" "m1 = ms" "packets ms = []"
      using bs_start_again [of s m1 s1]
      by (auto simp: bs_round_def bs_finish_def Let_def split: if_splits)
    from bs_start_again [OF Some [unfolded ms1]] obtain m2 where
      m2: "bs_start s' = Some (m2, s')" "packets m2 = []" by (auto simp: s1)
    let ?t = "s'\<lparr>bs_buffer := bs_buffer s' @ b\<rparr>"
    have r: "bs_round (s\<lparr>bs_buffer := bs_buffer s @ b\<rparr>) = prepend ms (bs_finish [] ?t)"
      "bs_round ?t = prepend m2 (bs_finish [] ?t)"
      using bs_start_append [OF Some [unfolded ms1], of b] bs_start_append [OF m2(1), of b]
        bs_finish_prepend [of ms ?t] bs_finish_prepend [of m2 ?t]
      by (simp_all add: bs_round_def s1)
    from loop_prepend [OF bs_loop.simps r] show ?thesis by (auto simp: s1 m2)
  qed
qed (auto simp: bs_recv_def)

section \<open>Every packet is well formed\<close>

text \<open>A packet with a header, the announced length and the closing bracket\<close>

definition bs_wf :: "bytes \<Rightarrow> bool" where
  "bs_wf p \<longleftrightarrow> bs_header p \<and> length p = hdr_datalen p + 21 \<and> last p = 93"

text \<open>The length that is pending is that of the header at the start of the buffer.\<close>

definition bs_inv :: "bs_stream \<Rightarrow> bool" where
  "bs_inv s \<longleftrightarrow> bs_datalen s = 0 \<or>
     (bs_header (bs_buffer s) \<and> hdr_datalen (bs_buffer s) = bs_datalen s)"

lemma bs_start_inv:
  assumes "bs_start s = Some (ms, s')" and "bs_inv s"
  shows "bs_header (bs_buffer s') \<and> hdr_datalen (bs_buffer s') = bs_datalen s' \<and>
    suffix (bs_buffer s') (bs_buffer s) \<and> packets ms = []"
  using assms
  by (auto simp: bs_start_def bs_inv_def bs_framestart_def Let_def bs_search_Some suffix_drop
      split: if_splits option.splits)

lemma hdr_take: "20 \<le> n \<Longrightarrow> 20 \<le> length xs \<Longrightarrow> bs_header (take n xs) = bs_header xs \<and>
    hdr_datalen (take n xs) = hdr_datalen xs \<and> hdr_imei (take n xs) = hdr_imei xs"
  using bs_header_take [of "take n xs" "drop n xs"] hdr_append [of "take n xs" "drop n xs"] by simp

lemma last_packet: "length p = n + 21 \<Longrightarrow> last p = p ! (n + 20)"
  by (subst last_conv_nth) (auto simp: add.commute)

lemma bs_round_sound:
  assumes "bs_inv s" and "bs_round s = Again ms s'"
  shows "(\<forall>p \<in> set (packets ms). bs_wf p \<and> sublist p (bs_buffer s)) \<and> bs_inv s' \<and>
    suffix (bs_buffer s') (bs_buffer s)"
proof -
  from assms(2) obtain m1 s1 where st: "bs_start s = Some (m1, s1)" and "bs_finish m1 s1 = Again ms s'"
    by (auto simp: bs_round_def split: option.splits)
  then obtain len: "bs_datalen s1 + 21 \<le> length (bs_buffer s1)"
    and ms: "packets ms = packets m1 @ (if bs_buffer s1 ! (bs_datalen s1 + 20) = 93
        then [take (bs_datalen s1 + 21) (bs_buffer s1)] else [])"
    and s': "s' = s1\<lparr>bs_buffer := drop (bs_datalen s1 + 21) (bs_buffer s1), bs_datalen := 0\<rparr>"
    by (auto simp: bs_finish_def Let_def split: if_splits)
  from bs_start_inv [OF st assms(1)] have hdr: "bs_header (bs_buffer s1)"
    "hdr_datalen (bs_buffer s1) = bs_datalen s1" and suf: "suffix (bs_buffer s1) (bs_buffer s)"
    and m1: "packets m1 = []" by auto
  have "bs_wf (take (bs_datalen s1 + 21) (bs_buffer s1))"
    if "bs_buffer s1 ! (bs_datalen s1 + 20) = 93"
    using that len hdr hdr_take [of "bs_datalen s1 + 21" "bs_buffer s1"]
    by (simp add: bs_wf_def bs_header_long last_packet [of _ "bs_datalen s1"])
  moreover have "sublist (take (bs_datalen s1 + 21) (bs_buffer s1)) (bs_buffer s)"
    by (meson suf sublist_order.order.trans sublist_take suffix_imp_sublist)
  moreover have "suffix (drop (bs_datalen s1 + 21) (bs_buffer s1)) (bs_buffer s)"
    by (meson suf suffix_drop suffix_order.trans)
  ultimately show ?thesis by (auto simp: ms m1 s' bs_inv_def split: if_splits)
qed

lemma bs_round_break_inv:
  assumes "bs_inv s" and "bs_round s = Break ms s'"
  shows "packets ms = [] \<and> bs_inv s'"
  using assms bs_start_inv [of s]
  by (auto simp: bs_round_def bs_finish_def Let_def bs_inv_def split: option.splits if_splits)

lemma bs_loop_sound:
  "bs_inv s \<Longrightarrow> (\<forall>p \<in> set (packets (fst (bs_loop s))). bs_wf p \<and> sublist p (bs_buffer s)) \<and>
    bs_inv (snd (bs_loop s))"
proof (induction s rule: bs.loop_induct)
  case (1 s)
  show ?case
  proof (cases "bs_round s")
    case (Break ms s')
    with bs_round_break_inv [OF 1(2)] show ?thesis by (simp add: bs.loop_Break)
  next
    case (Again ms s')
    from bs_round_sound [OF 1(2) Again] 1(1) [OF Again] show ?thesis
      by (auto simp: bs.loop_Again [OF Again])
        (meson sublist_order.order.trans suffix_imp_sublist)
  qed
qed

lemma bs_inv_extend: "bs_inv s \<Longrightarrow> bs_inv (s\<lparr>bs_buffer := bs_buffer s @ b\<rparr>)"
  by (auto simp: bs_inv_def bs_header_append hdr_append dest: bs_header_long)

text \<open>Without the invariant, packets still have a byte behind the header's place.\<close>

lemma bs_loop_length: "p \<in> set (packets (fst (bs_loop s))) \<Longrightarrow> 21 \<le> length p"
proof (induction s rule: bs.loop_induct)
  case (1 s)
  have start: "packets m = []" if "bs_start t = Some (m, t')" for t t' m
    using bs_start_again [OF that] by blast
  show ?case
  proof (cases "bs_round s")
    case (Break ms s')
    then have "packets ms = []"
      by (auto simp: bs_round_def bs_finish_def Let_def dest: start split: option.splits if_splits)
    with 1(2) Break show ?thesis by (simp add: bs.loop_Break)
  next
    case (Again ms s')
    then obtain m1 s1 where "bs_start s = Some (m1, s1)" "bs_finish m1 s1 = Again ms s'"
      by (auto simp: bs_round_def split: option.splits)
    then have "\<forall>p \<in> set (packets ms). 21 \<le> length p"
      using start [of s m1 s1] by (auto simp: bs_finish_def Let_def split: if_splits)
    with 1 Again show ?thesis by (auto simp: bs.loop_Again [OF Again])
  qed
qed

text \<open>Without it they are still pieces of what was received that end with the bracket.\<close>

definition bs_piece :: "bytes \<Rightarrow> bytes \<Rightarrow> bool" where
  "bs_piece buf p \<longleftrightarrow> sublist p buf \<and> 21 \<le> length p \<and> last p = 93"

lemma bs_start_suffix: "bs_start s = Some (ms, s') \<Longrightarrow> suffix (bs_buffer s') (bs_buffer s) \<and> packets ms = []"
  using bs_start_again [of s ms s']
  by (auto simp: bs_start_def Let_def suffix_drop split: if_splits option.splits)

lemma bs_round_piece:
  assumes "bs_round s = Again ms s'"
  shows "(\<forall>p \<in> set (packets ms). bs_piece (bs_buffer s) p) \<and> suffix (bs_buffer s') (bs_buffer s)"
proof -
  from assms obtain m1 s1 where st: "bs_start s = Some (m1, s1)" and "bs_finish m1 s1 = Again ms s'"
    by (auto simp: bs_round_def split: option.splits)
  then obtain len: "bs_datalen s1 + 21 \<le> length (bs_buffer s1)"
    and ms: "packets ms = packets m1 @ (if bs_buffer s1 ! (bs_datalen s1 + 20) = 93
        then [take (bs_datalen s1 + 21) (bs_buffer s1)] else [])"
    and s': "bs_buffer s' = drop (bs_datalen s1 + 21) (bs_buffer s1)"
    by (auto simp: bs_finish_def Let_def split: if_splits)
  from bs_start_suffix [OF st] have suf: "suffix (bs_buffer s1) (bs_buffer s)" and m1: "packets m1 = []" by auto
  have "bs_piece (bs_buffer s) (take (bs_datalen s1 + 21) (bs_buffer s1))"
    if "bs_buffer s1 ! (bs_datalen s1 + 20) = 93"
    unfolding bs_piece_def
  proof (intro conjI)
    show "sublist (take (bs_datalen s1 + 21) (bs_buffer s1)) (bs_buffer s)"
      by (rule sublist_order.order.trans [OF sublist_take suffix_imp_sublist [OF suf]])
    show "last (take (bs_datalen s1 + 21) (bs_buffer s1)) = 93"
      using that len by (simp add: last_packet)
  qed (use len in simp)
  moreover have "suffix (bs_buffer s') (bs_buffer s)"
    unfolding s' by (meson suf suffix_drop suffix_order.trans)
  ultimately show ?thesis by (auto simp: ms m1 split: if_splits)
qed

lemma bs_loop_piece: "p \<in> set (packets (fst (bs_loop s))) \<Longrightarrow> bs_piece (bs_buffer s) p"
proof (induction s rule: bs.loop_induct)
  case (1 s)
  show ?case
  proof (cases "bs_round s")
    case (Break ms s')
    then have "packets ms = []"
      by (auto simp: bs_round_def bs_finish_def Let_def dest: bs_start_suffix split: option.splits if_splits)
    with 1(2) Break show ?thesis by (simp add: bs.loop_Break)
  next
    case (Again ms s')
    from bs_round_piece [OF Again] 1(1) [OF Again] 1(2) show ?thesis
      by (auto simp: bs.loop_Again [OF Again] bs_piece_def)
        (meson sublist_order.order.trans suffix_imp_sublist)
  qed
qed

section \<open>Framing and deframing\<close>

lemma bs_round_wf:
  assumes "bs_wf p" and "bs_buffer s = p @ rest" and "bs_datalen s = 0"
  shows "\<exists>ms own. bs_round s = Again ms (s\<lparr>bs_buffer := rest, bs_imei := Some own, bs_datalen := 0\<rparr>) \<and>
    packets ms = [p]"
proof -
  have h: "bs_header p" and l: "length p = hdr_datalen p + 21" and e: "last p = 93"
    using assms(1) by (auto simp: bs_wf_def)
  from bs_header_long [OF h] have h20: "20 \<le> length p" .
  have s0: "bs_search (p @ rest) = Some 0" using bs_header_append [OF h] by (simp add: bs_search_0)
  have "p ! (hdr_datalen p + 20) = 93" using e last_packet [OF l] by simp
  then have "(p @ rest) ! (hdr_datalen p + 20) = 93" using l by (simp add: nth_append)
  with s0 l show ?thesis
    using assms(2,3)
    by (cases s) (auto simp: bs_round_def bs_start_def bs_framestart_def bs_finish_def Let_def
        hdr_append [OF h20])
qed

lemma bs_loop_wf:
  "\<forall>p \<in> set ps. bs_wf p \<Longrightarrow> bs_datalen s = 0 \<Longrightarrow> bs_buffer s = concat ps \<Longrightarrow>
   packets (fst (bs_loop s)) = ps \<and> bs_buffer (snd (bs_loop s)) = []"
proof (induction ps arbitrary: s)
  case Nil
  then have "bs_round s = Break [] s" by (simp add: bs_round_def bs_start_def bs_framestart_def)
  with Nil show ?case by (simp add: bs.loop_Break)
next
  case (Cons p ps)
  from bs_round_wf [of p s "concat ps"] Cons.prems obtain ms own where
    r: "bs_round s = Again ms (s\<lparr>bs_buffer := concat ps, bs_imei := Some own, bs_datalen := 0\<rparr>)"
    "packets ms = [p]" by auto
  from Cons.IH [of "s\<lparr>bs_buffer := concat ps, bs_imei := Some own, bs_datalen := 0\<rparr>"] Cons.prems r
  show ?case by (simp add: bs.loop_Again [OF r(1)])
qed

text \<open>A header put together from its fields, all of them bytes\<close>

definition mk_header :: "bytes \<Rightarrow> bytes \<Rightarrow> bytes \<Rightarrow> bytes" where
  "mk_header v i l = [91] @ v @ [42] @ i @ [42] @ l @ [42]"

lemma mk_header_slices:
  assumes "length v = 2" and "length i = 10" and "length l = 4"
  shows "length (mk_header v i l) = 20"
    and "pyslice 1 3 (mk_header v i l @ r) = v" and "pyslice 4 14 (mk_header v i l @ r) = i"
    and "pyslice 15 19 (mk_header v i l @ r) = l"
    and "(mk_header v i l @ r) ! 0 = 91" and "(mk_header v i l @ r) ! 3 = 42"
    and "(mk_header v i l @ r) ! 14 = 42" and "(mk_header v i l @ r) ! 19 = 42"
  using assms by (simp_all add: mk_header_def pyslice_def nth_append nth_Cons')

lemma mk_header_header:
  assumes "length v = 2" and "length i = 10" and "length l = 4"
  shows "bs_header (mk_header v i l @ r) \<longleftrightarrow> list_all re_word v \<and> list_all re_digit i \<and> list_all re_hex l"
    and "hdr_vendor (mk_header v i l @ r) = map unat v"
    and "hdr_imei (mk_header v i l @ r) = map unat i"
    and "hdr_datalen (mk_header v i l @ r) = hex_value (map unat l)"
  using mk_header_slices(1) [OF assms] mk_header_slices(2-) [OF assms, of r]
  by (simp_all add: bs_header_def hdr_vendor_def hdr_imei_def hdr_datalen_def)

lemma hdr_datalen_bound: "bs_header p \<Longrightarrow> hdr_datalen p < 65536"
proof -
  assume h: "bs_header p"
  then have "\<forall>c \<in> set (map unat (pyslice 15 19 p)). unhexdigit c \<noteq> None"
    by (auto simp: bs_header_def re_hex_def list_all_iff)
  from hex_value_bound [OF this] h show ?thesis by (simp add: hdr_datalen_def bs_header_def)
qed

definition imei_digits :: "pystr \<Rightarrow> bool" where
  "imei_digits i \<longleftrightarrow> length i = 10 \<and> list_all (\<lambda>c. 48 \<le> c \<and> c \<le> 57) i"

lemma re_word_ascii: "re_word b \<Longrightarrow> unat b < 128"
  by (auto simp: re_word_def re_digit_def)

lemma imei_of_header: "bs_header p \<Longrightarrow> imei_digits (hdr_imei p)"
  by (auto simp: bs_header_def imei_digits_def hdr_imei_def re_digit_def list_all_iff)

lemma format_04X_bytes:
  assumes "n < 65536"
  shows "list_all re_hex (map byte_of (format_04X n))" and "ascii (format_04X n)"
    and "map unat (map byte_of (format_04X n)) = format_04X n"
proof -
  have c: "c < 128 \<and> unhexdigit c \<noteq> None" if "c \<in> set (format_04X n)" for c
  proof -
    from format_04X_digits [OF that] obtain d where "c = hexdigit_upper d" "d < 16" by blast
    then show ?thesis by (cases "d < 10") (auto simp: hexdigit_upper_def unhexdigit_def)
  qed
  then show "list_all re_hex (map byte_of (format_04X n))" "ascii (format_04X n)"
    by (fastforce simp: re_hex_def list_all_iff ascii_def)+
  show "map unat (map byte_of (format_04X n)) = format_04X n"
    using c by (force intro: map_idI simp: o_def)
qed

lemma bs_enframe_eq:
  assumes h: "bs_header p" and im: "imei_digits im"
  shows "bs_enframe p (Some im) =
    Inr (mk_header (pyslice 1 3 p) (map byte_of im) (map byte_of (format_04X (hdr_datalen p))) @ drop 20 p)"
proof -
  let ?s = "[91] @ hdr_vendor p @ [42] @ im @ [42] @ format_04X (hdr_datalen p) @ [42]"
  have "ascii ?s"
    using h im format_04X_bytes(2) [OF hdr_datalen_bound [OF h]]
    by (auto simp: ascii_def bs_header_def hdr_vendor_def imei_digits_def list_all_iff
        dest: re_word_ascii)
  from utf8_encode_ascii [OF this] bs_search_0 [of p] h im show ?thesis
    by (simp add: bs_enframe_def bs_framestart_def imei_digits_def mk_header_def hdr_vendor_def
        byte_of_def [of 91] byte_of_def [of 42] comp_def)
qed

lemma bs_enframe_wf:
  assumes "bs_wf p" and im: "imei_digits im"
  shows "\<exists>q. bs_enframe p (Some im) = Inr q \<and> bs_wf q \<and> hdr_imei q = im \<and>
    hdr_vendor q = hdr_vendor p \<and> length q = length p \<and> drop 20 q = drop 20 p"
proof -
  have h: "bs_header p" and l: "length p = hdr_datalen p + 21" and e: "last p = 93"
    using assms by (auto simp: bs_wf_def)
  let ?v = "pyslice 1 3 p" and ?l = "map byte_of (format_04X (hdr_datalen p))"
  let ?q = "mk_header ?v (map byte_of im) ?l @ drop 20 p"
  have dl: "hdr_datalen p < 65536" using h by (rule hdr_datalen_bound)
  have len: "length ?v = 2" "length (map byte_of im) = 10" "length ?l = 4"
    using h im dl by (simp_all add: bs_header_def imei_digits_def length_format_04X)
  have im': "list_all re_digit (map byte_of im)" "map unat (map byte_of im) = im"
    using im by (auto simp: imei_digits_def re_digit_def list_all_iff intro!: map_idI)
  have v: "list_all re_word ?v" using h by (simp add: bs_header_def)
  note mk = mk_header_header [OF len, of "drop 20 p"]
  have hq: "bs_header ?q" "hdr_datalen ?q = hdr_datalen p"
    using mk v im' format_04X_bytes [OF dl] by simp_all
  moreover have lq: "length ?q = length p" using mk_header_slices(1) [OF len] l by simp
  moreover have "last ?q = 93" using l e by simp
  ultimately have "bs_wf ?q" using l by (simp add: bs_wf_def)
  moreover have "drop 20 ?q = drop 20 p" using mk_header_slices(1) [OF len] by simp
  ultimately show ?thesis
    using bs_enframe_eq [OF h im] im' mk lq by (auto simp: hdr_vendor_def)
qed

section \<open>Properties\<close>

text \<open>
  C7: Well-formed packets sent as one byte stream and cut into segments at arbitrary places
  are delivered as they were, in order, as long as the stream stays below the buffer's bound.
\<close>

theorem bs_frames_roundtrip:
  assumes "\<forall>p \<in> set ps. bs_wf p" and "concat segs = concat ps" and "segs \<noteq> []"
    and "length (concat segs) \<le> BS_MAXBUFFER"
  shows "packets (fst (recv_all bs_recv bs_Stream segs)) = ps \<and>
    bs_buffer (snd (recv_all bs_recv bs_Stream segs)) = []"
proof -
  have "bs_recv bs_Stream (concat segs) = bs_loop (bs_Stream\<lparr>bs_buffer := concat ps\<rparr>)"
    using assms(2,4) by (simp add: bs_recv_def bs_Stream_def)
  moreover from bs_loop_wf [OF assms(1), of "bs_Stream\<lparr>bs_buffer := concat ps\<rparr>"]
  have "packets (fst (bs_loop (bs_Stream\<lparr>bs_buffer := concat ps\<rparr>))) = ps \<and>
      bs_buffer (snd (bs_loop (bs_Stream\<lparr>bs_buffer := concat ps\<rparr>))) = []"
    by (simp add: bs_Stream_def)
  ultimately show ?thesis
    using bs.recv_all_concat [of segs bs_Stream] assms(3,4) by (simp add: bs_Stream_def)
qed

theorem bs_frames_roundtrip_witness:
  "packets (fst (recv_all bs_recv bs_Stream
      [b8 ''[3G*1234567890'', b8 ''*0002*LK]''])) = [b8 ''[3G*1234567890*0002*LK]''] \<and>
   bs_buffer (snd (recv_all bs_recv bs_Stream [b8 ''[3G*1234567890'', b8 ''*0002*LK]''])) = []"
  by (rule bs_frames_roundtrip)
    (simp_all add: BS_MAXBUFFER_def bs_wf_def bs_header_def re_word_def re_digit_def re_hex_def
      hdr_datalen_def hex_value_def unhexdigit_def pyslice_def)

abbreviation bs_in_bounds :: "bs_stream \<Rightarrow> bytes list \<Rightarrow> bool" where
  "bs_in_bounds \<equiv> in_bounds bs_recv (\<lambda>s. length (bs_buffer s)) BS_MAXBUFFER"

text \<open>
  C24: Of two ways to cut the same bytes into segments, neither of which overflows the buffer in any
  call, the stream delivers the same packets and ends in the same state, from any state, a half-received
  packet included, and for a stream of any length. (Where a call overflows, it does depend on the segments.)
\<close>

theorem bs_segmentation_independent:
  assumes "segs \<noteq> []" and "segs' \<noteq> []" and "concat segs' = concat segs"
    and "bs_in_bounds s segs" and "bs_in_bounds s segs'"
  shows "packets (fst (recv_all bs_recv s segs')) = packets (fst (recv_all bs_recv s segs)) \<and>
    snd (recv_all bs_recv s segs') = snd (recv_all bs_recv s segs)"
  using assms by (rule bs.recv_all_any_segmentation)

theorem bs_segmentation_independent_witness:
  "packets (fst (recv_all bs_recv bs_Stream [[1, 91], [51, 71]])) =
     packets (fst (recv_all bs_recv bs_Stream [[1], [91, 51, 71]])) \<and>
   snd (recv_all bs_recv bs_Stream [[1, 91], [51, 71]]) =
     snd (recv_all bs_recv bs_Stream [[1], [91, 51, 71]])"
proof (rule bs_segmentation_independent)
  show "bs_in_bounds bs_Stream [[1], [91, 51, 71]]"
    by (rule bs.in_bounds_total) (simp add: bs_Stream_def BS_MAXBUFFER_def)
  show "bs_in_bounds bs_Stream [[1, 91], [51, 71]]"
    by (rule bs.in_bounds_total) (simp add: bs_Stream_def BS_MAXBUFFER_def)
qed simp_all

text \<open>
  C17: Whatever bytes come and whatever state the stream is in, a packet delivered stood in the received
  bytes, is long enough for a header and ends with the bracket, and what is kept in the buffer never
  exceeds the bound. As long as no call overflows, every packet is well formed (it starts with a
  header, and has the announced length) and the state stays consistent. A call that overflows
  delivers no packet and empties the buffer, but keeps the pending length, so that the state is not
  consistent where a packet was pending.
\<close>

theorem bs_recv_sound:
  assumes "bs_recv s segment = (ms, s')"
  shows "(\<forall>p \<in> set (packets ms). sublist p (bs_buffer s @ segment) \<and> 21 \<le> length p \<and> last p = 93) \<and>
    length (bs_buffer s') \<le> BS_MAXBUFFER \<and>
    (if length (bs_buffer s) + length segment \<le> BS_MAXBUFFER
     then bs_inv s \<longrightarrow> (\<forall>p \<in> set (packets ms). bs_wf p) \<and> bs_inv s'
     else packets ms = [] \<and> s' = s\<lparr>bs_buffer := []\<rparr> \<and> (bs_inv s' \<longleftrightarrow> bs_datalen s = 0))"
proof (cases "length (bs_buffer s) + length segment \<le> BS_MAXBUFFER")
  case True
  with assms have l: "bs_loop (s\<lparr>bs_buffer := bs_buffer s @ segment\<rparr>) = (ms, s')" by (simp add: bs_recv_def)
  have "sublist p (bs_buffer s @ segment) \<and> 21 \<le> length p \<and> last p = 93" if "p \<in> set (packets ms)" for p
    using bs_loop_piece [of p "s\<lparr>bs_buffer := bs_buffer s @ segment\<rparr>"] that l by (simp add: bs_piece_def)
  moreover have "bs_inv s \<Longrightarrow> (\<forall>p \<in> set (packets ms). bs_wf p) \<and> bs_inv s'"
    using bs_loop_sound [OF bs_inv_extend, of s segment] l by simp
  ultimately show ?thesis using True bs.recv_bounded [of s segment] assms by simp
next
  case False
  with assms show ?thesis by (auto simp: bs_recv_def bs_inv_def bs_header_def)
qed

theorem bs_recv_sound_witness:
  "\<exists>ms s'. bs_recv bs_Stream [91] = (ms, s') \<and> (\<forall>p \<in> set (packets ms). bs_wf p) \<and> bs_inv s' \<and>
    length (bs_buffer s') \<le> BS_MAXBUFFER"
proof -
  obtain ms s' where r: "bs_recv bs_Stream [91] = (ms, s')" by fastforce
  have "bs_inv bs_Stream" "length (bs_buffer bs_Stream) + length [91 :: byte] \<le> BS_MAXBUFFER"
    by (simp_all add: bs_inv_def bs_Stream_def BS_MAXBUFFER_def)
  with bs_recv_sound [OF r] r show ?thesis by auto
qed

text \<open>
  \<open>enframe\<close> readdresses a well-formed packet: the result is well formed, carries the given
  IMEI of ten digits, and has the vendor, the length and the data of the original. An IMEI
  of any other length, or none, fails the assertion.
\<close>

theorem bs_enframe_readdresses:
  assumes "bs_wf p"
  shows "if imei \<noteq> None \<and> imei_digits (the imei)
    then \<exists>q. bs_enframe p imei = Inr q \<and> bs_wf q \<and> hdr_imei q = the imei \<and>
      hdr_vendor q = hdr_vendor p \<and> length q = length p \<and> drop 20 q = drop 20 p
    else imei = None \<or> length (the imei) \<noteq> 10 \<longrightarrow> bs_enframe p imei = Inl AssertionError"
  using bs_enframe_wf [OF assms] by (auto simp: bs_enframe_def split: option.splits)

theorem bs_enframe_readdresses_witness:
  "\<exists>q. bs_enframe (b8 ''[LT*0000000000*0002*LK]'') (Some (u ''1234567890'')) = Inr q \<and>
    hdr_imei q = u ''1234567890''"
proof -
  have "bs_wf (b8 ''[LT*0000000000*0002*LK]'')"
    by (simp add: bs_wf_def bs_header_def re_word_def re_digit_def re_hex_def
      hdr_datalen_def hex_value_def unhexdigit_def pyslice_def)
  from bs_enframe_readdresses [OF this, of "Some (u ''1234567890'')"]
  show ?thesis by (auto simp: imei_digits_def)
qed

text \<open>
  The overflow branch empties the buffer but keeps the pending data length. After an
  overflow in the middle of a packet, the bytes that follow are counted as the rest of that
  packet: a complete well-formed packet no longer than the pending one is not delivered.
\<close>

theorem bs_overflow_swallows:
  assumes "length (bs_buffer s) + length junk > BS_MAXBUFFER"
    and "bs_wf p" and "hdr_datalen p < bs_datalen s"
  shows "\<exists>s'. bs_recv s junk = ([Too_Much_Junk BS_MAXBUFFER], s') \<and> bs_buffer s' = [] \<and>
    bs_datalen s' = bs_datalen s \<and>
    fst (bs_recv s' p) = [] \<and> bs_buffer (snd (bs_recv s' p)) = p"
proof -
  let ?s' = "s\<lparr>bs_buffer := []\<rparr>"
  have "bs_recv s junk = ([Too_Much_Junk BS_MAXBUFFER], ?s')" using assms(1) by (simp add: bs_recv_def)
  moreover have "bs_round (?s'\<lparr>bs_buffer := p\<rparr>) = Break [] (?s'\<lparr>bs_buffer := p\<rparr>)"
    using assms(2,3) by (simp add: bs_round_def bs_start_def bs_finish_def bs_wf_def)
  then have "bs_loop (?s'\<lparr>bs_buffer := p\<rparr>) = ([], ?s'\<lparr>bs_buffer := p\<rparr>)" by (rule bs.loop_Break)
  moreover have "length p \<le> BS_MAXBUFFER"
    using assms(2) hdr_datalen_bound [of p] by (simp add: bs_wf_def BS_MAXBUFFER_def)
  ultimately show ?thesis by (simp add: bs_recv_def)
qed

theorem bs_overflow_swallows_witness:
  "\<exists>s'. bs_recv \<lparr>bs_buffer = replicate 65557 0, bs_imei = None, bs_datalen = 60000\<rparr> [0] =
       ([Too_Much_Junk BS_MAXBUFFER], s') \<and>
     fst (bs_recv s' (b8 ''[LT*0000000000*0002*LK]'')) = []"
proof -
  have "bs_wf (b8 ''[LT*0000000000*0002*LK]'')"
    by (simp add: bs_wf_def bs_header_def re_word_def re_digit_def re_hex_def
      hdr_datalen_def hex_value_def unhexdigit_def pyslice_def)
  from bs_overflow_swallows [OF _ this,
      of "\<lparr>bs_buffer = replicate 65557 0, bs_imei = None, bs_datalen = 60000\<rparr>" "[0]"]
  show ?thesis
    by (auto simp: BS_MAXBUFFER_def hdr_datalen_def hex_value_def unhexdigit_def pyslice_def)
qed

end
