(* ===== verification/BS_Packets.thy ===== *)
theory BS_Packets
  imports BS_Stream Reports
begin

text \<open>
  The message classes of \<open>loctrkd/beesure.py\<close>, what their \<open>in_decode\<close> makes of a payload,
  and what their \<open>out_encode\<close> and \<open>packed\<close> make of keyword arguments.
\<close>

section \<open>Message classes\<close>

text \<open>
  The module's table also has the base class, which is a class of the module whose name does
  not start with an underscore.
\<close>

datatype bs_class =
    BeeSurePkt | UNKNOWN | AL | CALL | CENTER | CONFIG | CR | FIND | FLOWER | ICCID | LK | LZ
  | MESSAGE | MONITOR | PHB | PHB2 | POWEROFF | RESET | SOS | SOS1 | SOS2 | SOS3 | TK | TKQ
  | TKQ2 | UD | UD2 | UPLOAD

text \<open>\<open>PROTO\<close>: the name of the class without a suffix \<open>.In\<close> or \<open>.Out\<close>\<close>

fun bs_PROTO :: "bs_class \<Rightarrow> pystr" where
  "bs_PROTO BeeSurePkt = u ''BeeSurePkt''"
| "bs_PROTO UNKNOWN = u ''UNKNOWN''"
| "bs_PROTO AL = u ''AL''"
| "bs_PROTO CALL = u ''CALL''"
| "bs_PROTO CENTER = u ''CENTER''"
| "bs_PROTO CONFIG = u ''CONFIG''"
| "bs_PROTO CR = u ''CR''"
| "bs_PROTO FIND = u ''FIND''"
| "bs_PROTO FLOWER = u ''FLOWER''"
| "bs_PROTO ICCID = u ''ICCID''"
| "bs_PROTO LK = u ''LK''"
| "bs_PROTO LZ = u ''LZ''"
| "bs_PROTO MESSAGE = u ''MESSAGE''"
| "bs_PROTO MONITOR = u ''MONITOR''"
| "bs_PROTO PHB = u ''PHB''"
| "bs_PROTO PHB2 = u ''PHB2''"
| "bs_PROTO POWEROFF = u ''POWEROFF''"
| "bs_PROTO RESET = u ''RESET''"
| "bs_PROTO SOS = u ''SOS''"
| "bs_PROTO SOS1 = u ''SOS1''"
| "bs_PROTO SOS2 = u ''SOS2''"
| "bs_PROTO SOS3 = u ''SOS3''"
| "bs_PROTO TK = u ''TK''"
| "bs_PROTO TKQ = u ''TKQ''"
| "bs_PROTO TKQ2 = u ''TKQ2''"
| "bs_PROTO UD = u ''UD''"
| "bs_PROTO UD2 = u ''UD2''"
| "bs_PROTO UPLOAD = u ''UPLOAD''"

definition bs_all :: "bs_class list" where
  "bs_all = [BeeSurePkt, UNKNOWN, AL, CALL, CENTER, CONFIG, CR, FIND, FLOWER, ICCID, LK, LZ,
     MESSAGE, MONITOR, PHB, PHB2, POWEROFF, RESET, SOS, SOS1, SOS2, SOS3, TK, TKQ, TKQ2, UD,
     UD2, UPLOAD]"

definition bs_CLASSES :: "pystr \<Rightarrow> bs_class option" where
  "bs_CLASSES = map_of (rev (map (\<lambda>c. (bs_PROTO c, c)) bs_all))"

definition BS_PREFIX :: pystr where
  "BS_PREFIX = u ''BS:''"

definition bs_proto_name :: "bs_class \<Rightarrow> pystr" where
  "bs_proto_name c = BS_PREFIX @ take 16 (bs_PROTO c)"

definition bs_BINARY :: "bs_class \<Rightarrow> bool" where
  "bs_BINARY c \<longleftrightarrow> c = TK"

fun bs_RESPOND :: "bs_class \<Rightarrow> respond" where
  "bs_RESPOND AL = INL"
| "bs_RESPOND LK = INL"
| "bs_RESPOND TK = INL"
| "bs_RESPOND TKQ = INL"
| "bs_RESPOND TKQ2 = INL"
| "bs_RESPOND _ = NON"

text \<open>The classes that inherit from \<open>_LOC_DATA\<close>\<close>

definition bs_loc_class :: "bs_class \<Rightarrow> bool" where
  "bs_loc_class c \<longleftrightarrow> c = AL \<or> c = UD \<or> c = UD2"

section \<open>Decoding\<close>

record loc_data =
  ld_gps_valid :: bool
  ld_speed :: pyfloat
  ld_direction :: pyfloat
  ld_altitude :: pyfloat
  ld_num_of_sats :: int
  ld_gsm_strength_percentage :: int
  ld_battery_percentage :: int
  ld_pedometer :: int
  ld_tubmling_times :: int
  ld_device_status :: int
  ld_gsm_cells_number :: int
  ld_connect_base_station_number :: int
  ld_mcc :: int
  ld_mnc :: int
  ld_gsm_cells :: "int list list"
  ld_wifi_aps_number :: int
  ld_wifi_aps :: "(pystr \<times> pystr \<times> int) list"
  ld_positioning_accuracy :: pyfloat
  ld_devtime :: datetime
  ld_latitude :: pyfloat
  ld_longitude :: pyfloat

record lk_data =
  lk_step :: "pystr option"
  lk_tumbling_number :: "pystr option"
  lk_battery_percentage :: "pystr option"

datatype bs_body =
    No_Attrs
  | Loc_Attrs loc_data
  | Lk_Attrs lk_data
  | Tk_Attrs bytes

text \<open>What the positional fields of a location message are converted to\<close>

datatype loc_val = LStr (lv_str: pystr) | LBool (lv_bool: bool) | LFloat (lv_float: pyfloat)
  | LInt (lv_int: int)

definition lfloat :: "pystr \<Rightarrow> loc_val res" where
  "lfloat s = and_then (py_float s) (\<lambda>f. Inr (LFloat f))"

definition lint :: "pystr \<Rightarrow> loc_val res" where
  "lint s = and_then (py_int s) (\<lambda>i. Inr (LInt i))"

definition loc_table :: "(pystr \<Rightarrow> loc_val res) list" where
  "loc_table =
     [\<lambda>x. Inr (LStr x),
      \<lambda>x. Inr (LStr x),
      \<lambda>x. Inr (LBool (x = u ''A'')),
      lfloat,
      \<lambda>x. Inr (LInt (if x = u ''N'' then 1 else -1)),
      lfloat,
      \<lambda>x. Inr (LInt (if x = u ''E'' then 1 else -1)),
      lfloat,
      lfloat,
      lfloat,
      lint,
      lint,
      lint,
      lint,
      lint,
      \<lambda>x. and_then (py_int_16 x) (\<lambda>i. Inr (LInt i)),
      lint,
      lint,
      lint,
      lint]"

text \<open>\<open>zip\<close> stops with the shorter list: a short message leaves attributes unset.\<close>

definition loc_setattrs :: "pystr list \<Rightarrow> loc_val list res" where
  "loc_setattrs args = map_res (\<lambda>(func, val). func val) (zip loc_table (take 20 args))"

text \<open>A float times 1 or -1\<close>

fun float_sign :: "pyfloat \<Rightarrow> int \<Rightarrow> pyfloat" where
  "float_sign (Fin q) s = Fin (q * of_int s)"
| "float_sign (Inf pos) s = Inf (if 0 < s then pos else \<not> pos)"
| "float_sign NaN s = NaN"

definition loc_devtime :: "pystr \<Rightarrow> datetime res" where
  "loc_devtime s =
     and_then (strptime [strp_d, strp_m, strp_y, strp_H, strp_M, strp_S] s)
       (\<lambda>vs. case vs of
          [d, mo, y, h, mi, se] \<Rightarrow> mk_datetime (year_of y) mo d h mi se
        | _ \<Rightarrow> Inl ValueError)"

definition loc_cell :: "pystr list \<Rightarrow> nat \<Rightarrow> int list res" where
  "loc_cell rest i = map_res py_int (pyslice (i * 3) (3 + i * 3) rest)"

definition loc_ap :: "pystr list \<Rightarrow> nat \<Rightarrow> (pystr \<times> pystr \<times> int) res" where
  "loc_ap rest i =
     and_then (pyget rest (1 + i * 3)) (\<lambda>ssid.
     and_then (pyget rest (2 + i * 3)) (\<lambda>mac.
     and_then (pyget rest (3 + i * 3)) (\<lambda>s.
     and_then (py_int s) (\<lambda>strength. Inr (ssid, mac, strength)))))"

text \<open>
  \<open>self.gsm_cells_number\<close> is field 16: reading it raises \<open>AttributeError\<close> when the
  message had fewer fields.
\<close>

definition loc_in_decode :: "pystr list \<Rightarrow> loc_data res" where
  "loc_in_decode args =
     and_then (loc_setattrs args) (\<lambda>vals.
     if length vals \<le> 16 then Inl AttributeError
     else
       (let ncells = lv_int (vals ! 16); rest = drop 20 args in
        and_then (map_res (loc_cell rest) [0..<nat ncells]) (\<lambda>cells.
        let rest = pyslice_from (3 * ncells) rest in
        and_then (pyget rest 0) (\<lambda>s. and_then (py_int s) (\<lambda>naps.
        and_then (map_res (loc_ap rest) [0..<nat naps]) (\<lambda>aps.
        let rest = pyslice_from (1 + 3 * naps) rest in
        and_then (pyget rest 0) (\<lambda>s. and_then (py_float s) (\<lambda>acc.
        and_then (loc_devtime (lv_str (vals ! 0) @ lv_str (vals ! 1))) (\<lambda>devtime.
          Inr \<lparr>ld_gps_valid = lv_bool (vals ! 2), ld_speed = lv_float (vals ! 7),
               ld_direction = lv_float (vals ! 8), ld_altitude = lv_float (vals ! 9),
               ld_num_of_sats = lv_int (vals ! 10),
               ld_gsm_strength_percentage = lv_int (vals ! 11),
               ld_battery_percentage = lv_int (vals ! 12), ld_pedometer = lv_int (vals ! 13),
               ld_tubmling_times = lv_int (vals ! 14), ld_device_status = lv_int (vals ! 15),
               ld_gsm_cells_number = ncells,
               ld_connect_base_station_number = lv_int (vals ! 17),
               ld_mcc = lv_int (vals ! 18), ld_mnc = lv_int (vals ! 19),
               ld_gsm_cells = cells, ld_wifi_aps_number = naps, ld_wifi_aps = aps,
               ld_positioning_accuracy = acc, ld_devtime = devtime,
               ld_latitude = float_sign (lv_float (vals ! 3)) (lv_int (vals ! 4)),
               ld_longitude = float_sign (lv_float (vals ! 5)) (lv_int (vals ! 6))\<rparr>)))))))))"

definition lk_in_decode :: "pystr list \<Rightarrow> lk_data" where
  "lk_in_decode args =
     \<lparr>lk_step = (if length args > 0 then Some (args ! 0) else None),
      lk_tumbling_number = (if length args > 1 then Some (args ! 1) else None),
      lk_battery_percentage = (if length args > 2 then Some (args ! 2) else None)\<rparr>"

text \<open>\<open>TK\<close>: the escapes of the binary data are undone one after the other.\<close>

definition tk_unescape :: "bytes \<Rightarrow> bytes" where
  "tk_unescape bs =
     replace2 125 125 125
       (replace2 125 93 93
         (replace2 125 91 91
           (replace2 125 44 44
             (replace2 125 42 42 bs))))"

text \<open>
  A payload is text split at commas, or the bytes themselves where the class is \<open>BINARY\<close> or
  unknown; \<open>parse_message\<close> gives the other classes text only.
\<close>

datatype bs_payload = Fields "pystr list" | Raw bytes

definition bs_in_decode :: "bs_class \<Rightarrow> bs_payload \<Rightarrow> bs_body res" where
  "bs_in_decode c payload =
     (case payload of
        Fields args \<Rightarrow>
          if bs_loc_class c then and_then (loc_in_decode args) (\<lambda>l. Inr (Loc_Attrs l))
          else if c = LK then Inr (Lk_Attrs (lk_in_decode args))
          else if c = TK then Inl AssertionError
          else Inr No_Attrs
      | Raw bs \<Rightarrow>
          if c = TK then Inr (Tk_Attrs (tk_unescape bs))
          else if bs_loc_class c then Inl AttributeError
          else Inr No_Attrs)"

text \<open>No class overrides \<open>out_decode\<close>.\<close>

definition bs_decode :: "dir \<Rightarrow> bs_class \<Rightarrow> bs_payload \<Rightarrow> bs_body res" where
  "bs_decode d c payload = (case d of In \<Rightarrow> bs_in_decode c payload | Out \<Rightarrow> Inr No_Attrs)"

end
