(* ===== verification/BS_Proto.thy ===== *)
theory BS_Proto
  imports BS_Packets
begin

text \<open>
  Messages for beesure terminals (\<open>out_encode\<close>, \<open>packed\<close>) and the functions that
  \<open>loctrkd/beesure.py\<close> exports.
\<close>

section \<open>Messages for the terminal\<close>

text \<open>\<open>splitpair\<close> and \<open>pblist\<close>\<close>

definition splitpair :: "pystr \<Rightarrow> pyval res" where
  "splitpair s = (case split_on 58 s of [a, b] \<Rightarrow> Inr (VTup [VStr a, VStr b]) | _ \<Rightarrow> Inl ValueError)"

definition pblist :: "pyval \<Rightarrow> pyval res" where
  "pblist x =
     and_then (case x of
         VStr s \<Rightarrow> and_then (map_res splitpair (split_on 44 s)) (\<lambda>ps. Inr (VList ps))
       | _ \<Rightarrow> Inr x)
     (\<lambda>lx. and_then (py_seq lx) (\<lambda>els. if length els > 5 then Inl ValueError else Inr lx))"

fun bs_OUT_KWARGS :: "(pyval \<Rightarrow> pystr) \<Rightarrow> bs_class \<Rightarrow> kwspec" where
  "bs_OUT_KWARGS rep CALL = [(u ''phonenumber'', conv_str rep, VStr [])]"
| "bs_OUT_KWARGS rep CENTER = [(u ''phonenumber'', conv_str rep, VStr [])]"
| "bs_OUT_KWARGS rep SOS1 = [(u ''phonenumber'', conv_str rep, VStr [])]"
| "bs_OUT_KWARGS rep SOS2 = [(u ''phonenumber'', conv_str rep, VStr [])]"
| "bs_OUT_KWARGS rep SOS3 = [(u ''phonenumber'', conv_str rep, VStr [])]"
| "bs_OUT_KWARGS rep FLOWER = [(u ''number'', conv_int, VInt 1)]"
| "bs_OUT_KWARGS rep LZ = [(u ''language'', conv_int, VInt 1), (u ''timezone'', conv_int, VInt 0)]"
| "bs_OUT_KWARGS rep MESSAGE = [(u ''message'', conv_str rep, VStr [])]"
| "bs_OUT_KWARGS rep PHB = [(u ''entries'', pblist, VList [])]"
| "bs_OUT_KWARGS rep PHB2 = [(u ''entries'', pblist, VList [])]"
| "bs_OUT_KWARGS rep SOS = [(u ''phonenumbers'', l3str, VList [VStr [], VStr [], VStr []])]"
| "bs_OUT_KWARGS rep UPLOAD = [(u ''interval'', conv_int, VInt 600)]"
| "bs_OUT_KWARGS rep _ = []"

text \<open>\<open>s.encode("utf_16_be").hex()\<close>: two bytes each, surrogate pairs above \<open>0xFFFF\<close>\<close>

definition utf16_char :: "nat \<Rightarrow> bytes res" where
  "utf16_char c =
     (if 0xD800 \<le> c \<and> c < 0xE000 then Inl UnicodeEncodeError
      else if c < 0x10000 then Inr [byte_of (c div 256), byte_of (c mod 256)]
      else
        (let v = c - 0x10000; hi = 0xD800 + v div 1024; lo = 0xDC00 + v mod 1024 in
         Inr [byte_of (hi div 256), byte_of (hi mod 256), byte_of (lo div 256), byte_of (lo mod 256)]))"

definition utf16_hex :: "pystr \<Rightarrow> pystr res" where
  "utf16_hex s = and_then (map_res utf16_char s) (\<lambda>bss. Inr (hex_bytes (concat bss)))"

text \<open>A value that is used as text: \<open>str\<close> methods and \<open>join\<close> refuse any other.\<close>

definition as_str :: "py_exn \<Rightarrow> pyval \<Rightarrow> pystr res" where
  "as_str e v = (case v of VStr s \<Rightarrow> Inr s | _ \<Rightarrow> Inl e)"

definition str_attr :: "attrs \<Rightarrow> pystr \<Rightarrow> pystr res" where
  "str_attr a k = and_then (attr a k) (\<lambda>v.
     case v of VStr s \<Rightarrow> Inr s | VInt i \<Rightarrow> Inr (py_str_int i) | _ \<Rightarrow> Inl TypeError)"

definition phb_entry :: "pyval \<Rightarrow> pystr res" where
  "phb_entry v =
     and_then (unpack_pair v) (\<lambda>(name, num).
     and_then (as_str AttributeError name) (\<lambda>name. and_then (utf16_hex name) (\<lambda>name.
     and_then (as_str TypeError num) (\<lambda>num. Inr (num @ [44] @ name)))))"

definition phb_out_encode :: "attrs \<Rightarrow> pystr res" where
  "phb_out_encode a =
     and_then (attr a (u ''entries'')) (\<lambda>v. and_then (py_seq v) (\<lambda>els.
     and_then (map_res phb_entry els) (\<lambda>es. Inr (join_with [44] es))))"

definition sos_out_encode :: "attrs \<Rightarrow> pystr res" where
  "sos_out_encode a =
     and_then (attr a (u ''phonenumbers'')) (\<lambda>v. and_then (py_seq v) (\<lambda>els.
     and_then (map_res (as_str TypeError) els) (\<lambda>es. Inr (join_with [44] es))))"

fun bs_out_encode :: "bs_class \<Rightarrow> attrs \<Rightarrow> pystr res" where
  "bs_out_encode CALL a = str_attr a (u ''phonenumber'')"
| "bs_out_encode CENTER a = str_attr a (u ''phonenumber'')"
| "bs_out_encode SOS1 a = str_attr a (u ''phonenumber'')"
| "bs_out_encode SOS2 a = str_attr a (u ''phonenumber'')"
| "bs_out_encode SOS3 a = str_attr a (u ''phonenumber'')"
| "bs_out_encode FLOWER a = str_attr a (u ''number'')"
| "bs_out_encode LZ a = and_then (str_attr a (u ''language'')) (\<lambda>l.
     and_then (str_attr a (u ''timezone'')) (\<lambda>t. Inr (l @ [44] @ t)))"
| "bs_out_encode MESSAGE a = and_then (str_attr a (u ''message'')) utf16_hex"
| "bs_out_encode PHB a = phb_out_encode a"
| "bs_out_encode PHB2 a = phb_out_encode a"
| "bs_out_encode SOS a = sos_out_encode a"
| "bs_out_encode TK a = Inr (u ''1'')"
| "bs_out_encode UPLOAD a = str_attr a (u ''interval'')"
| "bs_out_encode _ a = Inr []"

text \<open>\<open>in_encode\<close> exists for \<open>LK\<close> only.\<close>

definition bs_in_encode :: "bs_class \<Rightarrow> pystr res" where
  "bs_in_encode c = (if c = LK then Inr (u ''LK'') else Inl NotImplementedError)"

text \<open>
  \<open>packed\<close>. The length in the header is the number of characters of the payload, while the
  payload is sent in UTF-8.
\<close>

definition bs_text :: "bs_class \<Rightarrow> pystr \<Rightarrow> pystr" where
  "bs_text c data = (if data \<noteq> [] then bs_PROTO c @ [44] @ data else bs_PROTO c)"

definition bs_packed :: "bs_class \<Rightarrow> pystr \<Rightarrow> bytes res" where
  "bs_packed c data =
     (let payload = bs_text c data in
      utf8_encode (u ''[LT*0000000000*'' @ format_04X (length payload) @ [42] @ payload @ [93]))"

definition bs_Out_packed :: "(pyval \<Rightarrow> pystr) \<Rightarrow> bs_class \<Rightarrow> attrs \<Rightarrow> bytes res" where
  "bs_Out_packed rep c kwargs =
     and_then (init_kwargs (bs_OUT_KWARGS rep c) kwargs) (\<lambda>a.
     and_then (bs_out_encode c a) (bs_packed c))"

definition bs_In_packed :: "bs_class \<Rightarrow> bytes res" where
  "bs_In_packed c = and_then (bs_in_encode c) (bs_packed c)"

section \<open>The module's functions\<close>

record bs_obj =
  bo_class :: bs_class
  bo_dir :: dir
  bo_vendor :: pystr
  bo_imei :: pystr
  bo_datalength :: nat
  bo_payload :: bs_payload
  bo_body :: bs_body
  bo_proto :: "pystr option"
  bo_cause :: "py_exn option"

text \<open>\<open>str\<close> of a \<open>bytes\<close> object\<close>

definition repr_byte :: "nat \<Rightarrow> byte \<Rightarrow> pystr" where
  "repr_byte q b =
     (let c = unat b in
      if c = q \<or> c = 92 then [92, c]
      else if c = 9 then u [CHR 0x5C, CHR ''t'']
      else if c = 10 then u [CHR 0x5C, CHR ''n'']
      else if c = 13 then u [CHR 0x5C, CHR ''r'']
      else if c < 32 \<or> 127 \<le> c then [92, 120] @ hex_byte b
      else [c])"

definition repr_bytes :: "bytes \<Rightarrow> pystr" where
  "repr_bytes bs =
     (let q = (if 39 \<in> set bs \<and> 34 \<notin> set bs then 34 else 39)
      in [98, q] @ concat (map (repr_byte q) bs) @ [q])"

text \<open>\<open>packet[20:-1]\<close>\<close>

definition bs_data :: "bytes \<Rightarrow> bytes" where
  "bs_data packet = drop 20 (butlast packet)"

definition bs_verb :: "bytes \<Rightarrow> pystr" where
  "bs_verb part = (if \<forall>b \<in> set part. unat b < 128 then map unat part else repr_bytes part)"

definition bs_caught :: "py_exn \<Rightarrow> bool" where
  "bs_caught e \<longleftrightarrow> e = DecodeError \<or> is_ValueError e \<or> e = IndexError"

text \<open>Vendor, IMEI and data length of the header; empty where there is none\<close>

definition bs_packet_header :: "bytes \<Rightarrow> pystr \<times> pystr \<times> nat" where
  "bs_packet_header packet =
     (case bs_framestart packet of Some (_, v, i, n) \<Rightarrow> (v, i, n) | None \<Rightarrow> ([], [], 0))"

text \<open>What follows the verb's comma\<close>

definition bs_rest :: "bytes \<Rightarrow> bytes" where
  "bs_rest packet = (case split_once 44 (bs_data packet) of [_, r] \<Rightarrow> r | _ \<Rightarrow> [])"

definition bs_new :: "bytes \<Rightarrow> dir \<Rightarrow> bs_class \<Rightarrow> bs_payload \<Rightarrow> bs_body \<Rightarrow> pystr option \<Rightarrow>
    py_exn option \<Rightarrow> bs_obj" where
  "bs_new packet d c payload body proto cause =
     (case bs_packet_header packet of (vendor, imei, datalength) \<Rightarrow>
       \<lparr>bo_class = c, bo_dir = d, bo_vendor = vendor, bo_imei = imei,
        bo_datalength = datalength, bo_payload = payload, bo_body = body,
        bo_proto = proto, bo_cause = cause\<rparr>)"

definition bs_parse_message :: "bytes \<Rightarrow> dir \<Rightarrow> bs_obj res" where
  "bs_parse_message packet d =
     (let proto = bs_verb (hd (split_once 44 (bs_data packet))); rest = bs_rest packet;
          unknown = (\<lambda>payload e. bs_new packet d UNKNOWN payload No_Attrs (Some proto) (Some e))
      in case bs_CLASSES proto of
           None \<Rightarrow> Inr (unknown (Raw rest) ValueError)
         | Some c \<Rightarrow>
             and_then (if bs_BINARY c then Inr (Raw rest)
                       else and_then (cp1252_decode rest) (\<lambda>s. Inr (Fields (split_on 44 s))))
               (\<lambda>payload.
                 case bs_decode d c payload of
                   Inr body \<Rightarrow> Inr (bs_new packet d c payload body None None)
                 | Inl e \<Rightarrow> if bs_caught e then Inr (unknown payload e) else Inl e))"

definition bs_class_by_prefix :: "pystr \<Rightarrow> (bs_class + pystr list) res" where
  "bs_class_by_prefix pfx =
     (if prefix BS_PREFIX pfx then
        (let pname = ascii_upper (drop (length BS_PREFIX) pfx);
             lst = filter (\<lambda>c. prefix pname (ascii_upper (bs_PROTO c))) bs_all
         in if length lst = 1 then Inr (Inl (hd lst))
            else (case find (\<lambda>c. bs_PROTO c = pname) lst of
                Some c \<Rightarrow> Inr (Inl c)
              | None \<Rightarrow> Inr (Inr (map bs_PROTO lst))))
      else Inl UnboundLocalError)"

definition bs_proto_handled :: "pystr \<Rightarrow> bool" where
  "bs_proto_handled proto = prefix BS_PREFIX proto"

definition bs_local_proto :: "bytes \<Rightarrow> pystr" where
  "bs_local_proto packet =
     (case utf8_decode (hd (split_on 44 (bs_data packet))) of
        Inr s \<Rightarrow> s
      | Inl e \<Rightarrow> u ''UNKNOWN'')"

definition bs_proto_of_message :: "bytes \<Rightarrow> pystr" where
  "bs_proto_of_message packet = BS_PREFIX @ bs_local_proto packet"

definition bs_imei_from_packet :: "bytes \<Rightarrow> pystr option" where
  "bs_imei_from_packet packet =
     (case bs_framestart packet of
        Some (0, _, imei, _) \<Rightarrow> if imei \<noteq> [] then Some imei else None
      | _ \<Rightarrow> None)"

definition bs_is_goodbye_packet :: "bytes \<Rightarrow> bool" where
  "bs_is_goodbye_packet packet = False"

definition bs_inline_response :: "(pyval \<Rightarrow> pystr) \<Rightarrow> bytes \<Rightarrow> bytes option res" where
  "bs_inline_response rep packet =
     (case bs_CLASSES (bs_local_proto packet) of
        Some c \<Rightarrow>
          if bs_RESPOND c = INL then and_then (bs_Out_packed rep c []) (\<lambda>r. Inr (Some r))
          else Inr None
      | None \<Rightarrow> Inr None)"

definition bs_probe_buffer :: "bytes \<Rightarrow> bool" where
  "bs_probe_buffer buffer \<longleftrightarrow> bs_search buffer \<noteq> None"

definition bs_exposed_protos :: "(pystr \<times> bool) list" where
  "bs_exposed_protos = map (\<lambda>c. (bs_proto_name c, False)) (filter bs_loc_class bs_all)"

definition loc_rectified :: "loc_data \<Rightarrow> report" where
  "loc_rectified l =
     (if ld_gps_valid l \<or> ld_num_of_sats l > 3 then
        CoordReport
          \<lparr>cr_devtime = py_str_datetime (ld_devtime l),
           cr_battery_percentage = Some (ld_battery_percentage l),
           cr_accuracy = VFloat (ld_positioning_accuracy l), cr_altitude = VFloat (ld_altitude l),
           cr_speed = VFloat (ld_speed l), cr_direction = VFloat (ld_direction l),
           cr_latitude = ld_latitude l, cr_longitude = ld_longitude l\<rparr>
      else
        HintReport
          \<lparr>hr_devtime = py_str_datetime (ld_devtime l),
           hr_battery_percentage = Some (ld_battery_percentage l),
           hr_mcc = ld_mcc l, hr_mnc = ld_mnc l, hr_gsm_cells = ld_gsm_cells l,
           hr_wifi_aps = ld_wifi_aps l\<rparr>)"

definition bs_rectified :: "bs_obj \<Rightarrow> report res" where
  "bs_rectified m =
     (if bs_loc_class (bo_class m)
      then (case bo_body m of Loc_Attrs l \<Rightarrow> Inr (loc_rectified l) | _ \<Rightarrow> Inl AttributeError)
      else Inl AttributeError)"

definition bs_make_response ::
  "(pyval \<Rightarrow> pystr) \<Rightarrow> pystr \<Rightarrow> pystr \<Rightarrow> attrs \<Rightarrow> (bs_class \<times> attrs) option res" where
  "bs_make_response rep cmd imei kwargs =
     (let out = (\<lambda>c kw. and_then (init_kwargs (bs_OUT_KWARGS rep c) kw) (\<lambda>a. Inr (Some (c, a)))) in
      if cmd = u ''poweroff'' then out POWEROFF []
      else if cmd = u ''refresh'' then out MONITOR []
      else if cmd = u ''message'' then
        out MESSAGE [(u ''message'',
          case map_of kwargs (u ''txt'') of Some v \<Rightarrow> v | None \<Rightarrow> VStr (u ''Hello''))]
      else Inr None)"

section \<open>Tables and names\<close>

lemma bs_all_UNIV: "set bs_all = UNIV"
proof -
  have "c \<in> set bs_all" for c by (cases c) (simp_all add: bs_all_def)
  then show ?thesis by blast
qed

lemma bs_PROTO_inj: "inj bs_PROTO"
proof -
  have "distinct (map bs_PROTO bs_all)" by (simp add: bs_all_def)
  then show ?thesis by (simp add: distinct_map bs_all_UNIV)
qed

lemma bs_CLASSES_iff: "bs_CLASSES n = Some c \<longleftrightarrow> bs_PROTO c = n"
proof -
  have "distinct (map fst (rev (map (\<lambda>c. (bs_PROTO c, c)) bs_all)))" by (simp add: bs_all_def)
  then have "bs_CLASSES n = Some c \<longleftrightarrow> (n, c) \<in> set (rev (map (\<lambda>c. (bs_PROTO c, c)) bs_all))"
    unfolding bs_CLASSES_def by (rule map_of_eq_Some_iff)
  then show ?thesis using bs_all_UNIV by auto
qed

text \<open>
  A class is found by its own name, with the module's tag in front and in any mixture of
  cases of the letters a to z: also \<open>UD\<close>, \<open>PHB\<close>, \<open>SOS\<close> and \<open>TKQ\<close>, which are prefixes of other names.
\<close>

theorem bs_class_by_prefix_name:
  assumes "ascii_upper name = ascii_upper (bs_PROTO c)"
  shows "bs_class_by_prefix (BS_PREFIX @ name) = Inr (Inl c)"
  using assms by (cases c) (simp_all add: bs_class_by_prefix_def bs_all_def ascii_upper_def)

theorem bs_class_by_prefix_name_witness:
  "bs_class_by_prefix (BS_PREFIX @ u ''ud'') = Inr (Inl UD)"
  by (rule bs_class_by_prefix_name) (simp add: ascii_upper_def)

section \<open>Packed messages\<close>

lemma ascii_bs_text: "ascii (bs_text c data) \<longleftrightarrow> ascii data"
  by (cases c) (auto simp: bs_text_def ascii_def)

lemma LT_header:
  assumes "n < 65536"
  defines "h \<equiv> mk_header (b8 ''LT'') (b8 ''0000000000'') (map byte_of (format_04X n))"
  shows "bs_header (h @ r)" and "hdr_datalen (h @ r) = n" and "length h = 20"
    and "hdr_imei (h @ r) = u ''0000000000''"
    and "utf8_encode (u ''[LT*0000000000*'' @ format_04X n @ [42]) = Inr h"
proof -
  have len: "length (b8 ''LT'') = 2" "length (b8 ''0000000000'') = 10"
    "length (map byte_of (format_04X n)) = 4"
    using length_format_04X [OF assms(1)] by simp_all
  note mk = mk_header_header [OF len, of r] and l = mk_header_slices(1) [OF len]
  show "bs_header (h @ r)" "hdr_datalen (h @ r) = n" "hdr_imei (h @ r) = u ''0000000000''"
    using mk format_04X_bytes [OF assms(1)] by (simp_all add: h_def re_word_def re_digit_def)
  show "length h = 20" using l by (simp add: h_def)
  have "ascii (u ''[LT*0000000000*'' @ format_04X n @ [42])"
    using format_04X_bytes(2) [OF assms(1)] by (auto simp: ascii_def)
  from utf8_encode_ascii [OF this] show "utf8_encode (u ''[LT*0000000000*'' @ format_04X n @ [42]) = Inr h"
    by (simp add: h_def mk_header_def byte_of_def)
qed

lemma bs_packed_Inr:
  assumes "length (bs_text c data) < 65536"
  shows "bs_packed c data = Inr q \<longleftrightarrow> (\<exists>t. utf8_encode (bs_text c data) = Inr t \<and>
    q = mk_header (b8 ''LT'') (b8 ''0000000000'')
      (map byte_of (format_04X (length (bs_text c data)))) @ t @ [93])"
proof -
  have e: "utf8_encode [93] = Inr [93]" by (simp add: utf8_encode_ascii ascii_def byte_of_def)
  let ?n = "length (bs_text c data)"
  have "bs_packed c data = utf8_encode
      ((u ''[LT*0000000000*'' @ format_04X ?n @ [42]) @ bs_text c data @ [93])"
    by (simp only: bs_packed_def Let_def append.assoc)
  also have "\<dots> = and_then (utf8_encode (bs_text c data)) (\<lambda>t. Inr (mk_header (b8 ''LT'')
      (b8 ''0000000000'') (map byte_of (format_04X ?n)) @ t @ [93]))"
    by (simp only: utf8_encode_append [of "u ''[LT*0000000000*'' @ format_04X ?n @ [42]"]
        LT_header(5) [OF assms] utf8_encode_append [of "bs_text c data"] e and_then.simps
        and_then_assoc)
  finally show ?thesis by (auto simp: res_simps)
qed

text \<open>
  A packed message is a well-formed packet, which the terminal can tell from the next one,
  exactly when its text is ASCII: the length in the header counts characters while the
  text is sent in UTF-8. Then its data is the text: the verb and, after a comma, the
  arguments.
\<close>

theorem bs_packed_wf:
  assumes "bs_packed c data = Inr q" and "length (bs_text c data) < 65536"
  shows "(bs_wf q \<longleftrightarrow> ascii data) \<and>
    (ascii data \<longrightarrow> bs_data q = map byte_of (bs_text c data) \<and> hdr_imei q = u ''0000000000'')"
proof -
  let ?h = "mk_header (b8 ''LT'') (b8 ''0000000000'')
      (map byte_of (format_04X (length (bs_text c data))))"
  from assms obtain t where t: "utf8_encode (bs_text c data) = Inr t" and q: "q = ?h @ t @ [93]"
    by (auto simp: bs_packed_Inr)
  note h = LT_header(1,2,4) [OF assms(2), of "t @ [93]"] LT_header(3) [OF assms(2)]
  have "bs_wf q \<longleftrightarrow> length t = length (bs_text c data)"
    using h by (simp add: bs_wf_def q)
  moreover have "length t = length (bs_text c data) \<longleftrightarrow> ascii data"
  proof
    assume "ascii data"
    then have "utf8_encode (bs_text c data) = Inr (map byte_of (bs_text c data))"
      by (intro utf8_encode_ascii) (simp add: ascii_bs_text)
    with t show "length t = length (bs_text c data)" by auto
  qed (use utf8_encode_length [OF t] in \<open>simp add: ascii_bs_text\<close>)
  moreover have "bs_data q = t" using h by (simp add: bs_data_def q butlast_append)
  moreover have "ascii data \<Longrightarrow> t = map byte_of (bs_text c data)"
    using t utf8_encode_ascii [of "bs_text c data"] by (simp add: ascii_bs_text)
  ultimately show ?thesis using h by (auto simp: q)
qed

theorem bs_packed_wf_witness:
  "\<exists>q. bs_packed CALL [0xE9] = Inr q \<and> \<not> bs_wf q"
proof -
  have "utf8_encode (bs_text CALL [0xE9]) = Inr (map byte_of (u ''CALL,'') @ [0xC3, 0xA9])"
    by (simp add: bs_text_def utf8_encode_def utf8_char_def byte_of_def)
  then obtain q where q: "bs_packed CALL [0xE9] = Inr q"
    using bs_packed_Inr [of CALL "[0xE9]"] by (auto simp: bs_text_def)
  from bs_packed_wf [OF q] have "\<not> bs_wf q" by (simp add: bs_text_def ascii_def)
  with q show ?thesis by blast
qed

section \<open>Inline responses\<close>

lemma split_on_map: "inj_on f (insert c (set xs)) \<Longrightarrow> split_on (f c) (map f xs) = map (map f) (split_on c xs)"
proof (induction xs)
  case (Cons x xs)
  then have IH: "split_on (f c) (map f xs) = map (map f) (split_on c xs)"
    by (auto simp: inj_on_def)
  have "f x = f c \<longleftrightarrow> x = c" using Cons.prems by (auto simp: inj_on_def)
  then show ?case by (cases "split_on c xs") (simp_all add: IH)
qed simp

lemma byte_of_inj: "inj_on byte_of {..<256}"
  by (rule inj_on_inverseI [of _ unat]) simp

lemma bs_local_proto_text:
  assumes "bs_data q = map byte_of (bs_text c data)" and "ascii data"
  shows "bs_local_proto q = bs_PROTO c"
proof -
  let ?t = "bs_text c data"
  have "ascii ?t" using assms(2) by (simp add: ascii_bs_text)
  then have "insert 44 (set ?t) \<subseteq> {..<256}" by (auto simp: ascii_def)
  then have "inj_on byte_of (insert 44 (set ?t))" by (rule inj_on_subset [OF byte_of_inj])
  from split_on_map [OF this] have "split_on 44 (map byte_of ?t) = map (map byte_of) (split_on 44 ?t)"
    by (simp add: byte_of_def)
  moreover have no: "44 \<notin> set (bs_PROTO c)" "ascii (bs_PROTO c)" by (cases c; simp add: ascii_def)+
  then have "hd (split_on 44 ?t) = bs_PROTO c"
    by (auto simp: bs_text_def split_on_append split_on_no_sep)
  ultimately have "hd (split_on 44 (bs_data q)) = map byte_of (bs_PROTO c)"
    by (simp add: assms(1) hd_map)
  with no utf8_decode_ascii [of "bs_PROTO c"] show ?thesis by (simp add: bs_local_proto_def)
qed

lemma bs_packed_returns:
  assumes "ascii data" and "length (bs_text c data) < 65536"
  shows "\<exists>q. bs_packed c data = Inr q \<and> bs_wf q \<and> bs_data q = map byte_of (bs_text c data)"
proof -
  let ?h = "mk_header (b8 ''LT'') (b8 ''0000000000'')
      (map byte_of (format_04X (length (bs_text c data))))"
  have "utf8_encode (bs_text c data) = Inr (map byte_of (bs_text c data))"
    by (rule utf8_encode_ascii) (simp add: ascii_bs_text assms(1))
  with assms have q: "bs_packed c data = Inr (?h @ map byte_of (bs_text c data) @ [93])"
    by (simp add: bs_packed_Inr)
  note h = LT_header(1,2,4) [OF assms(2), of "map byte_of (bs_text c data) @ [93]"]
    LT_header(3) [OF assms(2)]
  with q show ?thesis by (simp add: bs_wf_def bs_data_def butlast_append)
qed

lemma bs_inline_answers:
  "\<exists>r. bs_inline_response rep packet = Inr r \<and>
    (r \<noteq> None) = (\<exists>c \<in> set bs_all. bs_PROTO c = bs_local_proto packet \<and> bs_RESPOND c = INL) \<and>
    (\<forall>reply \<in> set_option r. bs_wf reply \<and> bs_local_proto reply = bs_local_proto packet \<and>
       (\<forall>im \<in> Collect imei_digits. \<exists>q. bs_enframe reply (Some im) = Inr q \<and> bs_wf q \<and>
          hdr_imei q = im \<and> drop 20 q = drop 20 reply))"
proof (cases "\<exists>c. bs_PROTO c = bs_local_proto packet \<and> bs_RESPOND c = INL")
  case True
  then obtain c where c: "bs_PROTO c = bs_local_proto packet" "bs_RESPOND c = INL" by blast
  then have cls: "bs_CLASSES (bs_local_proto packet) = Some c" by (simp add: bs_CLASSES_iff)
  obtain data where d: "ascii data" "length (bs_text c data) < 65536"
    and o: "bs_Out_packed rep c [] = bs_packed c data"
  proof
    let ?d = "if c = TK then u ''1'' else []"
    show "ascii ?d" by (simp add: ascii_def)
    show "length (bs_text c ?d) < 65536" "bs_Out_packed rep c [] = bs_packed c ?d"
      using c(2) by (cases c; simp add: bs_text_def bs_Out_packed_def init_kwargs_def)+
  qed
  from bs_packed_returns [OF d] obtain q where
    q: "bs_packed c data = Inr q" "bs_wf q" "bs_data q = map byte_of (bs_text c data)" by blast
  have "bs_local_proto q = bs_local_proto packet"
    using bs_local_proto_text [OF q(3) d(1)] c(1) by simp
  moreover have "\<exists>q'. bs_enframe q (Some im) = Inr q' \<and> bs_wf q' \<and> hdr_imei q' = im \<and>
      drop 20 q' = drop 20 q" if "imei_digits im" for im
    using bs_enframe_wf [OF q(2) that] by blast
  ultimately show ?thesis
    using c cls q bs_all_UNIV by (auto simp: bs_inline_response_def o)
next
  case False
  then show ?thesis by (auto simp: bs_inline_response_def bs_CLASSES_iff split: option.split)
qed

text \<open>
  C20: On every packet \<open>inline_response\<close> returns. It answers exactly the verbs whose class asks
  for an inline response; the answer is a well-formed packet with the same verb, and
  readdressing it to any IMEI of ten digits succeeds and keeps it well formed.
\<close>

theorem bs_inline_reply:
  "\<exists>r. bs_inline_response rep packet = Inr r \<and>
    (r \<noteq> None) = (\<exists>c \<in> set bs_all. bs_PROTO c = bs_local_proto packet \<and> bs_RESPOND c = INL) \<and>
    (\<forall>reply \<in> set_option r. bs_wf reply \<and> bs_local_proto reply = bs_local_proto packet \<and>
       (\<forall>im \<in> Collect imei_digits. \<exists>q. bs_enframe reply (Some im) = Inr q \<and> bs_wf q \<and>
          hdr_imei q = im \<and> drop 20 q = drop 20 reply))"
  by (rule bs_inline_answers)

theorem bs_inline_reply_witness:
  "\<exists>r. bs_inline_response (\<lambda>v. []) (b8 ''[3G*1234567890*0002*LK]'') = Inr r \<and>
    (r \<noteq> None) = (\<exists>c \<in> set bs_all. bs_PROTO c =
       bs_local_proto (b8 ''[3G*1234567890*0002*LK]'') \<and> bs_RESPOND c = INL) \<and>
    (\<forall>reply \<in> set_option r. bs_wf reply \<and>
       bs_local_proto reply = bs_local_proto (b8 ''[3G*1234567890*0002*LK]'') \<and>
       (\<forall>im \<in> Collect imei_digits. \<exists>q. bs_enframe reply (Some im) = Inr q \<and> bs_wf q \<and>
          hdr_imei q = im \<and> drop 20 q = drop 20 reply))"
  by (rule bs_inline_reply)

section \<open>Parsing\<close>

lemma length_split_on: "length (split_on c xs) = Suc (count_list xs c)"
  by (induction xs) (auto split: list.splits)

lemma cp1252_char_comma: "cp1252_char b = Inr c \<Longrightarrow> (c = 44) = (b = 44)"
proof -
  assume a: "cp1252_char b = Inr c"
  have "\<forall>p \<in> set cp1252_high. snd p \<noteq> 44 \<and> fst p \<noteq> 44" by (simp add: cp1252_high_def)
  moreover have "unat b = 44 \<longleftrightarrow> b = 44" using word_unat_eq_iff [of b 44] by simp
  ultimately show ?thesis
    using a by (auto simp: cp1252_char_def split: if_splits option.splits dest!: map_of_SomeD)
qed

lemma cp1252_char_raises:
  assumes "cp1252_char b = Inl e"
  shows "e = UnicodeDecodeError \<and> unat b \<in> {0x81, 0x8D, 0x8F, 0x90, 0x9D}"
proof -
  from assms have r: "128 \<le> unat b" "unat b < 160" "map_of cp1252_high (unat b) = None"
    and e: "e = UnicodeDecodeError"
    by (auto simp: cp1252_char_def split: if_splits option.splits)
  from r(3) have "unat b \<notin> fst ` set cp1252_high" by (simp add: map_of_eq_None_iff)
  then have "unat b \<notin> {0x80, 0x82, 0x83, 0x84, 0x85, 0x86, 0x87, 0x88, 0x89, 0x8A, 0x8B, 0x8C,
      0x8E, 0x91, 0x92, 0x93, 0x94, 0x95, 0x96, 0x97, 0x98, 0x99, 0x9A, 0x9B, 0x9C, 0x9E, 0x9F}"
    by (simp add: cp1252_high_def)
  with r(1,2) have "unat b \<in> {0x81, 0x8D, 0x8F, 0x90, 0x9D}" by simp presburger
  with e show ?thesis by simp
qed

lemma map_res_Inl: "map_res f xs = Inl e \<Longrightarrow> \<exists>x \<in> set xs. f x = Inl e"
  by (induction xs) (auto simp: res_simps)

lemma cp1252_decode_raises:
  "cp1252_decode bs = Inl e \<Longrightarrow>
   e = UnicodeDecodeError \<and> (\<exists>b \<in> set bs. unat b \<in> {0x81, 0x8D, 0x8F, 0x90, 0x9D})"
  unfolding cp1252_decode_def using map_res_Inl [of cp1252_char bs e] cp1252_char_raises by blast

lemma cp1252_decode_commas: "cp1252_decode bs = Inr s \<Longrightarrow> count_list s 44 = count_list bs 44"
  unfolding cp1252_decode_def
  by (induction bs arbitrary: s) (auto simp: res_simps dest: cp1252_char_comma)

lemma loc_setattrs_raises: "only_raises (\<lambda>e. e = ValueError) (loc_setattrs args)"
proof -
  have "only_raises (\<lambda>e. e = ValueError) (f x)" if "f \<in> set loc_table" for f x
    using that
    by (auto simp: loc_table_def lfloat_def lint_def intro!: raises_intro)
  then show ?thesis
    unfolding loc_setattrs_def by (intro raises_intro) (auto dest: set_zip_leftD)
qed

lemma loc_in_decode_raises:
  "only_raises (\<lambda>e. is_ValueError e \<or> e = IndexError \<or> (e = AttributeError \<and> length args \<le> 16))
    (loc_in_decode args)"
proof -
  have s: "only_raises (\<lambda>e. is_ValueError e \<or> e = IndexError \<or> (e = AttributeError \<and> length args \<le> 16))
      (loc_setattrs args)"
    by (rule only_raises_mono [OF loc_setattrs_raises]) simp
  have l: "length vals = min 20 (length args)" if "loc_setattrs args = Inr vals" for vals
    using map_res_Inr_length [OF that [unfolded loc_setattrs_def]] by (simp add: loc_table_def)
  show ?thesis
    unfolding loc_in_decode_def loc_cell_def loc_ap_def loc_devtime_def
    by (intro raises_intro s) (auto dest: l)
qed

lemma set_bs_data: "set (bs_data packet) \<subseteq> set packet"
  by (auto simp: bs_data_def dest!: in_set_dropD in_set_butlastD)

lemma bs_parse_payload:
  assumes "bs_CLASSES (bs_verb (hd (split_once 44 (bs_data packet)))) = Some c"
    and "(if bs_BINARY c then Inr (Raw (bs_rest packet)) else
      and_then (cp1252_decode (bs_rest packet)) (\<lambda>s. Inr (Fields (split_on 44 s)))) = Inr payload"
  shows "bs_parse_message packet d = (case bs_decode d c payload of
      Inr body \<Rightarrow> Inr (bs_new packet d c payload body None None)
    | Inl e \<Rightarrow> if bs_caught e then Inr (bs_new packet d UNKNOWN payload No_Attrs
        (Some (bs_verb (hd (split_once 44 (bs_data packet))))) (Some e)) else Inl e)"
  by (simp only: bs_parse_message_def Let_def assms option.case and_then.simps)

lemma bs_new_sel [simp]:
  "bo_class (bs_new packet d c payload body proto cause) = c"
  "bo_body (bs_new packet d c payload body proto cause) = body"
  "bo_cause (bs_new packet d c payload body proto cause) = cause"
  by (simp_all add: bs_new_def split: prod.split)

text \<open>
  C19: \<open>parse_message\<close> raises on no packet but two kinds, of a known verb that is not binary:
  one with a byte that Windows-1252 leaves undefined, and an incoming location message with
  so few fields that the number of cells is missing. Every other packet is parsed into its
  class or into an UNKNOWN.
\<close>

theorem bs_parse_raises:
  assumes "bs_parse_message packet d = Inl e"
  shows "\<exists>c. bs_CLASSES (bs_verb (hd (split_once 44 (bs_data packet)))) = Some c \<and> c \<noteq> TK \<and>
    ((e = UnicodeDecodeError \<and> (\<exists>b \<in> set packet. unat b \<in> {0x81, 0x8D, 0x8F, 0x90, 0x9D})) \<or>
     (e = AttributeError \<and> d = In \<and> bs_loc_class c \<and> count_list (bs_data packet) 44 \<le> 16))"
proof -
  from assms obtain c where c: "bs_CLASSES (bs_verb (hd (split_once 44 (bs_data packet)))) = Some c"
    by (auto simp: bs_parse_message_def Let_def split: option.splits)
  have sub: "set (bs_rest packet) \<subseteq> set packet"
    and commas: "count_list (bs_data packet) 44 \<le> Suc (count_list (bs_rest packet) 44)"
    using split_once_cases [of 44 "bs_data packet"] set_bs_data [of packet]
    by (auto simp: bs_rest_def)
  show ?thesis
  proof (cases "c = TK")
    case True
    then have "bs_decode d c (Raw (bs_rest packet)) = Inl e"
      using assms bs_parse_payload [OF c, of "Raw (bs_rest packet)"]
      by (auto simp: bs_BINARY_def split: sum.splits if_splits)
    with True show ?thesis by (auto simp: bs_decode_def bs_in_decode_def split: dir.splits)
  next
    case False
    show ?thesis
    proof (cases "cp1252_decode (bs_rest packet)")
      case (Inl e')
      then have "e = e'"
        using assms c False by (simp add: bs_parse_message_def bs_BINARY_def)
      with cp1252_decode_raises [OF Inl] sub c False show ?thesis by blast
    next
      case (Inr s)
      then have d: "bs_decode d c (Fields (split_on 44 s)) = Inl e" "\<not> bs_caught e"
        using assms False bs_parse_payload [OF c, of "Fields (split_on 44 s)"]
        by (auto simp: bs_BINARY_def split: sum.splits if_splits)
      then have "d = In" "bs_loc_class c" "loc_in_decode (split_on 44 s) = Inl e"
        using False by (auto simp: bs_decode_def bs_in_decode_def res_simps split: dir.splits if_splits)
      moreover from only_raisesD [OF loc_in_decode_raises this(3)] d(2)
      have "e = AttributeError" "count_list s 44 < 16"
        by (auto simp: bs_caught_def length_split_on)
      ultimately show ?thesis
        using c False commas cp1252_decode_commas [OF Inr] by auto
    qed
  qed
qed

theorem bs_parse_raises_witness:
  "bs_parse_message (b8 ''[3G*1234567890*0004*AL,A]'') In = Inl AttributeError \<and>
   count_list (bs_data (b8 ''[3G*1234567890*0004*AL,A]'')) 44 \<le> 16 \<and>
   bs_parse_message (b8 ''[3G*1234567890*0004*LK,'' @ [0x81, 93]) In = Inl UnicodeDecodeError"
proof -
  have AL: "bs_CLASSES [65, 76] = Some AL" and LK: "bs_CLASSES [76, 75] = Some LK"
    by (simp_all add: bs_CLASSES_iff)
  have p: "bs_parse_message (b8 ''[3G*1234567890*0004*AL,A]'') In = Inl AttributeError"
    by (simp add: bs_parse_message_def bs_data_def bs_rest_def bs_verb_def AL bs_BINARY_def cp1252_decode_ascii
        bs_decode_def bs_in_decode_def bs_loc_class_def loc_in_decode_def loc_setattrs_def
        loc_table_def bs_caught_def split: option.split)
  moreover have "count_list (bs_data (b8 ''[3G*1234567890*0004*AL,A]'')) 44 \<le> 16"
    using bs_parse_raises [OF p] by auto
  moreover have "bs_parse_message (b8 ''[3G*1234567890*0004*LK,'' @ [0x81, 93]) In = Inl UnicodeDecodeError"
    by (simp add: bs_parse_message_def bs_data_def bs_rest_def bs_verb_def LK bs_BINARY_def cp1252_decode_def
        cp1252_char_def cp1252_high_def split: option.split)
  ultimately show ?thesis by blast
qed

section \<open>Names and reports\<close>

text \<open>The verb by which a packet is published and the one by which it is parsed agree.\<close>

lemma bs_verb_local_proto:
  assumes "bs_local_proto packet = bs_PROTO c" and "c \<noteq> UNKNOWN"
  shows "bs_CLASSES (bs_verb (hd (split_once 44 (bs_data packet)))) = Some c"
proof -
  let ?h = "hd (split_on 44 (bs_data packet))"
  have a: "ascii (bs_PROTO c)" by (cases c) (simp_all add: ascii_def)
  have "bs_PROTO c \<noteq> bs_PROTO UNKNOWN" using assms(2) by (simp only: inj_eq [OF bs_PROTO_inj] not_False_eq_True)
  then have "utf8_decode ?h = Inr (bs_PROTO c)"
    using assms(1) by (auto simp: bs_local_proto_def split: sum.splits)
  from utf8_decode_ascii_inv [OF this a] a
  have "map unat ?h = bs_PROTO c" "\<forall>b \<in> set ?h. unat b < 128" by (auto simp: ascii_def)
  then show ?thesis by (simp add: hd_split_once bs_verb_def bs_CLASSES_iff)
qed

lemma bs_proto_name_inj: "inj bs_proto_name"
proof -
  have "distinct (map bs_proto_name bs_all)" by (simp add: bs_all_def bs_proto_name_def BS_PREFIX_def)
  then show ?thesis by (simp add: distinct_map bs_all_UNIV)
qed

lemma bs_proto_name_full: "bs_proto_name c = BS_PREFIX @ bs_PROTO c"
  by (cases c) (simp_all add: bs_proto_name_def)

lemma loc_counts: "loc_in_decode args = Inr l \<Longrightarrow>
    length (ld_gsm_cells l) = nat (ld_gsm_cells_number l) \<and>
    length (ld_wifi_aps l) = nat (ld_wifi_aps_number l)"
  by (auto simp: loc_in_decode_def Let_def res_simps split: if_splits dest!: map_res_Inr_length)

text \<open>
  A parsed message whose name the module exposes has a report exactly when it was parsed
  into its class: a position when the terminal vouches for it or sees more than three
  satellites, otherwise the surroundings. The lists of cells and access points have the
  lengths the message announces. An UNKNOWN with a cause has no report.
\<close>

theorem bs_rectified_iff:
  assumes "bs_parse_message packet In = Inr m"
    and "bs_proto_of_message packet \<in> fst ` set bs_exposed_protos"
  shows "case bo_cause m of
      Some e \<Rightarrow> bs_rectified m = Inl AttributeError
    | None \<Rightarrow> \<exists>l r. bo_body m = Loc_Attrs l \<and> bs_rectified m = Inr r \<and>
        (report_TYPE r = u ''location'') = (ld_gps_valid l \<or> ld_num_of_sats l > 3) \<and>
        length (ld_gsm_cells l) = nat (ld_gsm_cells_number l) \<and>
        length (ld_wifi_aps l) = nat (ld_wifi_aps_number l)"
proof -
  from assms(2) obtain c where c: "bs_loc_class c" "bs_local_proto packet = bs_PROTO c"
    by (auto simp: bs_exposed_protos_def bs_proto_of_message_def bs_proto_name_full)
  then have "c \<noteq> UNKNOWN" "c \<noteq> TK" by (auto simp: bs_loc_class_def)
  from bs_verb_local_proto [OF c(2) this(1)] this(2)
  have cls: "bs_CLASSES (bs_verb (hd (split_once 44 (bs_data packet)))) = Some c" "\<not> bs_BINARY c"
    by (simp_all add: bs_BINARY_def)
  from assms(1) cls obtain args where args: "cp1252_decode (bs_rest packet) = Inr args"
    by (auto simp: bs_parse_message_def Let_def res_simps)
  let ?args = "split_on 44 args"
  from assms(1) bs_parse_payload [OF cls(1), of "Fields ?args" In] cls(2) args
  have m: "Inr m = (case bs_decode In c (Fields ?args) of
      Inr body \<Rightarrow> Inr (bs_new packet In c (Fields ?args) body None None)
    | Inl e \<Rightarrow> if bs_caught e then Inr (bs_new packet In UNKNOWN (Fields ?args) No_Attrs
        (Some (bs_verb (hd (split_once 44 (bs_data packet))))) (Some e)) else Inl e)"
    by simp
  show ?thesis
  proof (cases "bs_decode In c (Fields ?args)")
    case (Inl e)
    with m show ?thesis by (auto simp: bs_rectified_def bs_loc_class_def split: if_splits)
  next
    case (Inr body)
    then obtain l where "body = Loc_Attrs l" "loc_in_decode ?args = Inr l"
      using c(1) by (auto simp: bs_decode_def bs_in_decode_def res_simps)
    with m Inr show ?thesis
      using c(1) loc_counts [of ?args l] by (simp add: bs_rectified_def loc_rectified_def)
  qed
qed

text \<open>An example: a location message\<close>

definition ud_text :: pystr where
  "ud_text = u ''010122,120000,A,5.5,N,6.5,W,0,0,0,9,1,2,3,4,0,0,0,1,2,0,5.0''"

definition ud_packet :: bytes where
  "ud_packet = b8 ''[3G*1234567890*003E*UD,'' @ map byte_of ud_text @ [93]"

lemma ud_loc: "\<exists>l. loc_in_decode (split_on 44 ud_text) = Inr l \<and> ld_gps_valid l \<and>
    ld_latitude l = Fin (11 / 2) \<and> ld_longitude l = Fin (- 13 / 2)"
  by (simp add: ud_text_def loc_in_decode_def loc_setattrs_def loc_table_def lfloat_def lint_def
      py_float_def py_int_def py_int_16_def int_digits_16_def strip_space_def py_space_def
      split_sign_def unhexdigit_def ascii_lower_def float_exp_def mk_float_def float_limit_def
      digits_value_def loc_devtime_def strptime_def strp_d_def strp_m_def strp_y_def strp_H_def
      strp_M_def strp_S_def year_of_def mk_datetime_def valid_datetime_def days_in_month_def
      pyget_def pyslice_from_def)

lemma ud_split: "split_once 44 (bs_data ud_packet) = [[85, 68], map byte_of ud_text]"
  by (simp add: ud_packet_def bs_data_def butlast_append)

lemma ud_name: "bs_proto_of_message ud_packet = bs_proto_name UD"
proof -
  have "hd (split_on 44 (bs_data ud_packet)) = [85, 68]"
    unfolding hd_split_once [symmetric] ud_split by simp
  then show ?thesis
    by (simp add: bs_proto_of_message_def bs_local_proto_def bs_proto_name_full utf8_decode_ascii_bytes)
qed

lemma ud_parse:
  "\<exists>m l. bs_parse_message ud_packet In = Inr m \<and> bo_body m = Loc_Attrs l \<and> bo_cause m = None \<and> ld_gps_valid l \<and>
     ld_latitude l = Fin (11 / 2) \<and> ld_longitude l = Fin (- 13 / 2)"
proof -
  obtain l where l: "loc_in_decode (split_on 44 ud_text) = Inr l" "ld_gps_valid l"
    "ld_latitude l = Fin (11 / 2)" "ld_longitude l = Fin (- 13 / 2)" using ud_loc by blast
  have UD: "bs_CLASSES [85, 68] = Some UD" by (simp add: bs_CLASSES_iff)
  have a: "\<forall>c \<in> set ud_text. c < 128" by (simp add: ud_text_def)
  then have "cp1252_decode (map byte_of ud_text) = Inr (map unat (map byte_of ud_text))"
    by (intro cp1252_decode_ascii) auto
  also have "map unat (map byte_of ud_text) = ud_text" using a by (force intro: map_idI)
  finally have s: "cp1252_decode (bs_rest ud_packet) = Inr ud_text" by (simp add: bs_rest_def ud_split)
  have "bs_CLASSES (bs_verb (hd (split_once 44 (bs_data ud_packet)))) = Some UD"
    by (simp add: ud_split bs_verb_def UD)
  from bs_parse_payload [OF this, of "Fields (split_on 44 ud_text)" In] s l
  show ?thesis by (simp add: bs_BINARY_def bs_decode_def bs_in_decode_def bs_loc_class_def)
qed

theorem bs_rectified_iff_witness:
  "\<exists>m l r. bs_parse_message ud_packet In = Inr m \<and> bo_body m = Loc_Attrs l \<and>
     ld_latitude l = Fin (11 / 2) \<and> ld_longitude l = Fin (- 13 / 2) \<and>
     bs_rectified m = Inr r \<and> report_TYPE r = u ''location''"
proof -
  obtain m l where m: "bs_parse_message ud_packet In = Inr m" "bo_body m = Loc_Attrs l" "bo_cause m = None"
    "ld_gps_valid l" "ld_latitude l = Fin (11 / 2)" "ld_longitude l = Fin (- 13 / 2)" using ud_parse by blast
  have "bs_proto_of_message ud_packet \<in> fst ` set bs_exposed_protos"
    unfolding ud_name
    by (auto simp: bs_exposed_protos_def bs_all_UNIV bs_loc_class_def image_iff intro!: exI [of _ UD])
  from bs_rectified_iff [OF m(1) this] m show ?thesis by (auto split: option.splits)
qed

section \<open>Voice data\<close>

text \<open>
  The escaping that the protocol prescribes for the terminal: a closing brace before every
  byte that is special to the framing.
\<close>

definition escape_bytes :: "byte set \<Rightarrow> bytes \<Rightarrow> bytes" where
  "escape_bytes S bs = concat (map (\<lambda>b. if b \<in> S then [125, b] else [b]) bs)"

definition tk_escape :: "bytes \<Rightarrow> bytes" where
  "tk_escape = escape_bytes {125, 93, 91, 44, 42}"

lemma escape_bytes_simps [simp]:
  "escape_bytes S [] = []"
  "escape_bytes S (b # bs) = (if b \<in> S then [125, b] else [b]) @ escape_bytes S bs"
  by (simp_all add: escape_bytes_def)

lemma replace2_skip: "x \<noteq> a \<or> ys = [] \<or> hd ys \<noteq> b \<Longrightarrow>
    replace2 a b n (x # ys) = x # replace2 a b n ys"
  by (cases ys) auto

lemma hd_escape_bytes: "c \<in> S \<Longrightarrow> c \<noteq> 125 \<Longrightarrow> escape_bytes S bs = [] \<or> hd (escape_bytes S bs) \<noteq> c"
  by (cases bs) auto

text \<open>Undoing the escapes of one byte leaves those of the others in place.\<close>

lemma replace2_escape_bytes:
  assumes "c \<noteq> 125" and "c \<notin> S" and "125 \<in> S"
  shows "replace2 125 c c (escape_bytes (insert c S) bs) = escape_bytes S bs"
proof (induction bs)
  case (Cons b bs)
  have "c \<in> insert c S" by simp
  from hd_escape_bytes [OF this assms(1)] Cons assms show ?case
    by (auto simp: replace2_skip)
qed simp

lemma replace2_escape_brace: "replace2 125 125 125 (escape_bytes {125} bs) = bs"
  by (induction bs) (auto simp: replace2_skip)

lemma tk_unescape_escape: "tk_unescape (tk_escape bs) = bs"
proof -
  have s: "{125, 93, 91, 44, 42} = insert 42 (insert 44 (insert 91 (insert 93 {125 :: byte})))" by auto
  show ?thesis
    unfolding tk_unescape_def tk_escape_def s
    by (simp add: replace2_escape_bytes replace2_escape_brace)
qed

text \<open>
  A voice message whose data a terminal has escaped is parsed into the data it had before:
  the five replacements, done one after the other, undo the escaping of every byte string,
  those with braces, brackets, commas and asterisks in a row included.
\<close>

theorem bs_tk_roundtrip:
  assumes "length header = 20"
  shows "\<exists>m. bs_parse_message (header @ b8 ''TK,'' @ tk_escape voice @ [93]) In = Inr m \<and>
    bo_class m = TK \<and> bo_body m = Tk_Attrs voice \<and> bo_cause m = None"
proof -
  let ?p = "header @ b8 ''TK,'' @ tk_escape voice @ [93]"
  have d: "split_once 44 (bs_data ?p) = [[84, 75], tk_escape voice]"
    using assms by (simp add: bs_data_def butlast_append)
  have "bs_CLASSES (bs_verb (hd (split_once 44 (bs_data ?p)))) = Some TK"
    unfolding d by (simp add: bs_verb_def bs_CLASSES_iff)
  moreover have "bs_rest ?p = tk_escape voice" unfolding bs_rest_def d by simp
  ultimately have "bs_parse_message ?p In =
      Inr (bs_new ?p In TK (Raw (tk_escape voice)) (Tk_Attrs voice) None None)"
    using bs_parse_payload [of ?p TK "Raw (tk_escape voice)" In]
    by (simp only: bs_BINARY_def bs_decode_def bs_in_decode_def tk_unescape_escape
        simp_thms if_True bs_payload.case dir.case sum.case)
  then show ?thesis by (intro exI conjI) (assumption | rule bs_new_sel)+
qed

theorem bs_tk_roundtrip_witness:
  "\<exists>m. bs_parse_message (b8 ''[3G*1234567890*0009*'' @ b8 ''TK,'' @ tk_escape [125, 42, 93] @ [93]) In
      = Inr m \<and> bo_class m = TK \<and> bo_body m = Tk_Attrs [125, 42, 93] \<and> bo_cause m = None"
  by (rule bs_tk_roundtrip) simp

end
