(* ===== verification/Common.thy ===== *)
theory Common
  imports ZX_Proto BS_Proto
begin

text \<open>
  The part of \<open>loctrkd/common.py\<close> that chooses a protocol module, and the interface of such a
  module (\<open>loctrkd/protomodule.py\<close>) as the collector uses it. The two modules of the program
  are the two values of \<open>pmod\<close>; each operation of the interface dispatches on them.

  What the collector relies on is stated as the locale \<open>packet_module\<close>: the packets that a
  module's stream delivers are such that none of the module's functions raises on them.
\<close>

section \<open>The interface of a protocol module\<close>

datatype pmod = Zx303 | Beesure

fun PMODNAME :: "pmod \<Rightarrow> pystr" where
  "PMODNAME Zx303 = u ''zx303proto''"
| "PMODNAME Beesure = u ''beesure''"

text \<open>A stream of either module\<close>

datatype pstream = Zx_Stream zx_stream | Bs_Stream bs_stream

fun pm_Stream :: "pmod \<Rightarrow> pstream" where
  "pm_Stream Zx303 = Zx_Stream zx_Stream"
| "pm_Stream Beesure = Bs_Stream bs_Stream"

fun pm_recv :: "pstream \<Rightarrow> bytes \<Rightarrow> stream_msg list \<times> pstream" where
  "pm_recv (Zx_Stream s) seg = (case zx_recv s seg of (ms, s') \<Rightarrow> (ms, Zx_Stream s'))"
| "pm_recv (Bs_Stream s) seg = (case bs_recv s seg of (ms, s') \<Rightarrow> (ms, Bs_Stream s'))"

fun pm_close :: "pstream \<Rightarrow> bytes \<times> pstream" where
  "pm_close (Zx_Stream s) = (case zx_close s of (b, s') \<Rightarrow> (b, Zx_Stream s'))"
| "pm_close (Bs_Stream s) = (case bs_close s of (b, s') \<Rightarrow> (b, Bs_Stream s'))"

fun pm_enframe :: "pmod \<Rightarrow> bytes \<Rightarrow> pystr option \<Rightarrow> bytes res" where
  "pm_enframe Zx303 buffer imei = zx_enframe buffer imei"
| "pm_enframe Beesure buffer imei = bs_enframe buffer imei"

fun pm_exposed_protos :: "pmod \<Rightarrow> (pystr \<times> bool) list" where
  "pm_exposed_protos Zx303 = zx_exposed_protos"
| "pm_exposed_protos Beesure = bs_exposed_protos"

fun pm_probe_buffer :: "pmod \<Rightarrow> bytes \<Rightarrow> bool" where
  "pm_probe_buffer Zx303 buffer = zx_probe_buffer buffer"
| "pm_probe_buffer Beesure buffer = bs_probe_buffer buffer"

datatype pobj = Zx_Obj zx_obj | Bs_Obj bs_obj

fun pm_parse_message :: "(datetime \<Rightarrow> datetime) \<Rightarrow> pmod \<Rightarrow> bytes \<Rightarrow> dir \<Rightarrow> pobj res" where
  "pm_parse_message tz Zx303 packet d = and_then (zx_parse_message tz packet d) (\<lambda>m. Inr (Zx_Obj m))"
| "pm_parse_message tz Beesure packet d = and_then (bs_parse_message packet d) (\<lambda>m. Inr (Bs_Obj m))"

fun pm_inline_response :: "(pyval \<Rightarrow> pystr) \<Rightarrow> datetime \<Rightarrow> pmod \<Rightarrow> bytes \<Rightarrow> bytes option res" where
  "pm_inline_response rep now Zx303 packet = zx_inline_response rep now packet"
| "pm_inline_response rep now Beesure packet = bs_inline_response rep packet"

fun pm_is_goodbye_packet :: "pmod \<Rightarrow> bytes \<Rightarrow> bool res" where
  "pm_is_goodbye_packet Zx303 packet = zx_is_goodbye_packet packet"
| "pm_is_goodbye_packet Beesure packet = Inr (bs_is_goodbye_packet packet)"

fun pm_imei_from_packet :: "(datetime \<Rightarrow> datetime) \<Rightarrow> pmod \<Rightarrow> bytes \<Rightarrow> pystr option res" where
  "pm_imei_from_packet tz Zx303 packet = zx_imei_from_packet tz packet"
| "pm_imei_from_packet tz Beesure packet = Inr (bs_imei_from_packet packet)"

fun pm_proto_of_message :: "pmod \<Rightarrow> bytes \<Rightarrow> pystr res" where
  "pm_proto_of_message Zx303 packet = zx_proto_of_message packet"
| "pm_proto_of_message Beesure packet = Inr (bs_proto_of_message packet)"

fun pm_proto_handled :: "pmod \<Rightarrow> pystr \<Rightarrow> bool" where
  "pm_proto_handled Zx303 proto = zx_proto_handled proto"
| "pm_proto_handled Beesure proto = bs_proto_handled proto"

text \<open>An \<open>Out\<close> object of either module: its class and attributes\<close>

datatype pout = Zx_Out zx_class attrs | Bs_Out bs_class attrs

fun pm_make_response ::
  "(pyval \<Rightarrow> pystr) \<Rightarrow> pmod \<Rightarrow> pystr \<Rightarrow> pystr \<Rightarrow> attrs \<Rightarrow> pout option res" where
  "pm_make_response rep Zx303 cmd imei kwargs =
     and_then (zx_make_response rep cmd imei kwargs)
       (\<lambda>r. Inr (map_option (\<lambda>(c, a). Zx_Out c a) r))"
| "pm_make_response rep Beesure cmd imei kwargs =
     and_then (bs_make_response rep cmd imei kwargs)
       (\<lambda>r. Inr (map_option (\<lambda>(c, a). Bs_Out c a) r))"

section \<open>Choosing a module\<close>

text \<open>
  \<open>pmods\<close> is the list of configured modules, in order. Importing a module that is not a
  protocol module of this package fails.
\<close>

definition import_pmod :: "pystr \<Rightarrow> pmod res" where
  "import_pmod name =
     (if name = PMODNAME Zx303 then Inr Zx303
      else if name = PMODNAME Beesure then Inr Beesure
      else Inl ImportError)"

definition init_protocols :: "pystr \<Rightarrow> pmod list res" where
  "init_protocols protocols = map_res import_pmod (split_on 44 protocols)"

definition probe_pmod :: "pmod list \<Rightarrow> bytes \<Rightarrow> pmod option" where
  "probe_pmod pmods segment = find (\<lambda>p. pm_probe_buffer p segment) pmods"

definition pmod_for_proto :: "pmod list \<Rightarrow> pystr \<Rightarrow> pmod option" where
  "pmod_for_proto pmods proto = find (\<lambda>p. pm_proto_handled p proto) pmods"

definition pmod_by_name :: "pmod list \<Rightarrow> pystr \<Rightarrow> pmod option" where
  "pmod_by_name pmods pmodname = find (\<lambda>p. PMODNAME p = pmodname) pmods"

definition common_make_response ::
  "(pyval \<Rightarrow> pystr) \<Rightarrow> pmod list \<Rightarrow> pystr \<Rightarrow> pystr \<Rightarrow> pystr \<Rightarrow> attrs \<Rightarrow> pout option res" where
  "common_make_response rep pmods pmodname cmd imei kwargs =
     (case pmod_by_name pmods pmodname of
        None \<Rightarrow> Inr None
      | Some p \<Rightarrow> pm_make_response rep p cmd imei kwargs)"

definition common_parse_message ::
  "(datetime \<Rightarrow> datetime) \<Rightarrow> pmod list \<Rightarrow> pystr \<Rightarrow> bytes \<Rightarrow> dir \<Rightarrow> pobj option res" where
  "common_parse_message tz pmods proto packet d =
     (case pmod_for_proto pmods proto of
        Some p \<Rightarrow> and_then (pm_parse_message tz p packet d) (\<lambda>m. Inr (Some m))
      | None \<Rightarrow> Inr None)"

definition common_exposed_protos :: "pmod list \<Rightarrow> (pystr \<times> bool) list" where
  "common_exposed_protos pmods = concat (map pm_exposed_protos pmods)"

section \<open>What the collector relies on\<close>

text \<open>
  Of a module: every packet its stream delivers is one on which its functions return. An
  IMEI it finds in a packet is of the module's own kind, so that modules never claim each
  other's terminals, and the responses it makes can be framed for such an IMEI.
\<close>

definition encodable_name :: "pystr \<Rightarrow> bool" where
  "encodable_name n \<longleftrightarrow> returns (utf8_encode (ljust 16 0 (take 16 n)))"

locale packet_module =
  fixes recv :: "'s \<Rightarrow> bytes \<Rightarrow> stream_msg list \<times> 's"
    and proto_of :: "bytes \<Rightarrow> pystr res"
    and imei_of :: "bytes \<Rightarrow> pystr option res"
    and goodbye :: "bytes \<Rightarrow> bool res"
    and inline :: "datetime \<Rightarrow> bytes \<Rightarrow> bytes option res"
    and enframe :: "bytes \<Rightarrow> pystr option \<Rightarrow> bytes res"
    and good :: "bytes \<Rightarrow> bool"
    and sendable :: "bytes \<Rightarrow> bool"
    and own_imei :: "pystr \<Rightarrow> bool"
  assumes delivers_good: "p \<in> set (packets (fst (recv s seg))) \<Longrightarrow> good p"
    and proto_returns: "good p \<Longrightarrow> \<exists>n. proto_of p = Inr n \<and> encodable_name n"
    and imei_returns: "good p \<Longrightarrow> returns (imei_of p)"
    and imei_own: "imei_of p = Inr (Some i) \<Longrightarrow> own_imei i"
    and goodbye_returns: "good p \<Longrightarrow> returns (goodbye p)"
    and inline_returns: "good p \<Longrightarrow> valid_datetime now \<Longrightarrow> returns (inline now p)"
    and inline_sendable: "good p \<Longrightarrow> valid_datetime now \<Longrightarrow> inline now p = Inr (Some r) \<Longrightarrow> sendable r"
    and sendable_good: "sendable r \<Longrightarrow> good r"
    and sendable_enframe: "sendable r \<Longrightarrow> own_imei i \<Longrightarrow> returns (enframe r (Some i))"
    and own_imei_text: "own_imei i \<Longrightarrow> ascii i \<and> i \<noteq> []"
begin

text \<open>All that the collector asks of a module about a packet of its stream\<close>

lemma delivered_packet:
  assumes "p \<in> set (packets (fst (recv s seg)))" and "valid_datetime now"
  shows "\<exists>n im g r. proto_of p = Inr n \<and> encodable_name n \<and> imei_of p = Inr im \<and>
    (\<forall>i. im = Some i \<longrightarrow> own_imei i) \<and> goodbye p = Inr g \<and> inline now p = Inr r \<and>
    (\<forall>x. r = Some x \<longrightarrow> sendable x)"
proof -
  from delivers_good [OF assms(1)] have g: "good p" .
  from proto_returns [OF g] imei_returns [OF g] goodbye_returns [OF g] inline_returns [OF g assms(2)]
  show ?thesis
    using imei_own [of p] inline_sendable [OF g assms(2)] by (fastforce simp: returns_def)
qed

end

section \<open>Both modules keep the contract\<close>

lemma encodable_scalars:
  assumes "\<forall>c \<in> set n. scalar c"
  shows "encodable_name n"
  unfolding encodable_name_def
proof (rule utf8_encode_scalars)
  show "\<forall>c \<in> set (ljust 16 0 (take 16 n)). scalar c"
    using assms by (auto simp: ljust_def scalar_def dest: in_set_takeD)
qed

lemma scalar_ascii: "ascii s \<Longrightarrow> \<forall>c \<in> set s. scalar c"
  by (auto simp: ascii_def scalar_def)

definition zx_own_imei :: "pystr \<Rightarrow> bool" where
  "zx_own_imei i \<longleftrightarrow> length i = 16 \<and> (\<forall>c \<in> set i. 48 \<le> c \<and> c < 128)"

definition zx_good :: "bytes \<Rightarrow> bool" where
  "zx_good p \<longleftrightarrow> 2 \<le> length p"

lemma zx_delivers_two:
  assumes "p \<in> set (packets (fst (zx_recv s seg)))"
  shows "zx_good p"
proof -
  from assms have "Packet p \<in> set (fst (zx_loop (s\<lparr>zx_buffer := zx_buffer s @ seg\<rparr>)))"
    by (auto simp: zx_recv_def Let_def in_packets_iff split: if_splits)
  from zx_loop_sound [OF this] show ?thesis by (simp add: zx_good_def)
qed

lemma zx_name_ascii: "ascii (zx_proto_name c)"
  by (cases c) (simp_all add: ascii_def zx_proto_name_def ZX_PREFIX_def)

lemma zx_good_cases: "zx_good p \<Longrightarrow> \<exists>l c ys. p = l # c # ys"
  using two_bytes [of p] by (simp add: zx_good_def)

lemma zx_imei_length:
  assumes "zx_imei_from_packet tz p = Inr (Some i)"
  shows "zx_own_imei i"
proof -
  from assms obtain m v where m: "zx_parse_message tz p In = Inr m" "zo_class m = LOGIN"
    "zo_body m = Login_Body i v"
    by (auto simp: zx_imei_from_packet_def res_simps split: if_splits zx_body.splits)
  from assms have "2 \<le> length p" by (auto simp: zx_imei_from_packet_def res_simps)
  then obtain l c ys where p: "p = l # c # ys" using two_bytes by blast
  from m obtain len pl where "zx_in_decode tz LOGIN len pl = Inr (Login_Body i v)"
    by (auto simp: p zx_parse_two zx_unknown_def zx_decode_def split: option.splits sum.splits)
  then have "i = hex_bytes (ljust 8 0 (take 8 pl))" by (auto simp: login_in_decode_def res_simps)
  then show ?thesis
    using hex_bytes_ascii [of _ "ljust 8 0 (take 8 pl)"]
    by (auto simp: zx_own_imei_def ljust_def)
qed

interpretation zxm: packet_module zx_recv zx_proto_of_message "zx_imei_from_packet tz"
  zx_is_goodbye_packet "zx_inline_response rep" zx_enframe zx_good zx_good zx_own_imei
  for tz rep
proof (unfold_locales, goal_cases)
  case (1 p s seg)
  then show ?case by (rule zx_delivers_two)
next
  case (2 p)
  then show ?case
    by (auto simp: zx_good_def zx_proto_of_message_def pyget_def
        intro!: encodable_scalars scalar_ascii zx_name_ascii)
next
  case (3 p)
  then obtain l c ys where "p = l # c # ys" using zx_good_cases by blast
  then show ?case by (auto simp: zx_imei_from_packet_def zx_parse_two pyget_def)
next
  case (4 p i)
  then show ?case by (rule zx_imei_length)
next
  case (6 p now)
  then show ?case
    using zx_INL_packed [of _ now rep]
    by (fastforce simp: zx_inline_response_def zx_good_def pyget_def split: option.split)
next
  case (7 p now r)
  then show ?case
    using zx_INL_packed [of _ now rep]
    by (fastforce simp: zx_inline_response_def zx_good_def res_simps split: option.splits if_splits)
qed (auto simp: zx_good_def zx_is_goodbye_packet_def zx_enframe_def zx_own_imei_def pyget_def ascii_def)

text \<open>Beesure packets have no lower bound the functions rely on; a response has a header.\<close>

definition any_bytes :: "bytes \<Rightarrow> bool" where
  "any_bytes p \<longleftrightarrow> True"

lemma bs_name_encodable: "encodable_name (bs_proto_of_message p)"
proof (rule encodable_scalars)
  have "\<forall>c \<in> set (bs_local_proto p). scalar c"
    using utf8_decode_scalars scalar_ascii [of "u ''UNKNOWN''"]
    by (auto simp: bs_local_proto_def ascii_def scalar_def split: sum.splits)
  then show "\<forall>c \<in> set (bs_proto_of_message p). scalar c"
    by (auto simp: bs_proto_of_message_def BS_PREFIX_def scalar_def)
qed


lemma bs_imei_digits: "bs_imei_from_packet p = Some i \<Longrightarrow> imei_digits i"
  by (auto simp: bs_imei_from_packet_def bs_framestart_def bs_search_0 Let_def
      intro!: imei_of_header split: option.splits nat.splits if_splits)

lemma imei_digits_ascii: "imei_digits i \<Longrightarrow> ascii i \<and> i \<noteq> []"
  by (auto simp: imei_digits_def ascii_def list_all_iff)

interpretation bsm: packet_module bs_recv "\<lambda>p. Inr (bs_proto_of_message p)"
  "\<lambda>p. Inr (bs_imei_from_packet p)" "\<lambda>p. Inr (bs_is_goodbye_packet p)"
  "\<lambda>now. bs_inline_response rep" bs_enframe any_bytes bs_header imei_digits
  for rep
proof (unfold_locales, goal_cases)
  case (6 p now)
  then show ?case using bs_inline_answers [of rep p] by (auto simp: returns_def)
next
  case (7 p now r)
  then show ?case using bs_inline_answers [of rep p] by (auto simp: bs_wf_def)
qed (auto simp: any_bytes_def bs_name_encodable bs_imei_digits imei_digits_ascii bs_enframe_eq)

section \<open>The contract of either module\<close>

fun stream_pmod :: "pstream \<Rightarrow> pmod" where
  "stream_pmod (Zx_Stream s) = Zx303"
| "stream_pmod (Bs_Stream s) = Beesure"

fun pm_own_imei :: "pmod \<Rightarrow> pystr \<Rightarrow> bool" where
  "pm_own_imei Zx303 i = zx_own_imei i"
| "pm_own_imei Beesure i = imei_digits i"

fun pm_sendable :: "pmod \<Rightarrow> bytes \<Rightarrow> bool" where
  "pm_sendable Zx303 r = zx_good r"
| "pm_sendable Beesure r = bs_header r"

lemma stream_pmod_Stream [simp]: "stream_pmod (pm_Stream p) = p"
  by (cases p) simp_all

lemma stream_pmod_recv [simp]: "stream_pmod (snd (pm_recv s seg)) = stream_pmod s"
  by (cases s) (simp_all split: prod.split)

lemma pm_delivered_packet:
  assumes "p \<in> set (packets (fst (pm_recv s seg)))" and "stream_pmod s = pm" and "valid_datetime now"
  shows "\<exists>n im g r. pm_proto_of_message pm p = Inr n \<and> encodable_name n \<and>
    pm_imei_from_packet tz pm p = Inr im \<and> (\<forall>i. im = Some i \<longrightarrow> pm_own_imei pm i) \<and>
    pm_is_goodbye_packet pm p = Inr g \<and> pm_inline_response rep now pm p = Inr r \<and>
    (\<forall>x. r = Some x \<longrightarrow> pm_sendable pm x)"
proof (cases s)
  case (Zx_Stream x)
  with assms have "p \<in> set (packets (fst (zx_recv x seg)))" "pm = Zx303"
    by (auto split: prod.splits)
  from zxm.delivered_packet [OF this(1) assms(3), of tz rep] this(2) show ?thesis by simp
next
  case (Bs_Stream x)
  with assms have "p \<in> set (packets (fst (bs_recv x seg)))" "pm = Beesure"
    by (auto split: prod.splits)
  from bsm.delivered_packet [OF this(1) assms(3), of rep] this(2) show ?thesis by simp
qed

lemma pm_sendable_returns:
  assumes "pm_sendable pm r"
  shows "pm_own_imei pm i \<Longrightarrow> returns (pm_enframe pm r (Some i))"
    and "\<exists>n. pm_proto_of_message pm r = Inr n \<and> encodable_name n"
  using assms zxm.sendable_enframe zxm.proto_returns bsm.sendable_enframe bsm.proto_returns bsm.sendable_good
  by (cases pm; simp)+

lemma pm_own_imei_text: "pm_own_imei pm i \<Longrightarrow> ascii i \<and> i \<noteq> []"
  using zxm.own_imei_text [of i] bsm.own_imei_text [of i] by (cases pm) auto

text \<open>An IMEI tells which module it is of.\<close>

lemma pm_own_imei_unique: "pm_own_imei p i \<Longrightarrow> pm_own_imei q i \<Longrightarrow> p = q"
  by (cases p; cases q) (auto simp: zx_own_imei_def imei_digits_def)

section \<open>Properties\<close>

lemma pm_name_handled: "pm_proto_of_message p packet = Inr n \<Longrightarrow> pm_proto_handled q n \<longleftrightarrow> q = p"
  by (cases p; cases q)
    (auto simp: zx_proto_of_message_def res_simps zx_proto_handled_def bs_proto_handled_def
      bs_proto_of_message_def zx_proto_name_def ZX_PREFIX_def BS_PREFIX_def)

text \<open>
  The services find the module of a message from its published name. Whatever modules are
  configured and in whatever order, the name a module gives to a packet leads back to that module
  and to no other; and where the module is not configured, to none.
\<close>

theorem pmod_for_own_proto:
  assumes "pm_proto_of_message p packet = Inr n"
  shows "pmod_for_proto pmods n = (if p \<in> set pmods then Some p else None)"
  using pm_name_handled [OF assms]
  by (induction pmods) (auto simp: pmod_for_proto_def)

theorem pmod_for_own_proto_witness:
  "pmod_for_proto [Zx303, Beesure] (u ''BS:LK'') =
    (if Beesure \<in> set [Zx303, Beesure] then Some Beesure else None)"
  by (rule pmod_for_own_proto [of _ "b8 ''[3G*1234567890*0002*LK]''"])
    (simp add: bs_proto_of_message_def bs_local_proto_def bs_data_def utf8_decode_ascii_bytes BS_PREFIX_def)

end
