(* ===== verification/Zmsg.thy ===== *)
theory Zmsg
  imports Pytext
begin

text \<open>
  The messages the services exchange (\<open>loctrkd/zmsg.py\<close>): \<open>Bcast\<close>, published by the
  collector for every packet, \<open>Resp\<close>, sent to the collector for a terminal, and \<open>Rept\<close>,
  published by the rectifier.

  A double (the time of a message) is its 64-bit pattern. An address text is represented by the
  address it denotes, the empty text by \<open>No_Addr\<close>: parsing and printing addresses is the
  standard library's \<open>ipaddress\<close>.
\<close>

section \<open>Fixed-width fields\<close>

text \<open>\<open>pack("16s", bs)\<close>: cut or filled up with NUL bytes\<close>

definition pack16 :: "bytes \<Rightarrow> bytes" where
  "pack16 bs = take 16 (ljust 16 0 bs)"

definition pack_d :: "64 word \<Rightarrow> bytes" where
  "pack_d w = to_be 8 (uint w)"

definition unpack_d :: "bytes \<Rightarrow> 64 word" where
  "unpack_d bs = word_of_int (be bs)"

text \<open>A text field as \<open>decode\<close> reads it: UTF-8 without the NUL characters around it\<close>

definition text_field :: "bytes \<Rightarrow> pystr res" where
  "text_field bs = and_then (utf8_decode bs) (\<lambda>s. Inr (strip 0 s))"

definition NO_IMEI :: bytes where
  "NO_IMEI = replicate 16 48"

definition NO_PMOD :: bytes where
  "NO_PMOD = replicate 16 32"

text \<open>A field that may be absent has a byte string of its own for that.\<close>

definition opt_field :: "bytes \<Rightarrow> pystr option \<Rightarrow> bytes res" where
  "opt_field none v = (case v of None \<Rightarrow> Inr none | Some s \<Rightarrow> utf8_encode s)"

definition read_opt :: "bytes \<Rightarrow> bytes \<Rightarrow> pystr option res" where
  "read_opt none bs =
     (if bs = none then Inr None else and_then (text_field bs) (\<lambda>s. Inr (Some s)))"

section \<open>Peer addresses\<close>

datatype ip_text = No_Addr | IP4 "32 word" | IP6 "128 word"

text \<open>What \<open>accept\<close> returns for IPv4 and for IPv6: a pair, or also flow and scope\<close>

datatype peeraddr = Peer2 ip_text int | Peer4 ip_text int int int

text \<open>\<open>ip.ip_address(saddr)\<close> as a 128-bit address, IPv4 mapped into IPv6\<close>

definition ip6_of :: "ip_text \<Rightarrow> 128 word res" where
  "ip6_of a = (case a of
       No_Addr \<Rightarrow> Inl ValueError
     | IP4 w \<Rightarrow> Inr (word_of_int (0xFFFF * 2 ^ 32 + uint w))
     | IP6 w \<Rightarrow> Inr w)"

definition pack_peer :: "peeraddr option \<Rightarrow> bytes res" where
  "pack_peer p =
     and_then (case p of
         None \<Rightarrow> Inr (0, 0)
       | Some (Peer2 a port) \<Rightarrow> and_then (ip6_of a) (\<lambda>w. Inr (w, port))
       | Some (Peer4 a port _ _) \<Rightarrow> and_then (ip6_of a) (\<lambda>w. Inr (w, port)))
     (\<lambda>(w, port). and_then (pack_uint 2 port) (\<lambda>b. Inr (to_be 16 (uint w) @ b)))"

definition unpack_peer :: "bytes \<Rightarrow> peeraddr res" where
  "unpack_peer buffer =
     (if length (take 16 buffer) \<noteq> 16 then Inl ValueError
      else if length (drop 16 buffer) \<noteq> 2 then Inl StructError
      else
        (let v = be (take 16 buffer); port = be (drop 16 buffer) in
         Inr (if v div 2 ^ 32 = 0xFFFF then Peer2 (IP4 (word_of_int (v mod 2 ^ 32))) port
              else if v = 0 then Peer2 No_Addr 0
              else Peer2 (IP6 (word_of_int v)) port)))"

section \<open>Bcast\<close>

record bcast =
  b_is_incoming :: bool
  b_proto :: pystr
  b_pmod :: "pystr option"
  b_imei :: "pystr option"
  b_when :: "64 word option"
  b_peeraddr :: "peeraddr option"
  b_packet :: bytes

definition bool_byte :: "bool \<Rightarrow> byte" where
  "bool_byte b = (if b then 1 else 0)"

definition when_bits :: "64 word option \<Rightarrow> 64 word" where
  "when_bits t = (case t of None \<Rightarrow> 0 | Some w \<Rightarrow> w)"

definition bcast_packed :: "bcast \<Rightarrow> bytes res" where
  "bcast_packed m =
     and_then (utf8_encode (ljust 16 0 (take 16 (b_proto m)))) (\<lambda>proto.
     and_then (opt_field NO_IMEI (b_imei m)) (\<lambda>imei.
     and_then (opt_field NO_PMOD (b_pmod m)) (\<lambda>pmod.
     and_then (pack_peer (b_peeraddr m)) (\<lambda>peer.
       Inr (bool_byte (b_is_incoming m) # pack16 proto @ pack16 imei @ pack_d (when_bits (b_when m)) @
            pack16 pmod @ peer @ b_packet m)))))"

definition bcast_decode :: "bytes \<Rightarrow> bcast res" where
  "bcast_decode buffer =
     (let hdr = take 57 buffer in
      if length hdr \<noteq> 57 then Inl StructError
      else
        and_then (utf8_decode (pyslice 1 17 hdr)) (\<lambda>proto.
        and_then (read_opt NO_IMEI (pyslice 17 33 hdr)) (\<lambda>imei.
        and_then (read_opt NO_PMOD (pyslice 41 57 hdr)) (\<lambda>pmod.
        and_then (unpack_peer (pyslice 57 75 buffer)) (\<lambda>peer.
          Inr \<lparr>b_is_incoming = (hdr ! 0 \<noteq> 0), b_proto = rstrip 0 proto, b_pmod = pmod,
               b_imei = imei, b_when = Some (unpack_d (pyslice 33 41 hdr)),
               b_peeraddr = Some peer, b_packet = drop 75 buffer\<rparr>)))))"

section \<open>Resp and Rept\<close>

record resp =
  r_imei :: "pystr option"
  r_when :: "64 word option"
  r_packet :: bytes

text \<open>
  Without an IMEI the field is given a \<open>str\<close> where \<open>struct.pack\<close> wants \<open>bytes\<close>, and
  raises.
\<close>

definition resp_packed :: "resp \<Rightarrow> bytes res" where
  "resp_packed m =
     (case r_imei m of
        None \<Rightarrow> Inl StructError
      | Some i \<Rightarrow> and_then (utf8_encode i) (\<lambda>imei.
          Inr (pack16 imei @ pack_d (when_bits (r_when m)) @ r_packet m)))"

definition resp_decode :: "bytes \<Rightarrow> resp res" where
  "resp_decode buffer =
     (let hdr = take 24 buffer in
      if length hdr \<noteq> 24 then Inl StructError
      else
        and_then (read_opt NO_IMEI (take 16 hdr)) (\<lambda>imei.
          Inr \<lparr>r_imei = imei, r_when = Some (unpack_d (drop 16 hdr)), r_packet = drop 24 buffer\<rparr>))"

record rept =
  p_imei :: "pystr option"
  p_payload :: pystr

definition rept_packed :: "rept \<Rightarrow> bytes res" where
  "rept_packed m =
     and_then (opt_field NO_IMEI (p_imei m)) (\<lambda>imei.
     and_then (utf8_encode (p_payload m)) (\<lambda>payload. Inr (pack16 imei @ payload)))"

definition rept_decode :: "bytes \<Rightarrow> rept res" where
  "rept_decode buffer =
     and_then (read_opt NO_IMEI (take 16 buffer)) (\<lambda>imei.
     and_then (utf8_decode (drop 16 buffer)) (\<lambda>payload.
       Inr \<lparr>p_imei = imei, p_payload = payload\<rparr>))"

section \<open>Topics\<close>

definition topic :: "pystr \<Rightarrow> bool \<Rightarrow> pystr option \<Rightarrow> bytes res" where
  "topic proto is_incoming imei =
     and_then (utf8_encode proto) (\<lambda>p.
     and_then (case imei of None \<Rightarrow> Inr [] | Some i \<Rightarrow> and_then (utf8_encode i) (\<lambda>b. Inr (pack16 b)))
       (\<lambda>i. Inr (bool_byte is_incoming # pack16 p @ i)))"

definition rtopic :: "pystr \<Rightarrow> bytes res" where
  "rtopic imei = and_then (utf8_encode imei) (\<lambda>b. Inr (pack16 b))"

section \<open>Fields survive the wire\<close>

lemma length_pack16 [simp]: "length (pack16 bs) = 16"
  by (simp add: pack16_def ljust_def)

lemma length_pack_d [simp]: "length (pack_d w) = 8"
  by (simp add: pack_d_def)

lemma unpack_pack_d [simp]: "unpack_d (pack_d w) = w"
proof -
  have "0 \<le> uint w" "uint w < 256 ^ 8" using uint_lt2p [of w] by simp_all
  then have "be (pack_d w) = uint w" by (simp add: pack_d_def be_to_be)
  then show ?thesis by (simp add: unpack_d_def)
qed

lemma pack16_short: "length bs \<le> 16 \<Longrightarrow> pack16 bs = ljust 16 0 bs"
  by (simp add: pack16_def ljust_def)

text \<open>A text that fits its field: no NUL characters, at most sixteen bytes\<close>

definition fits16 :: "pystr \<Rightarrow> bool" where
  "fits16 s \<longleftrightarrow> 0 \<notin> set s \<and> (case utf8_encode s of Inr bs \<Rightarrow> length bs \<le> 16 | Inl e \<Rightarrow> False)"

lemma fits16D:
  assumes "fits16 s"
  obtains bs where "utf8_encode s = Inr bs" "length bs \<le> 16" "0 \<notin> set s" "length s \<le> 16"
  using assms utf8_encode_length [of s] by (fastforce simp: fits16_def split: sum.splits)

lemma utf8_encode_zeros: "utf8_encode (replicate n 0) = Inr (replicate n 0)"
  by (simp add: utf8_encode_ascii ascii_def byte_of_def)

lemma utf8_decode_padded: "utf8_encode s = Inr bs \<Longrightarrow>
    utf8_decode (bs @ replicate n 0) = Inr (s @ replicate n 0)"
  by (rule utf8_roundtrip) (simp add: utf8_encode_append utf8_encode_zeros)

lemma text_field_pack16:
  assumes "utf8_encode s = Inr bs" and "length bs \<le> 16" and "0 \<notin> set s"
  shows "text_field (pack16 bs) = Inr s"
proof -
  have "utf8_decode (pack16 bs) = Inr (ljust (length s + (16 - length bs)) 0 s)"
    using assms by (simp add: pack16_short ljust_def utf8_decode_padded)
  then show ?thesis using assms(3) by (simp add: text_field_def strip_ljust)
qed

lemma read_opt_pack16:
  assumes "utf8_encode s = Inr bs" and "length bs \<le> 16" and "0 \<notin> set s" and "bs \<noteq> none"
    and "0 \<notin> set none"
  shows "read_opt none (pack16 bs) = Inr (Some s)"
proof -
  have "pack16 bs \<noteq> none"
  proof
    assume p: "pack16 bs = none"
    then have "bs @ replicate (16 - length bs) 0 = none" using assms(2) by (simp add: pack16_short ljust_def)
    with assms(5) have "replicate (16 - length bs) (0 :: byte) = []" by (cases "16 - length bs") auto
    with p assms(2,4) show False by (simp add: pack16_def ljust_def)
  qed
  then show ?thesis by (simp add: read_opt_def text_field_pack16 [OF assms(1-3)])
qed

text \<open>The protocol name is cut to sixteen characters and padded before it is encoded.\<close>

lemma proto_field:
  assumes "fits16 s"
  shows "\<exists>bs. utf8_encode (ljust 16 0 (take 16 s)) = Inr bs \<and>
    and_then (utf8_decode (pack16 bs)) (\<lambda>p. Inr (rstrip 0 p)) = Inr s"
proof -
  from fits16D [OF assms] obtain bs where bs: "utf8_encode s = Inr bs" "length bs \<le> 16"
    and s: "0 \<notin> set s" "length s \<le> 16" by blast
  have len: "length s \<le> length bs" using utf8_encode_length [OF bs(1)] by simp
  have "utf8_encode (ljust 16 0 (take 16 s)) = Inr (bs @ replicate (16 - length s) 0)"
    using s bs by (simp add: ljust_def utf8_encode_append utf8_encode_zeros)
  moreover have "pack16 (bs @ replicate (16 - length s) 0) = bs @ replicate (16 - length bs) 0"
    using bs(2) s(2) len by (simp add: pack16_def ljust_def)
  moreover have "rstrip 0 (s @ replicate (16 - length bs) 0) = s"
    using rstrip_ljust [OF s(1), of "length s + (16 - length bs)"] by (simp add: ljust_def)
  ultimately show ?thesis by (simp add: utf8_decode_padded [OF bs(1)])
qed

definition wf_opt :: "pystr \<Rightarrow> pystr option \<Rightarrow> bool" where
  "wf_opt none v = (case v of None \<Rightarrow> True | Some s \<Rightarrow> fits16 s \<and> s \<noteq> none)"

lemma opt_field_roundtrip:
  assumes "wf_opt none v" and "utf8_encode none = Inr nb" and "0 \<notin> set nb" and "length nb = 16"
  shows "\<exists>bs. opt_field nb v = Inr bs \<and> read_opt nb (pack16 bs) = Inr v"
proof (cases v)
  case None
  then show ?thesis using assms(4) by (simp add: opt_field_def read_opt_def pack16_def ljust_def)
next
  case (Some s)
  with assms(1) have f: "fits16 s" "s \<noteq> none" by (simp_all add: wf_opt_def)
  from fits16D [OF f(1)] obtain bs where bs: "utf8_encode s = Inr bs" "length bs \<le> 16" "0 \<notin> set s"
    by blast
  have "bs \<noteq> nb" using f(2) utf8_roundtrip [OF bs(1)] utf8_roundtrip [OF assms(2)] by auto
  from read_opt_pack16 [OF bs this assms(3)] show ?thesis by (simp add: Some opt_field_def bs)
qed

lemma no_values:
  "utf8_encode (replicate 16 48) = Inr NO_IMEI" "0 \<notin> set NO_IMEI" "length NO_IMEI = 16"
  "utf8_encode (replicate 16 32) = Inr NO_PMOD" "0 \<notin> set NO_PMOD" "length NO_PMOD = 16"
  by (simp_all add: utf8_encode_ascii ascii_def NO_IMEI_def NO_PMOD_def byte_of_def)

lemmas imei_field = opt_field_roundtrip [OF _ no_values(1-3)]
lemmas pmod_field = opt_field_roundtrip [OF _ no_values(4-6)]

section \<open>Peers survive the wire\<close>

definition wf_peer :: "peeraddr option \<Rightarrow> bool" where
  "wf_peer p = (case p of
       None \<Rightarrow> True
     | Some (Peer2 a port) \<Rightarrow> a \<noteq> No_Addr \<and> 0 \<le> port \<and> port < 65536
     | Some (Peer4 a port _ _) \<Rightarrow> a \<noteq> No_Addr \<and> 0 \<le> port \<and> port < 65536)"

text \<open>
  What arrives of a peer: no peer, or the address \<open>::\<close> whatever its port, is the empty
  text; an IPv6 address that holds an IPv4 one is that IPv4 address; flow and scope are
  dropped.
\<close>

fun norm_addr :: "ip_text \<Rightarrow> int \<Rightarrow> peeraddr" where
  "norm_addr (IP4 w) port = Peer2 (IP4 w) port"
| "norm_addr (IP6 w) port =
     (if uint w div 2 ^ 32 = 0xFFFF then Peer2 (IP4 (word_of_int (uint w mod 2 ^ 32))) port
      else if w = 0 then Peer2 No_Addr 0
      else Peer2 (IP6 w) port)"
| "norm_addr No_Addr port = Peer2 No_Addr 0"

definition norm_peer :: "peeraddr option \<Rightarrow> peeraddr" where
  "norm_peer p = (case p of
       None \<Rightarrow> Peer2 No_Addr 0
     | Some (Peer2 a port) \<Rightarrow> norm_addr a port
     | Some (Peer4 a port _ _) \<Rightarrow> norm_addr a port)"

lemma be_ip6 [simp]: "be (to_be 16 (uint (w :: 128 word))) = uint w"
proof -
  have "0 \<le> uint w" "uint w < 256 ^ 16" using uint_lt2p [of w] by simp_all
  then show ?thesis by (simp add: be_to_be)
qed

lemma unpack_peer_bytes:
  assumes "0 \<le> port" and "port < 65536"
  shows "unpack_peer (to_be 16 (uint w) @ to_be 2 port) = Inr (norm_addr (IP6 w) port)"
proof -
  have "be (to_be 2 port) = port" using assms by (simp add: be_to_be)
  then show ?thesis by (simp add: unpack_peer_def Let_def unsigned_eq_0_iff)
qed

lemma norm_mapped: "norm_addr (IP6 (word_of_int (0xFFFF * 2 ^ 32 + uint w))) port = Peer2 (IP4 w) port"
proof -
  have b: "0 \<le> uint w" "uint w < 2 ^ 32" using uint_lt2p [of w] by simp_all
  have uint_id: "uint (word_of_int k :: 128 word) = k" if "0 \<le> k" "k < 2 ^ 128" for k
    using that by (simp add: uint_word_of_int)
  have "0 \<le> 0xFFFF * 2 ^ 32 + uint w" "0xFFFF * 2 ^ 32 + uint w < 2 ^ 128" using b by simp_all
  from uint_id [OF this]
  have "uint (word_of_int (0xFFFF * 2 ^ 32 + uint w) :: 128 word) = 0xFFFF * 2 ^ 32 + uint w" .
  moreover have "(0xFFFF * 2 ^ 32 + uint w) div 2 ^ 32 = 0xFFFF" "(0xFFFF * 2 ^ 32 + uint w) mod 2 ^ 32 = uint w"
    using b by (simp_all only: mod_mult_self3 mod_pos_pos_trivial div_mult_self3 div_pos_pos_trivial)
  ultimately show ?thesis by (simp only: norm_addr.simps simp_thms if_True word_of_int_uint)
qed

lemma pack_peer_roundtrip:
  assumes "wf_peer p"
  shows "\<exists>bs. pack_peer p = Inr bs \<and> length bs = 18 \<and> unpack_peer bs = Inr (norm_peer p)"
proof -
  have main: "\<exists>bs. and_then (and_then (ip6_of a) (\<lambda>w. Inr (w, port)))
      (\<lambda>(w, port). and_then (pack_uint 2 port) (\<lambda>b. Inr (to_be 16 (uint w) @ b))) = Inr bs \<and>
      length bs = 18 \<and> unpack_peer bs = Inr (norm_addr a port)"
    if "a \<noteq> No_Addr" "0 \<le> port" "port < 65536" for a port
    using that norm_mapped unpack_peer_bytes [OF that(2,3)]
    by (cases a) (auto simp: ip6_of_def pack_uint_def simp del: norm_addr.simps(2))
  show ?thesis
  proof (cases p)
    case None
    then show ?thesis
      using unpack_peer_bytes [of 0 0] by (simp add: pack_peer_def pack_uint_def norm_peer_def)
  next
    case (Some q)
    with assms main show ?thesis
      by (cases q) (auto simp: pack_peer_def wf_peer_def norm_peer_def)
  qed
qed

section \<open>Messages survive the wire\<close>

text \<open>
  The contract of a kind of message: what is well formed can be packed, and decoding what was
  packed gives the message in normal form. A receiver can therefore tell any two messages
  that differ in more than what normal form forgets.
\<close>

locale wire_codec =
  fixes wf :: "'m \<Rightarrow> bool"
    and packed :: "'m \<Rightarrow> bytes res"
    and decode :: "bytes \<Rightarrow> 'm res"
    and norm :: "'m \<Rightarrow> 'm"
  assumes round: "wf m \<Longrightarrow> \<exists>bs. packed m = Inr bs \<and> decode bs = Inr (norm m)"
begin

lemma packed_returns: "wf m \<Longrightarrow> returns (packed m)"
  using round [of m] by (auto simp: returns_def)

lemma decode_packed: "wf m \<Longrightarrow> packed m = Inr bs \<Longrightarrow> decode bs = Inr (norm m)"
  using round [of m] by auto

lemma packed_inj: "wf m \<Longrightarrow> wf m' \<Longrightarrow> packed m = packed m' \<Longrightarrow> norm m = norm m'"
  using round [of m] round [of m'] by auto

end

definition wf_bcast :: "bcast \<Rightarrow> bool" where
  "wf_bcast m \<longleftrightarrow> fits16 (b_proto m) \<and> wf_opt (replicate 16 48) (b_imei m) \<and>
     wf_opt (replicate 16 32) (b_pmod m) \<and> wf_peer (b_peeraddr m)"

definition norm_bcast :: "bcast \<Rightarrow> bcast" where
  "norm_bcast m = m\<lparr>b_when := Some (when_bits (b_when m)),
     b_peeraddr := Some (norm_peer (b_peeraddr m))\<rparr>"

definition wf_resp :: "resp \<Rightarrow> bool" where
  "wf_resp m \<longleftrightarrow> r_imei m \<noteq> None \<and> wf_opt (replicate 16 48) (r_imei m)"

definition norm_resp :: "resp \<Rightarrow> resp" where
  "norm_resp m = m\<lparr>r_when := Some (when_bits (r_when m))\<rparr>"

definition wf_rept :: "rept \<Rightarrow> bool" where
  "wf_rept m \<longleftrightarrow> wf_opt (replicate 16 48) (p_imei m) \<and> returns (utf8_encode (p_payload m))"

text \<open>The places of the fields in a packed \<open>Bcast\<close>\<close>

lemma bcast_slices:
  assumes "length p = 16" and "length i = 16" and "length w = 8" and "length m = 16" and "length a = 18"
    and "bs = c # p @ i @ w @ m @ a @ pkt"
  shows "length (take 57 bs) = 57" "take 57 bs ! 0 = c" "pyslice 1 17 (take 57 bs) = p"
    "pyslice 17 33 (take 57 bs) = i" "pyslice 33 41 (take 57 bs) = w"
    "pyslice 41 57 (take 57 bs) = m" "pyslice 57 75 bs = a" "drop 75 bs = pkt"
  using assms by (simp_all add: pyslice_def)

lemma bcast_round:
  assumes "wf_bcast m"
  shows "\<exists>bs. bcast_packed m = Inr bs \<and> bcast_decode bs = Inr (norm_bcast m)"
proof -
  have wf: "fits16 (b_proto m)" "wf_opt (replicate 16 48) (b_imei m)"
    "wf_opt (replicate 16 32) (b_pmod m)" "wf_peer (b_peeraddr m)"
    using assms by (simp_all add: wf_bcast_def)
  from proto_field [OF wf(1)] obtain pr p where p: "utf8_encode (ljust 16 0 (take 16 (b_proto m))) = Inr pr"
    "utf8_decode (pack16 pr) = Inr p" "rstrip 0 p = b_proto m" by (auto simp: res_simps)
  from imei_field [OF wf(2)] pmod_field [OF wf(3)] obtain i d where
    i: "opt_field NO_IMEI (b_imei m) = Inr i" "read_opt NO_IMEI (pack16 i) = Inr (b_imei m)" and
    d: "opt_field NO_PMOD (b_pmod m) = Inr d" "read_opt NO_PMOD (pack16 d) = Inr (b_pmod m)" by blast
  from pack_peer_roundtrip [OF wf(4)] obtain a where
    a: "pack_peer (b_peeraddr m) = Inr a" "length a = 18" "unpack_peer a = Inr (norm_peer (b_peeraddr m))"
    by blast
  let ?w = "pack_d (when_bits (b_when m))" and ?c = "bool_byte (b_is_incoming m)"
  have packed: "bcast_packed m = Inr (?c # pack16 pr @ pack16 i @ ?w @ pack16 d @ a @ b_packet m)"
    by (simp add: bcast_packed_def p i d a)
  moreover have "(?c \<noteq> 0) = b_is_incoming m" by (simp add: bool_byte_def)
  moreover note sl = bcast_slices [of "pack16 pr" "pack16 i" ?w "pack16 d" a _ ?c "b_packet m",
      OF length_pack16 length_pack16 length_pack_d length_pack16 a(2) refl]
  ultimately have "bcast_decode (?c # pack16 pr @ pack16 i @ ?w @ pack16 d @ a @ b_packet m) =
      Inr (norm_bcast m)"
    unfolding bcast_decode_def Let_def sl using p i d a by (simp add: norm_bcast_def)
  with packed show ?thesis by blast
qed

lemma resp_round:
  assumes "wf_resp m"
  shows "\<exists>bs. resp_packed m = Inr bs \<and> resp_decode bs = Inr (norm_resp m)"
proof -
  from assms obtain s where s: "r_imei m = Some s" and wf: "wf_opt (replicate 16 48) (r_imei m)"
    by (auto simp: wf_resp_def)
  from imei_field [OF wf] obtain i where
    i: "opt_field NO_IMEI (r_imei m) = Inr i" "read_opt NO_IMEI (pack16 i) = Inr (r_imei m)" by blast
  with s have "utf8_encode s = Inr i" by (simp add: opt_field_def)
  with i s show ?thesis
    by (simp add: resp_packed_def resp_decode_def norm_resp_def)
qed

lemma rept_round:
  assumes "wf_rept m"
  shows "\<exists>bs. rept_packed m = Inr bs \<and> rept_decode bs = Inr m"
proof -
  from assms obtain t where wf: "wf_opt (replicate 16 48) (p_imei m)" and t: "utf8_encode (p_payload m) = Inr t"
    by (auto simp: wf_rept_def returns_def)
  from imei_field [OF wf] obtain i where
    i: "opt_field NO_IMEI (p_imei m) = Inr i" "read_opt NO_IMEI (pack16 i) = Inr (p_imei m)" by blast
  with t show ?thesis by (simp add: rept_packed_def rept_decode_def utf8_roundtrip)
qed

interpretation bcast: wire_codec wf_bcast bcast_packed bcast_decode norm_bcast
  by unfold_locales (rule bcast_round)

interpretation resp: wire_codec wf_resp resp_packed resp_decode norm_resp
  by unfold_locales (rule resp_round)

interpretation rept: wire_codec wf_rept rept_packed rept_decode id
  by unfold_locales (simp add: rept_round)

section \<open>Topics\<close>

lemma pack16_eq_iff:
  assumes "utf8_encode s = Inr bs" and "utf8_encode t = Inr cs" and "fits16 s" and "fits16 t"
  shows "pack16 bs = pack16 cs \<longleftrightarrow> s = t"
proof
  assume eq: "pack16 bs = pack16 cs"
  from assms have "text_field (pack16 bs) = Inr s" "text_field (pack16 cs) = Inr t"
    by (auto intro!: text_field_pack16 elim!: fits16D)
  with eq show "s = t" by simp
qed (use assms in simp)

lemma proto_field_topic:
  assumes "fits16 s" and "utf8_encode s = Inr bs"
  shows "\<exists>cs. utf8_encode (ljust 16 0 (take 16 s)) = Inr cs \<and> pack16 cs = pack16 bs"
proof -
  from fits16D [OF assms(1)] assms(2) have s: "length bs \<le> 16" "length s \<le> 16" by auto
  have "length s \<le> length bs" using utf8_encode_length [OF assms(2)] by simp
  with s assms(2) show ?thesis
    by (simp add: ljust_def utf8_encode_append utf8_encode_zeros pack16_def)
qed

lemma opt_field_topic:
  assumes "wf_opt none v" and "fits16 i" and "i \<noteq> none" and "utf8_encode none = Inr nb"
    and "fits16 none" and "utf8_encode i = Inr bi" and "opt_field nb v = Inr bv"
  shows "pack16 bv = pack16 bi \<longleftrightarrow> v = Some i"
proof (cases v)
  case None
  with assms show ?thesis using pack16_eq_iff [of none nb i bi] by (simp add: opt_field_def)
next
  case (Some s)
  with assms show ?thesis using pack16_eq_iff [of s bv i bi] by (simp add: opt_field_def wf_opt_def)
qed

lemma fits16_none: "fits16 (replicate 16 48)"
  by (simp add: fits16_def no_values)

lemma pack16_prefix:
  "prefix (pack16 x @ a) (pack16 y @ b) \<longleftrightarrow> pack16 x = pack16 y \<and> prefix a b"
  "prefix (pack16 x) (pack16 y @ b) \<longleftrightarrow> pack16 x = pack16 y"
  by (auto simp: prefix_def append_eq_append_conv)

lemma topic_prefix:
  assumes "wf_bcast m" and "bcast_packed m = Inr bs" and "fits16 p"
    and "case im of None \<Rightarrow> True | Some i \<Rightarrow> fits16 i \<and> i \<noteq> replicate 16 48"
  shows "\<exists>t. topic p inc im = Inr t \<and>
    (prefix t bs \<longleftrightarrow> inc = b_is_incoming m \<and> p = b_proto m \<and> (im = None \<or> im = b_imei m))"
proof -
  have wf: "fits16 (b_proto m)" "wf_opt (replicate 16 48) (b_imei m)"
    using assms(1) by (simp_all add: wf_bcast_def)
  from fits16D [OF wf(1)] fits16D [OF assms(3)] obtain pr pb where
    pr: "utf8_encode (b_proto m) = Inr pr" and pb: "utf8_encode p = Inr pb" by metis
  from proto_field_topic [OF wf(1) pr] obtain cs where
    cs: "utf8_encode (ljust 16 0 (take 16 (b_proto m))) = Inr cs" "pack16 cs = pack16 pr" by blast
  from assms(2) cs obtain i rest where i: "opt_field NO_IMEI (b_imei m) = Inr i"
    and bs: "bs = bool_byte (b_is_incoming m) # pack16 pr @ pack16 i @ rest"
    by (auto simp: bcast_packed_def res_simps)
  have bb: "bool_byte inc = bool_byte (b_is_incoming m) \<longleftrightarrow> inc = b_is_incoming m"
    by (simp add: bool_byte_def)
  have pp: "pack16 pb = pack16 pr \<longleftrightarrow> p = b_proto m"
    by (rule pack16_eq_iff [OF pb pr assms(3) wf(1)])
  show ?thesis
  proof (cases im)
    case None
    then show ?thesis
      using pb bb pp by (auto simp: topic_def bs pack16_prefix)
  next
    case (Some im')
    with assms(4) obtain ib where ib: "utf8_encode im' = Inr ib" and f: "fits16 im'" "im' \<noteq> replicate 16 48"
      by (auto elim!: fits16D)
    from opt_field_topic [OF wf(2) f no_values(1) fits16_none ib i]
    have "pack16 ib = pack16 i \<longleftrightarrow> im = b_imei m" by (auto simp: Some)
    then show ?thesis
      using pb bb pp ib by (auto simp: topic_def bs Some pack16_prefix)
  qed
qed

section \<open>Properties\<close>

text \<open>
  C11: A broadcast that is encodable (a name and a module of at most sixteen bytes, an IMEI that
  is not sixteen zeros, a peer with an address and a 16-bit port) can be packed, and decoding
  gives back its direction, protocol, module, IMEI and packet; a missing time is zero, a
  missing peer the empty address, an IPv4 address mapped into IPv6 the IPv4 address.
\<close>

theorem bcast_roundtrip:
  assumes "wf_bcast m"
  shows "\<exists>bs. bcast_packed m = Inr bs \<and> bcast_decode bs =
    Inr (m\<lparr>b_when := Some (when_bits (b_when m)), b_peeraddr := Some (norm_peer (b_peeraddr m))\<rparr>)"
  using bcast.round [OF assms] by (simp add: norm_bcast_def)

definition bcast_example :: bcast where
  "bcast_example = \<lparr>b_is_incoming = True, b_proto = u ''ZX:LOGIN'', b_pmod = Some (u ''zx303proto''),
     b_imei = Some (u ''0355488020930000''), b_when = None,
     b_peeraddr = Some (Peer4 (IP6 0xFFFF7F000001) 4303 0 0), b_packet = [10, 1]\<rparr>"

lemma fits16_ascii: "ascii s \<Longrightarrow> 0 \<notin> set s \<Longrightarrow> length s \<le> 16 \<Longrightarrow> fits16 s"
  by (simp add: fits16_def utf8_encode_ascii)

lemma wf_bcast_example: "wf_bcast bcast_example"
  by (simp add: bcast_example_def wf_bcast_def wf_opt_def wf_peer_def fits16_ascii ascii_def
      Cons_replicate_eq)

theorem bcast_roundtrip_witness:
  "\<exists>bs. bcast_packed bcast_example = Inr bs \<and> bcast_decode bs =
    Inr (bcast_example\<lparr>b_when := Some 0, b_peeraddr := Some (Peer2 (IP4 0x7F000001) 4303)\<rparr>)"
proof -
  have "norm_peer (b_peeraddr bcast_example) = Peer2 (IP4 0x7F000001) 4303"
    "when_bits (b_when bcast_example) = 0"
    by (simp_all add: bcast_example_def norm_peer_def when_bits_def)
  with bcast_roundtrip [OF wf_bcast_example] show ?thesis by simp
qed

text \<open>
  A response without an IMEI cannot be packed (\<open>struct.error\<close>). With one that fits its field
  and is not sixteen zeros it can, and decoding gives back the IMEI, the time and the packet.
\<close>

theorem resp_wire:
  "case r_imei m of
     None \<Rightarrow> resp_packed m = Inl StructError
   | Some i \<Rightarrow> fits16 i \<and> i \<noteq> replicate 16 48 \<longrightarrow>
       (\<exists>bs. resp_packed m = Inr bs \<and> resp_decode bs = Inr (m\<lparr>r_when := Some (when_bits (r_when m))\<rparr>))"
proof (cases "r_imei m")
  case None
  then show ?thesis by (simp add: resp_packed_def)
next
  case (Some i)
  then show ?thesis
    using resp.round [of m] by (simp add: wf_resp_def wf_opt_def norm_resp_def)
qed

theorem resp_wire_witness:
  "\<exists>bs. resp_packed \<lparr>r_imei = Some (u ''1234567890''), r_when = None, r_packet = [1]\<rparr> = Inr bs \<and>
    resp_decode bs = Inr \<lparr>r_imei = Some (u ''1234567890''), r_when = Some 0, r_packet = [1]\<rparr>"
  using resp_wire [of "\<lparr>r_imei = Some (u ''1234567890''), r_when = None, r_packet = [1]\<rparr>"]
  by (simp add: fits16_ascii ascii_def when_bits_def Cons_replicate_eq)

text \<open>
  A report with an encodable payload and an IMEI that fits survives packing and decoding
  unchanged.
\<close>

theorem rept_roundtrip:
  assumes "wf_rept m"
  shows "\<exists>bs. rept_packed m = Inr bs \<and> rept_decode bs = Inr m"
  using rept.round [OF assms] by simp

theorem rept_roundtrip_witness:
  "\<exists>bs. rept_packed \<lparr>p_imei = None, p_payload = [0x20AC]\<rparr> = Inr bs \<and>
    rept_decode bs = Inr \<lparr>p_imei = None, p_payload = [0x20AC]\<rparr>"
  by (rule rept_roundtrip) (simp add: wf_rept_def wf_opt_def utf8_encode_def utf8_char_def)

text \<open>
  C22: Subscriptions are exact. ZeroMQ delivers a message to a subscriber whose topic is a prefix
  of it. The topic of a protocol name, a direction and possibly an IMEI is a prefix of exactly
  those well-formed broadcasts that have this name, this direction and this IMEI; a name that
  is the beginning of another does not match it.
\<close>

theorem topic_selects:
  assumes "wf_bcast m" and "bcast_packed m = Inr bs" and "fits16 p"
    and "case im of None \<Rightarrow> True | Some i \<Rightarrow> fits16 i \<and> i \<noteq> replicate 16 48"
  shows "\<exists>t. topic p inc im = Inr t \<and>
    (prefix t bs \<longleftrightarrow> inc = b_is_incoming m \<and> p = b_proto m \<and> (im = None \<or> im = b_imei m))"
  using assms by (rule topic_prefix)

theorem topic_selects_witness:
  "\<exists>bs t. bcast_packed bcast_example = Inr bs \<and> topic (u ''ZX:LOG'') True None = Inr t \<and> \<not> prefix t bs"
proof -
  obtain bs where bs: "bcast_packed bcast_example = Inr bs"
    using bcast.round [OF wf_bcast_example] by blast
  have "fits16 (u ''ZX:LOG'')" by (simp add: fits16_ascii ascii_def)
  from topic_selects [OF wf_bcast_example bs this, of None True] bs show ?thesis
    by (simp add: bcast_example_def)
qed

lemma utf8_encode_e_acute: "utf8_encode (replicate k 0xE9) = Inr (concat (replicate k [0xC3, 0xA9]))"
proof (induction k)
  case 0
  then show ?case by (simp add: utf8_encode_def)
next
  case (Suc k)
  then show ?case by (simp add: utf8_encode_Cons utf8_char_def byte_of_def)
qed

lemma replicate_7: "replicate 7 x = [x, x, x, x, x, x, x]"
  by (simp add: numeral_eq_Suc)

lemma cut_name:
  assumes "7 \<le> n"
  shows "\<exists>pr. utf8_encode (ljust 16 0 (take 16 (u ''BS:'' @ replicate n 0xE9))) = Inr pr \<and>
    utf8_decode (pack16 pr) = Inl UnicodeDecodeError"
proof -
  have "7 \<le> min n 13" using assms by simp
  then obtain j where j: "min n 13 = 7 + j" using le_Suc_ex by blast
  have a: "utf8_encode (u ''BS:'') = Inr (b8 ''BS:'')"
    by (simp add: utf8_encode_ascii ascii_def byte_of_def)
  obtain z where "ljust 16 0 (take 16 (u ''BS:'' @ replicate n 0xE9)) =
      u ''BS:'' @ replicate (7 + j) 0xE9 @ replicate z 0"
    by (auto simp: ljust_def min.commute j [symmetric])
  then have "utf8_encode (ljust 16 0 (take 16 (u ''BS:'' @ replicate n 0xE9))) =
      Inr (b8 ''BS:'' @ concat (replicate (7 + j) [0xC3, 0xA9]) @ replicate z 0)"
    by (simp only: utf8_encode_append a utf8_encode_e_acute utf8_encode_zeros and_then.simps)
  moreover have "pack16 (b8 ''BS:'' @ concat (replicate (7 + j) [0xC3, 0xA9]) @ replicate z 0) =
      b8 ''BS:'' @ [0xC3, 0xA9, 0xC3, 0xA9, 0xC3, 0xA9, 0xC3, 0xA9, 0xC3, 0xA9, 0xC3, 0xA9, 0xC3]"
    by (simp add: pack16_def ljust_def replicate_add replicate_7)
  moreover have "utf8_decode (b8 ''BS:'' @
      [0xC3, 0xA9, 0xC3, 0xA9, 0xC3, 0xA9, 0xC3, 0xA9, 0xC3, 0xA9, 0xC3, 0xA9, 0xC3]) =
      Inl UnicodeDecodeError"
    by (simp add: utf8_decode.simps(2) utf8_cont_def consr_def)
  ultimately show ?thesis by simp
qed

text \<open>
  A name is cut to sixteen characters before it is encoded and to sixteen bytes after. A
  broadcast whose name is the tag of the beesure module and seven or more letters of two
  bytes can be packed, but not decoded: the cut falls into a letter.
\<close>

theorem bcast_cut_name:
  assumes "b_proto m = u ''BS:'' @ replicate n 0xE9" and "7 \<le> n"
    and "wf_bcast (m\<lparr>b_proto := []\<rparr>)"
  shows "\<exists>bs. bcast_packed m = Inr bs \<and> bcast_decode bs = Inl UnicodeDecodeError"
proof -
  have wf: "wf_opt (replicate 16 48) (b_imei m)" "wf_opt (replicate 16 32) (b_pmod m)"
    "wf_peer (b_peeraddr m)"
    using assms(3) by (simp_all add: wf_bcast_def)
  from cut_name [OF assms(2)] obtain pr where
    p: "utf8_encode (ljust 16 0 (take 16 (b_proto m))) = Inr pr"
    "utf8_decode (pack16 pr) = Inl UnicodeDecodeError" by (auto simp: assms(1))
  from imei_field [OF wf(1)] pmod_field [OF wf(2)] pack_peer_roundtrip [OF wf(3)] obtain i d a where
    i: "opt_field NO_IMEI (b_imei m) = Inr i" and d: "opt_field NO_PMOD (b_pmod m) = Inr d" and
    a: "pack_peer (b_peeraddr m) = Inr a" "length a = 18" by blast
  let ?w = "pack_d (when_bits (b_when m))" and ?c = "bool_byte (b_is_incoming m)"
  note sl = bcast_slices [of "pack16 pr" "pack16 i" ?w "pack16 d" a _ ?c "b_packet m",
      OF length_pack16 length_pack16 length_pack_d length_pack16 a(2) refl]
  have "bcast_packed m = Inr (?c # pack16 pr @ pack16 i @ ?w @ pack16 d @ a @ b_packet m)"
    by (simp add: bcast_packed_def p i d a)
  moreover have "bcast_decode (?c # pack16 pr @ pack16 i @ ?w @ pack16 d @ a @ b_packet m) =
      Inl UnicodeDecodeError"
    unfolding bcast_decode_def Let_def sl by (simp add: p)
  ultimately show ?thesis by blast
qed

theorem bcast_cut_name_witness:
  "\<exists>bs. bcast_packed (bcast_example\<lparr>b_proto := u ''BS:'' @ replicate 8 0xE9\<rparr>) = Inr bs \<and>
    bcast_decode bs = Inl UnicodeDecodeError"
  by (rule bcast_cut_name [of _ 8])
    (simp_all add: bcast_example_def wf_bcast_def wf_opt_def wf_peer_def fits16_ascii ascii_def
      Cons_replicate_eq)

end
