(* ===== verification/Clients.thy ===== *)
theory Clients
  imports Common Zmsg
begin

text \<open>
  The connected terminals (\<open>class Client\<close> and \<open>class Clients\<close> of
  \<open>loctrkd/collector.py\<close>). Client objects are shared: the dictionaries \<open>by_fd\<close> and
  \<open>by_imei\<close> may hold the same object, and it is changed through either. So the objects
  stand in a heap, and the dictionaries hold references, which \<open>==\<close> compares.

  Sockets are a file descriptor and whether they are open; what they yield is an input of the
  operations. The invariant \<open>clients_inv\<close> says how the two dictionaries agree.
\<close>

section \<open>Client\<close>

record client =
  c_fd :: int
  c_open :: bool
  c_addr :: peeraddr
  c_pmod :: "pmod option"
  c_stream :: "pstream option"
  c_imei :: "pystr option"

definition new_client :: "int \<Rightarrow> peeraddr \<Rightarrow> client" where
  "new_client fd addr = \<lparr>c_fd = fd, c_open = True, c_addr = addr, c_pmod = None, c_stream = None,
     c_imei = None\<rparr>"

text \<open>\<open>sock.fileno()\<close>: \<open>-1\<close> once the socket is closed\<close>

definition fileno :: "client \<Rightarrow> int" where
  "fileno c = (if c_open c then c_fd c else -1)"

definition client_close :: "client \<Rightarrow> client" where
  "client_close c =
     c\<lparr>c_open := False, c_stream := map_option (\<lambda>s. snd (pm_close s)) (c_stream c)\<rparr>"

text \<open>What \<open>sock.recv\<close> does: an \<open>OSError\<close>, or the bytes that came, none at the end\<close>

datatype sock_data = Recv_Error | Recv_Bytes bytes

text \<open>
  \<open>Client.recv\<close>: \<open>None\<close> when the terminal is gone, otherwise the packets. Data that no
  module recognises is dropped.
\<close>

definition client_recv :: "pmod list \<Rightarrow> sock_data \<Rightarrow> client \<Rightarrow> bytes list option \<times> client" where
  "client_recv pmods data c =
     (case data of
        Recv_Error \<Rightarrow> (None, c)
      | Recv_Bytes segment \<Rightarrow>
          if segment = [] then (None, c)
          else
            (let c1 = (case c_stream c of
                   Some s \<Rightarrow> c
                 | None \<Rightarrow>
                     (let p = probe_pmod pmods segment in
                      c\<lparr>c_pmod := p, c_stream := map_option pm_Stream p\<rparr>))
             in case c_stream c1 of
                  None \<Rightarrow> (Some [], c1)
                | Some s \<Rightarrow>
                    (case pm_recv s segment of
                       (ms, s') \<Rightarrow> (Some (packets ms), c1\<lparr>c_stream := Some s'\<rparr>))))"

text \<open>
  \<open>Client.send\<close>: the frame handed to the socket; an error of the socket is only logged.
\<close>

definition client_send :: "client \<Rightarrow> bytes \<Rightarrow> (int \<times> bytes) res" where
  "client_send c buffer =
     (case (c_stream c, c_pmod c) of
        (Some s, Some p) \<Rightarrow> and_then (pm_enframe p buffer (c_imei c)) (\<lambda>b. Inr (fileno c, b))
      | _ \<Rightarrow> Inl AssertionError)"

section \<open>Clients\<close>

record clients =
  heap :: "client list"
  by_fd :: "int \<rightharpoonup> nat"
  by_imei :: "pystr \<rightharpoonup> nat"

definition no_clients :: clients where
  "no_clients = \<lparr>heap = [], by_fd = Map.empty, by_imei = Map.empty\<rparr>"

abbreviation obj :: "clients \<Rightarrow> nat \<Rightarrow> client" where
  "obj cs r \<equiv> heap cs ! r"

definition set_obj :: "nat \<Rightarrow> client \<Rightarrow> clients \<Rightarrow> clients" where
  "set_obj r c cs = cs\<lparr>heap := (heap cs)[r := c]\<rparr>"

definition fds :: "clients \<Rightarrow> int set" where
  "fds cs = dom (by_fd cs)"

definition clients_add :: "int \<Rightarrow> peeraddr \<Rightarrow> clients \<Rightarrow> clients" where
  "clients_add fd addr cs =
     cs\<lparr>heap := heap cs @ [new_client fd addr], by_fd := (by_fd cs)(fd \<mapsto> length (heap cs))\<rparr>"

text \<open>
  \<open>Clients.stop\<close>. Reading \<open>self.by_imei[clnt.imei]\<close> raises where the client's IMEI is
  not in the dictionary.
\<close>

definition clients_stop :: "int \<Rightarrow> clients \<Rightarrow> clients res" where
  "clients_stop fd cs =
     (case by_fd cs fd of
        None \<Rightarrow> Inr cs
      | Some r \<Rightarrow>
          (let c = obj cs r; cs1 = set_obj r (client_close c) cs in
           and_then (case c_imei c of
               None \<Rightarrow> Inr cs1
             | Some i \<Rightarrow>
                 if i = [] then Inr cs1
                 else (case by_imei cs1 i of
                     None \<Rightarrow> Inl KeyError
                   | Some r' \<Rightarrow>
                       Inr (if r' = r then cs1\<lparr>by_imei := (by_imei cs1)(i := None)\<rparr> else cs1)))
             (\<lambda>cs2. Inr (cs2\<lparr>by_fd := (by_fd cs2)(fd := None)\<rparr>))))"

text \<open>
  The part of the loop of \<open>Clients.recv\<close> that looks for the IMEI of a client that has
  none yet: an older connection with the same IMEI loses it and is stopped.
\<close>

definition clients_login ::
  "(datetime \<Rightarrow> datetime) \<Rightarrow> nat \<Rightarrow> bytes \<Rightarrow> clients \<Rightarrow> clients res" where
  "clients_login tz r packet cs =
     (case c_pmod (obj cs r) of
        None \<Rightarrow> Inl AssertionError
      | Some pm \<Rightarrow>
          if c_imei (obj cs r) \<noteq> None then Inr cs
          else
            and_then (pm_imei_from_packet tz pm packet) (\<lambda>imei.
              case imei of
                None \<Rightarrow> Inr cs
              | Some i \<Rightarrow>
                  (let cs1 = set_obj r ((obj cs r)\<lparr>c_imei := Some i\<rparr>) cs in
                   and_then (case by_imei cs1 i of
                       None \<Rightarrow> Inr cs1
                     | Some old \<Rightarrow>
                         clients_stop (fileno (obj cs1 old))
                           (set_obj old ((obj cs1 old)\<lparr>c_imei := None\<rparr>) cs1))
                   (\<lambda>cs2. Inr (cs2\<lparr>by_imei := (by_imei cs2)(i \<mapsto> r)\<rparr>)))))"

text \<open>What is returned for a packet: the module, the IMEI known by then, the peer, the packet\<close>

type_synonym received = "pmod \<times> pystr option \<times> peeraddr \<times> bytes"

fun clients_packets ::
  "(datetime \<Rightarrow> datetime) \<Rightarrow> nat \<Rightarrow> bytes list \<Rightarrow> clients \<Rightarrow> (received list \<times> clients) res" where
  "clients_packets tz r [] cs = Inr ([], cs)"
| "clients_packets tz r (packet # ps) cs =
     and_then (clients_login tz r packet cs) (\<lambda>cs1.
       case c_pmod (obj cs1 r) of
         None \<Rightarrow> Inl AssertionError
       | Some pm \<Rightarrow>
           and_then (clients_packets tz r ps cs1) (\<lambda>(rs, cs2).
             Inr ((pm, c_imei (obj cs1 r), c_addr (obj cs1 r), packet) # rs, cs2)))"

definition clients_recv ::
  "(datetime \<Rightarrow> datetime) \<Rightarrow> pmod list \<Rightarrow> int \<Rightarrow> sock_data \<Rightarrow> clients \<Rightarrow>
   (received list option \<times> clients) res" where
  "clients_recv tz pmods fd data cs =
     (case by_fd cs fd of
        None \<Rightarrow> Inr (None, cs)
      | Some r \<Rightarrow>
          (case client_recv pmods data (obj cs r) of
             (None, c) \<Rightarrow> Inr (None, set_obj r c cs)
           | (Some ps, c) \<Rightarrow>
               and_then (clients_packets tz r ps (set_obj r c cs)) (\<lambda>(rs, cs').
                 Inr (Some rs, cs'))))"

text \<open>\<open>Clients.response\<close>: the module of the terminal and what was sent, if it is connected\<close>

definition clients_response :: "resp \<Rightarrow> clients \<Rightarrow> (pmod option \<times> (int \<times> bytes) list) res" where
  "clients_response m cs =
     (case r_imei m of
        None \<Rightarrow> Inr (None, [])
      | Some i \<Rightarrow>
          (case by_imei cs i of
             None \<Rightarrow> Inr (None, [])
           | Some r \<Rightarrow>
               and_then (client_send (obj cs r) (r_packet m)) (\<lambda>out.
                 Inr (c_pmod (obj cs r), [out]))))"

section \<open>The invariant\<close>

text \<open>
  A client without a stream has no IMEI. The stream is one of the client's module, and the
  IMEI is of that module's kind.
\<close>

definition client_wf :: "client \<Rightarrow> bool" where
  "client_wf c \<longleftrightarrow> wf_peer (Some (c_addr c)) \<and>
     (case c_stream c of
        None \<Rightarrow> c_imei c = None
      | Some s \<Rightarrow> c_pmod c = Some (stream_pmod s) \<and>
          (case c_imei c of None \<Rightarrow> True | Some i \<Rightarrow> pm_own_imei (stream_pmod s) i))"

text \<open>
  Every descriptor leads to an open client with that descriptor; every IMEI leads to a client
  that has it and is served; and a served client with an IMEI is found by it.
\<close>

definition clients_inv :: "clients \<Rightarrow> bool" where
  "clients_inv cs \<longleftrightarrow>
     (\<forall>fd r. by_fd cs fd = Some r \<longrightarrow>
        r < length (heap cs) \<and> c_open (obj cs r) \<and> c_fd (obj cs r) = fd) \<and>
     (\<forall>i r. by_imei cs i = Some r \<longrightarrow>
        r < length (heap cs) \<and> c_imei (obj cs r) = Some i \<and> by_fd cs (c_fd (obj cs r)) = Some r) \<and>
     (\<forall>fd r i. by_fd cs fd = Some r \<longrightarrow> c_imei (obj cs r) = Some i \<longrightarrow> by_imei cs i = Some r) \<and>
     (\<forall>c \<in> set (heap cs). client_wf c)"


lemma clients_invI:
  assumes "\<And>fd r. by_fd cs fd = Some r \<Longrightarrow>
      r < length (heap cs) \<and> c_open (obj cs r) \<and> c_fd (obj cs r) = fd"
    and "\<And>i r. by_imei cs i = Some r \<Longrightarrow>
      r < length (heap cs) \<and> c_imei (obj cs r) = Some i \<and> by_fd cs (c_fd (obj cs r)) = Some r"
    and "\<And>fd r i. by_fd cs fd = Some r \<Longrightarrow> c_imei (obj cs r) = Some i \<Longrightarrow> by_imei cs i = Some r"
    and "\<And>c. c \<in> set (heap cs) \<Longrightarrow> client_wf c"
  shows "clients_inv cs"
  unfolding clients_inv_def using assms by blast

lemma clients_invD:
  assumes "clients_inv cs"
  shows inv_fd: "by_fd cs fd = Some r \<Longrightarrow>
      r < length (heap cs) \<and> c_open (obj cs r) \<and> c_fd (obj cs r) = fd"
    and inv_imei: "by_imei cs i = Some r \<Longrightarrow>
      r < length (heap cs) \<and> c_imei (obj cs r) = Some i \<and> by_fd cs (c_fd (obj cs r)) = Some r"
    and inv_found: "by_fd cs fd = Some r \<Longrightarrow> c_imei (obj cs r) = Some i \<Longrightarrow> by_imei cs i = Some r"
    and inv_wf: "c \<in> set (heap cs) \<Longrightarrow> client_wf c"
  using assms unfolding clients_inv_def by blast+

lemma inv_obj_wf: "clients_inv cs \<Longrightarrow> r < length (heap cs) \<Longrightarrow> client_wf (obj cs r)"
  by (simp add: inv_wf)

lemma clients_inv_empty: "clients_inv no_clients"
  by (simp add: clients_inv_def no_clients_def)

section \<open>Operations keep the invariant\<close>

lemma stream_pmod_close [simp]: "stream_pmod (snd (pm_close s)) = stream_pmod s"
  by (cases s) (simp_all split: prod.split)

lemma client_wf_close: "client_wf c \<Longrightarrow> client_wf (client_close c)"
  by (auto simp: client_wf_def client_close_def split: option.splits)

lemma client_wf_no_imei: "client_wf c \<Longrightarrow> client_wf (c\<lparr>c_imei := None\<rparr>)"
  by (auto simp: client_wf_def split: option.splits)

lemma client_wf_new: "wf_peer (Some addr) \<Longrightarrow> client_wf (new_client fd addr)"
  by (simp add: client_wf_def new_client_def)

lemma client_wf_imei: "client_wf c \<Longrightarrow> c_imei c = Some i \<Longrightarrow>
    \<exists>s. c_stream c = Some s \<and> c_pmod c = Some (stream_pmod s) \<and> pm_own_imei (stream_pmod s) i"
  by (auto simp: client_wf_def split: option.splits)

text \<open>What \<open>client_recv\<close> keeps of a client\<close>

definition same_client :: "client \<Rightarrow> client \<Rightarrow> bool" where
  "same_client c c' \<longleftrightarrow> c_fd c' = c_fd c \<and> c_open c' = c_open c \<and> c_imei c' = c_imei c \<and>
     c_addr c' = c_addr c"

definition packets_of :: "client \<Rightarrow> bytes list \<Rightarrow> bool" where
  "packets_of c ps \<longleftrightarrow> (\<forall>p \<in> set ps. \<exists>s seg. p \<in> set (packets (fst (pm_recv s seg))) \<and>
     c_pmod c = Some (stream_pmod s) \<and> c_stream c \<noteq> None)"

lemma client_recv_stream:
  assumes "client_wf c" and "c_stream c = Some s"
    and c': "c' = c\<lparr>c_stream := Some (snd (pm_recv s seg))\<rparr>"
  shows "client_wf c' \<and> same_client c c' \<and> packets_of c' (packets (fst (pm_recv s seg)))"
proof -
  have "c_pmod c = Some (stream_pmod s)" using assms(1,2) by (simp add: client_wf_def)
  then have "packets_of c' (packets (fst (pm_recv s seg)))" by (auto simp: packets_of_def c')
  moreover have "client_wf c'" using assms(1,2) by (simp add: client_wf_def c' split: option.splits)
  ultimately show ?thesis by (simp add: same_client_def c')
qed

lemma client_recv_wf:
  assumes "client_wf c" and "client_recv pmods data c = (r, c')"
  shows "client_wf c' \<and> same_client c c' \<and> (\<forall>ps. r = Some ps \<longrightarrow> packets_of c' ps)"
proof -
  have same: "same_client c c" by (simp add: same_client_def)
  have nil: "packets_of c []" for c by (simp add: packets_of_def)
  show ?thesis
  proof (cases data)
    case Recv_Error
    with assms same show ?thesis by (simp add: client_recv_def)
  next
    case (Recv_Bytes seg)
    consider "seg = []" | s where "seg \<noteq> []" "c_stream c = Some s"
      | "seg \<noteq> []" "c_stream c = None" "probe_pmod pmods seg = None"
      | p where "seg \<noteq> []" "c_stream c = None" "probe_pmod pmods seg = Some p"
      by (cases "c_stream c"; cases "probe_pmod pmods seg") auto
    then show ?thesis
    proof cases
      case 1
      with assms Recv_Bytes same show ?thesis by (simp add: client_recv_def)
    next
      case (2 s)
      with assms(2) Recv_Bytes have "r = Some (packets (fst (pm_recv s seg)))"
        "c' = c\<lparr>c_stream := Some (snd (pm_recv s seg))\<rparr>"
        by (simp_all add: client_recv_def split: prod.splits)
      with client_recv_stream [OF assms(1) 2(2) refl] show ?thesis by simp
    next
      case 3
      with assms Recv_Bytes have "r = Some []" "c' = c\<lparr>c_pmod := None, c_stream := None\<rparr>"
        by (simp_all add: client_recv_def)
      moreover have "client_wf (c\<lparr>c_pmod := None, c_stream := None\<rparr>)"
        using assms(1) 3(2) by (simp add: client_wf_def)
      ultimately show ?thesis by (simp add: nil same_client_def)
    next
      case (4 p)
      let ?c1 = "c\<lparr>c_pmod := Some p, c_stream := Some (pm_Stream p)\<rparr>"
      have wf: "client_wf ?c1" using assms(1) 4(2) by (simp add: client_wf_def)
      from 4 assms(2) Recv_Bytes have "r = Some (packets (fst (pm_recv (pm_Stream p) seg)))"
        "c' = ?c1\<lparr>c_stream := Some (snd (pm_recv (pm_Stream p) seg))\<rparr>"
        by (simp_all add: client_recv_def split: prod.splits)
      with client_recv_stream [OF wf _ refl, of "pm_Stream p" seg] show ?thesis
        by (simp add: same_client_def)
    qed
  qed
qed

lemma set_obj_simps [simp]:
  "heap (set_obj r c cs) = (heap cs)[r := c]"
  "by_fd (set_obj r c cs) = by_fd cs" "by_imei (set_obj r c cs) = by_imei cs"
  by (simp_all add: set_obj_def)

text \<open>Changing an object but not what the dictionaries depend on\<close>

lemma same_client_obj:
  assumes "same_client (obj cs r) c"
  shows "c_fd (obj (set_obj r c cs) x) = c_fd (obj cs x)"
    "c_open (obj (set_obj r c cs) x) = c_open (obj cs x)"
    "c_imei (obj (set_obj r c cs) x) = c_imei (obj cs x)"
    "c_addr (obj (set_obj r c cs) x) = c_addr (obj cs x)"
  using assms by (cases "x = r"; cases "r < length (heap cs)"; simp add: same_client_def list_update_beyond)+

lemma set_obj_wf:
  assumes "clients_inv cs" and "client_wf c" and "c' \<in> set (heap (set_obj r c cs))"
  shows "client_wf c'"
  using inv_wf [OF assms(1)] assms(2,3) set_update_subset_insert [of "heap cs" r c] by auto

lemma clients_inv_set_obj:
  assumes "clients_inv cs" and "same_client (obj cs r) c" and "client_wf c"
  shows "clients_inv (set_obj r c cs)"
proof (rule clients_invI, unfold same_client_obj [OF assms(2)], unfold set_obj_simps length_list_update)
  fix fd r' assume "by_fd cs fd = Some r'"
  then show "r' < length (heap cs) \<and> c_open (obj cs r') \<and> c_fd (obj cs r') = fd"
    by (rule inv_fd [OF assms(1)])
next
  fix i r' assume "by_imei cs i = Some r'"
  then show "r' < length (heap cs) \<and> c_imei (obj cs r') = Some i \<and> by_fd cs (c_fd (obj cs r')) = Some r'"
    by (rule inv_imei [OF assms(1)])
next
  fix fd r' i assume "by_fd cs fd = Some r'" "c_imei (obj cs r') = Some i"
  then show "by_imei cs i = Some r'" by (rule inv_found [OF assms(1)])
next
  fix c' assume "c' \<in> set ((heap cs)[r := c])"
  then show "client_wf c'" using set_obj_wf [OF assms(1,3), of c' r] by simp
qed

lemma clients_add_inv:
  assumes "clients_inv cs" and "fd \<notin> fds cs" and "wf_peer (Some addr)"
  shows "clients_inv (clients_add fd addr cs)"
proof (rule clients_invI)
  let ?cs = "clients_add fd addr cs"
  fix f r assume "by_fd ?cs f = Some r"
  then show "r < length (heap ?cs) \<and> c_open (obj ?cs r) \<and> c_fd (obj ?cs r) = f"
    using inv_fd [OF assms(1), of f r]
    by (auto simp: clients_add_def nth_append new_client_def split: if_splits)
next
  let ?cs = "clients_add fd addr cs"
  fix i r assume "by_imei ?cs i = Some r"
  then show "r < length (heap ?cs) \<and> c_imei (obj ?cs r) = Some i \<and> by_fd ?cs (c_fd (obj ?cs r)) = Some r"
    using inv_imei [OF assms(1), of i r] assms(2) by (auto simp: clients_add_def nth_append fds_def)
next
  let ?cs = "clients_add fd addr cs"
  fix f r i assume "by_fd ?cs f = Some r" "c_imei (obj ?cs r) = Some i"
  then show "by_imei ?cs i = Some r"
    using inv_fd [OF assms(1), of f r] inv_found [OF assms(1), of f r i]
    by (auto simp: clients_add_def nth_append new_client_def split: if_splits)
next
  fix c assume "c \<in> set (heap (clients_add fd addr cs))"
  then show "client_wf c"
    using inv_wf [OF assms(1)] client_wf_new [OF assms(3)] by (auto simp: clients_add_def)
qed

section \<open>Stopping a client\<close>

text \<open>What \<open>clients_stop\<close> makes of the state when the descriptor leads to an object\<close>

definition stopped :: "nat \<Rightarrow> clients \<Rightarrow> clients" where
  "stopped r cs = \<lparr>heap = (heap cs)[r := client_close (obj cs r)],
     by_fd = (by_fd cs)(c_fd (obj cs r) := None),
     by_imei = (case c_imei (obj cs r) of None \<Rightarrow> by_imei cs | Some i \<Rightarrow> (by_imei cs)(i := None))\<rparr>"

lemma inv_own_imei:
  assumes "clients_inv cs" and "r < length (heap cs)" and "c_imei (obj cs r) = Some i"
  shows "i \<noteq> []"
  using client_wf_imei [OF inv_obj_wf [OF assms(1,2)] assms(3)] pm_own_imei_text by blast

lemma clients_stop_eq:
  assumes "clients_inv cs" and "by_fd cs fd = Some r"
  shows "clients_stop fd cs = Inr (stopped r cs)"
proof -
  from inv_fd [OF assms] have r: "r < length (heap cs)" "c_fd (obj cs r) = fd" by simp_all
  show ?thesis
  proof (cases "c_imei (obj cs r)")
    case None
    with assms(2) r show ?thesis by (simp add: clients_stop_def stopped_def set_obj_def Let_def)
  next
    case (Some i)
    with inv_own_imei [OF assms(1) r(1)] inv_found [OF assms] have "i \<noteq> []" "by_imei cs i = Some r"
      by simp_all
    with assms(2) r Some show ?thesis by (simp add: clients_stop_def stopped_def set_obj_def Let_def)
  qed
qed

lemma clients_stop_unknown: "by_fd cs fd = None \<Longrightarrow> clients_stop fd cs = Inr cs"
  by (simp add: clients_stop_def)

lemma stopped_simps:
  "length (heap (stopped r cs)) = length (heap cs)"
  "x \<noteq> r \<Longrightarrow> obj (stopped r cs) x = obj cs x"
  "by_fd (stopped r cs) = (by_fd cs)(c_fd (obj cs r) := None)"
  by (simp_all add: stopped_def)

lemma stopped_by_imei:
  assumes "clients_inv cs" and "by_fd cs fd = Some r"
  shows "by_imei (stopped r cs) i = (if by_imei cs i = Some r then None else by_imei cs i)"
  using inv_found [OF assms] inv_imei [OF assms(1), of i r]
  by (auto simp: stopped_def split: option.split)

lemma clients_inv_stopped:
  assumes "clients_inv cs" and "by_fd cs fd = Some r"
  shows "clients_inv (stopped r cs)"
proof (rule clients_invI)
  fix f x assume f: "by_fd (stopped r cs) f = Some x"
  then have x: "by_fd cs f = Some x" and "f \<noteq> c_fd (obj cs r)"
    by (auto simp: stopped_simps split: if_splits)
  with inv_fd [OF assms(1) x] have "x \<noteq> r" by auto
  with inv_fd [OF assms(1) x]
  show "x < length (heap (stopped r cs)) \<and> c_open (obj (stopped r cs) x) \<and> c_fd (obj (stopped r cs) x) = f"
    by (simp add: stopped_simps)
next
  fix i x assume "by_imei (stopped r cs) i = Some x"
  then have x: "by_imei cs i = Some x" "x \<noteq> r"
    by (auto simp: stopped_by_imei [OF assms] split: if_splits)
  have "c_fd (obj cs x) \<noteq> c_fd (obj cs r)"
    using inv_imei [OF assms(1) x(1)] inv_fd [OF assms] assms(2) x(2) by auto
  then show "x < length (heap (stopped r cs)) \<and> c_imei (obj (stopped r cs) x) = Some i \<and>
      by_fd (stopped r cs) (c_fd (obj (stopped r cs) x)) = Some x"
    using inv_imei [OF assms(1) x(1)] x(2) by (simp add: stopped_simps)
next
  fix f x i assume f: "by_fd (stopped r cs) f = Some x" and i: "c_imei (obj (stopped r cs) x) = Some i"
  from f have x: "by_fd cs f = Some x" and "f \<noteq> c_fd (obj cs r)"
    by (auto simp: stopped_simps split: if_splits)
  with inv_fd [OF assms(1) x] have "x \<noteq> r" by auto
  with i have "c_imei (obj cs x) = Some i" by (simp add: stopped_simps)
  from inv_found [OF assms(1) x this] \<open>x \<noteq> r\<close> show "by_imei (stopped r cs) i = Some x"
    by (simp add: stopped_by_imei [OF assms])
next
  fix c assume "c \<in> set (heap (stopped r cs))"
  then show "client_wf c"
    using set_update_subset_insert [of "heap cs" r "client_close (obj cs r)"] inv_wf [OF assms(1)]
      client_wf_close [OF inv_obj_wf [OF assms(1)]] inv_fd [OF assms]
    by (auto simp: stopped_def)
qed

text \<open>An object that no dictionary leads to may become anything.\<close>

lemma clients_inv_set_gone:
  assumes "clients_inv cs" and "r \<notin> ran (by_fd cs)" and "client_wf c"
  shows "clients_inv (set_obj r c cs)"
proof (rule clients_invI)
  fix fd x assume "by_fd (set_obj r c cs) fd = Some x"
  with assms(2) have x: "by_fd cs fd = Some x" "x \<noteq> r" by (auto simp: ran_def)
  with inv_fd [OF assms(1) x(1)] show "x < length (heap (set_obj r c cs)) \<and>
      c_open (obj (set_obj r c cs) x) \<and> c_fd (obj (set_obj r c cs) x) = fd"
    by simp
next
  fix i x assume "by_imei (set_obj r c cs) i = Some x"
  then have x: "by_imei cs i = Some x" by simp
  with inv_imei [OF assms(1) x] assms(2) have "x \<noteq> r" by (auto simp: ran_def)
  with inv_imei [OF assms(1) x] show "x < length (heap (set_obj r c cs)) \<and>
      c_imei (obj (set_obj r c cs) x) = Some i \<and>
      by_fd (set_obj r c cs) (c_fd (obj (set_obj r c cs) x)) = Some x"
    by simp
next
  fix fd x i assume "by_fd (set_obj r c cs) fd = Some x" and i: "c_imei (obj (set_obj r c cs) x) = Some i"
  with assms(2) have x: "by_fd cs fd = Some x" "x \<noteq> r" by (auto simp: ran_def)
  with i inv_found [OF assms(1) x(1)] show "by_imei (set_obj r c cs) i = Some x" by simp
next
  fix c' assume "c' \<in> set (heap (set_obj r c cs))"
  then show "client_wf c'" by (rule set_obj_wf [OF assms(1,3)])
qed

section \<open>Logging in\<close>

definition attached :: "nat \<Rightarrow> pystr \<Rightarrow> clients \<Rightarrow> clients" where
  "attached r i cs = (set_obj r ((obj cs r)\<lparr>c_imei := Some i\<rparr>) cs)\<lparr>by_imei := (by_imei cs)(i \<mapsto> r)\<rparr>"

definition dropped :: "nat \<Rightarrow> clients \<Rightarrow> clients" where
  "dropped old cs = set_obj old (client_close ((obj cs old)\<lparr>c_imei := None\<rparr>)) (stopped old cs)"

lemma attached_simps [simp]:
  "length (heap (attached r i cs)) = length (heap cs)"
  "x \<noteq> r \<Longrightarrow> obj (attached r i cs) x = obj cs x"
  "r < length (heap cs) \<Longrightarrow> obj (attached r i cs) r = (obj cs r)\<lparr>c_imei := Some i\<rparr>"
  "by_fd (attached r i cs) = by_fd cs"
  "by_imei (attached r i cs) = (by_imei cs)(i \<mapsto> r)"
  by (simp_all add: attached_def)

lemma clients_inv_attached:
  assumes inv: "clients_inv cs" and fd: "by_fd cs fd = Some r" and "c_imei (obj cs r) = None"
    and "by_imei cs i = None" and wf: "client_wf ((obj cs r)\<lparr>c_imei := Some i\<rparr>)"
  shows "clients_inv (attached r i cs)"
proof (rule clients_invI)
  note r = inv_fd [OF inv fd]
  fix f x assume "by_fd (attached r i cs) f = Some x"
  then show "x < length (heap (attached r i cs)) \<and> c_open (obj (attached r i cs) x) \<and>
      c_fd (obj (attached r i cs) x) = f"
    using inv_fd [OF inv, of f x] r by (cases "x = r") simp_all
next
  note r = inv_fd [OF inv fd]
  fix j x assume j: "by_imei (attached r i cs) j = Some x"
  show "x < length (heap (attached r i cs)) \<and> c_imei (obj (attached r i cs) x) = Some j \<and>
      by_fd (attached r i cs) (c_fd (obj (attached r i cs) x)) = Some x"
  proof (cases "j = i")
    case True
    with j r fd show ?thesis by simp
  next
    case False
    with j have "by_imei cs j = Some x" by simp
    with inv_imei [OF inv this] assms(3) show ?thesis by (cases "x = r") simp_all
  qed
next
  note r = inv_fd [OF inv fd]
  fix f x j assume f: "by_fd (attached r i cs) f = Some x" "c_imei (obj (attached r i cs) x) = Some j"
  show "by_imei (attached r i cs) j = Some x"
  proof (cases "x = r")
    case True
    with f r show ?thesis by simp
  next
    case False
    with f inv_found [OF inv, of f x j] have "by_imei cs j = Some x" by simp
    with assms(4) show ?thesis by auto
  qed
next
  fix c assume "c \<in> set (heap (attached r i cs))"
  then show "client_wf c" using set_obj_wf [OF inv wf, of c r] by (simp add: attached_def)
qed

lemma dropped_simps:
  assumes "clients_inv cs" and "by_fd cs fd = Some old"
  shows "length (heap (dropped old cs)) = length (heap cs)"
    "x \<noteq> old \<Longrightarrow> obj (dropped old cs) x = obj cs x"
    "by_fd (dropped old cs) = (by_fd cs)(fd := None)"
    "by_imei (dropped old cs) i = (if by_imei cs i = Some old then None else by_imei cs i)"
    "obj (dropped old cs) old = client_close ((obj cs old)\<lparr>c_imei := None\<rparr>)"
  using inv_fd [OF assms] by (simp_all add: dropped_def stopped_simps stopped_by_imei [OF assms])

lemma clients_inv_dropped:
  assumes "clients_inv cs" and "by_fd cs fd = Some old"
  shows "clients_inv (dropped old cs)"
  unfolding dropped_def
proof (rule clients_inv_set_gone)
  from assms show "clients_inv (stopped old cs)" by (rule clients_inv_stopped)
  show "old \<notin> ran (by_fd (stopped old cs))"
    using inv_fd [OF assms] inv_fd [OF assms(1)] by (auto simp: stopped_simps ran_def)
  show "client_wf (client_close ((obj cs old)\<lparr>c_imei := None\<rparr>))"
    using inv_fd [OF assms] by (simp add: client_wf_close client_wf_no_imei inv_obj_wf [OF assms(1)])
qed

lemma clients_login_new:
  assumes "c_pmod (obj cs r) = Some pm" and "c_imei (obj cs r) = None"
    and "pm_imei_from_packet tz pm p = Inr (Some i)" and "by_imei cs i = None"
  shows "clients_login tz r p cs = Inr (attached r i cs)"
  using assms by (simp add: clients_login_def attached_def)

lemma clients_login_old:
  assumes inv: "clients_inv cs" and "r < length (heap cs)"
    and "c_pmod (obj cs r) = Some pm" and "c_imei (obj cs r) = None"
    and "pm_imei_from_packet tz pm p = Inr (Some i)" and i: "by_imei cs i = Some old"
  shows "clients_login tz r p cs = Inr (attached r i (dropped old cs))"
proof -
  note old = inv_imei [OF inv i]
  with assms(4) have ne: "old \<noteq> r" by auto
  from old have opn: "c_open (obj cs old)" using inv_fd [OF inv] by blast
  let ?cs1 = "set_obj r ((obj cs r)\<lparr>c_imei := Some i\<rparr>) cs"
  let ?cs2 = "set_obj old ((obj cs old)\<lparr>c_imei := None\<rparr>) ?cs1"
  have c2: "obj ?cs2 old = (obj cs old)\<lparr>c_imei := None\<rparr>" using old by simp
  have stop: "clients_stop (c_fd (obj cs old)) ?cs2 =
      Inr ((set_obj old (client_close ((obj cs old)\<lparr>c_imei := None\<rparr>)) ?cs2)
        \<lparr>by_fd := (by_fd cs)(c_fd (obj cs old) := None)\<rparr>)"
    using old c2 by (simp add: clients_stop_def Let_def)
  have "clients_login tz r p cs =
      and_then (clients_stop (c_fd (obj cs old)) ?cs2) (\<lambda>cs2. Inr (cs2\<lparr>by_imei := (by_imei cs2)(i \<mapsto> r)\<rparr>))"
    using assms ne opn by (simp add: clients_login_def fileno_def)
  also have "\<dots> = Inr (attached r i (dropped old cs))"
    unfolding stop using old ne assms(2)
    by (simp add: attached_def dropped_def stopped_def set_obj_def list_update_swap)
  finally show ?thesis .
qed

end
