(* ===== verification/Sessions.thy ===== *)
theory Sessions
  imports Clients
begin

text \<open>
  The specification of the connected terminals, and the proof that \<open>Client\<close> and
  \<open>Clients\<close> of \<open>loctrkd/collector.py\<close> implement it: what the operations make of the
  sessions, a map from descriptors to peers and IMEIs without objects, references or a second
  dictionary.
\<close>

section \<open>The sessions of the terminals\<close>

text \<open>
  What the dictionaries are for, without objects and references: of every connection, the
  peer and the IMEI it has logged in with. A login ends whichever other session has the IMEI.
\<close>

type_synonym sessions = "int \<rightharpoonup> peeraddr \<times> pystr option"

definition sessions_of :: "clients \<Rightarrow> sessions" where
  "sessions_of cs fd = map_option (\<lambda>r. (c_addr (obj cs r), c_imei (obj cs r))) (by_fd cs fd)"

definition without_imei :: "pystr \<Rightarrow> sessions \<Rightarrow> sessions" where
  "without_imei i m = (\<lambda>fd. case m fd of Some (a, Some j) \<Rightarrow> if j = i then None else m fd | _ \<Rightarrow> m fd)"

definition log_in :: "int \<Rightarrow> pystr \<Rightarrow> sessions \<Rightarrow> sessions" where
  "log_in fd i m =
     (case m fd of Some (a, None) \<Rightarrow> (without_imei i m)(fd \<mapsto> (a, Some i)) | _ \<Rightarrow> m)"

lemma sessions_add: "clients_inv cs \<Longrightarrow> sessions_of (clients_add fd addr cs) = (sessions_of cs)(fd \<mapsto> (addr, None))"
  using inv_fd [of cs]
  by (fastforce simp: sessions_of_def clients_add_def new_client_def nth_append option.map_comp
      intro: option.map_cong0 split: option.split)

lemma sessions_stopped:
  assumes "clients_inv cs" and "by_fd cs fd = Some r"
  shows "sessions_of (stopped r cs) = (sessions_of cs)(fd := None)"
proof
  fix f
  show "sessions_of (stopped r cs) f = ((sessions_of cs)(fd := None)) f"
  proof (cases "by_fd cs f")
    case None
    with inv_fd [OF assms] show ?thesis by (simp add: sessions_of_def stopped_simps)
  next
    case (Some x)
    with inv_fd [OF assms] inv_fd [OF assms(1) Some] show ?thesis
      by (cases "f = fd"; cases "x = r") (simp_all add: sessions_of_def stopped_simps)
  qed
qed

lemma sessions_set_obj:
  assumes "same_client (obj cs r) c"
  shows "sessions_of (set_obj r c cs) = sessions_of cs"
  unfolding sessions_of_def same_client_obj [OF assms] by simp

lemma sessions_set_gone:
  assumes "r \<notin> ran (by_fd cs)"
  shows "sessions_of (set_obj r c cs) = sessions_of cs"
proof
  fix fd
  show "sessions_of (set_obj r c cs) fd = sessions_of cs fd"
  proof (cases "by_fd cs fd")
    case (Some x)
    with assms have "x \<noteq> r" by (auto simp: ran_def)
    with Some show ?thesis by (simp add: sessions_of_def)
  qed (simp add: sessions_of_def)
qed

lemma sessions_dropped:
  assumes "clients_inv cs" and "by_fd cs fd = Some old"
  shows "sessions_of (dropped old cs) = (sessions_of cs)(fd := None)"
proof -
  have "old \<notin> ran (by_fd (stopped old cs))"
    using inv_fd [OF assms] inv_fd [OF assms(1)] by (auto simp: stopped_simps ran_def)
  then show ?thesis by (simp add: dropped_def sessions_set_gone sessions_stopped [OF assms])
qed

lemma sessions_attached:
  assumes "clients_inv cs" and "by_fd cs fd = Some r"
  shows "sessions_of (attached r i cs) = (sessions_of cs)(fd \<mapsto> (c_addr (obj cs r), Some i))"
proof
  fix f
  show "sessions_of (attached r i cs) f = ((sessions_of cs)(fd \<mapsto> (c_addr (obj cs r), Some i))) f"
  proof (cases "by_fd cs f")
    case None
    with assms(2) show ?thesis by (auto simp: sessions_of_def)
  next
    case (Some x)
    with inv_fd [OF assms] inv_fd [OF assms(1) Some] assms(2) show ?thesis
      by (cases "x = r") (auto simp: sessions_of_def)
  qed
qed

lemma sessions_imei:
  assumes "clients_inv cs"
  shows "sessions_of cs fd = Some (a, Some i) \<longleftrightarrow>
    (\<exists>r. by_imei cs i = Some r \<and> c_fd (obj cs r) = fd \<and> c_addr (obj cs r) = a)"
proof
  assume "sessions_of cs fd = Some (a, Some i)"
  then obtain r where "by_fd cs fd = Some r" "c_addr (obj cs r) = a" "c_imei (obj cs r) = Some i"
    by (auto simp: sessions_of_def)
  with inv_found [OF assms this(1,3)] inv_fd [OF assms this(1)]
  show "\<exists>r. by_imei cs i = Some r \<and> c_fd (obj cs r) = fd \<and> c_addr (obj cs r) = a" by blast
next
  assume "\<exists>r. by_imei cs i = Some r \<and> c_fd (obj cs r) = fd \<and> c_addr (obj cs r) = a"
  then obtain r where r: "by_imei cs i = Some r" "c_fd (obj cs r) = fd" "c_addr (obj cs r) = a" by blast
  with inv_imei [OF assms r(1)] show "sessions_of cs fd = Some (a, Some i)"
    by (simp add: sessions_of_def)
qed

lemma without_imei_free:
  assumes "clients_inv cs" and "by_imei cs i = None"
  shows "without_imei i (sessions_of cs) = sessions_of cs"
proof
  fix fd
  show "without_imei i (sessions_of cs) fd = sessions_of cs fd"
    using sessions_imei [OF assms(1), of fd _ i] assms(2)
    by (auto simp: without_imei_def split: option.split)
qed

lemma without_imei_taken:
  assumes "clients_inv cs" and "by_imei cs i = Some old"
  shows "without_imei i (sessions_of cs) = (sessions_of cs)(c_fd (obj cs old) := None)"
proof
  fix fd
  show "without_imei i (sessions_of cs) fd = ((sessions_of cs)(c_fd (obj cs old) := None)) fd"
    using sessions_imei [OF assms(1), of fd _ i] assms(2)
      sessions_imei [OF assms(1), of "c_fd (obj cs old)" "c_addr (obj cs old)" i]
    by (auto simp: without_imei_def split: option.split)
qed

lemma fds_sessions: "fds cs = dom (sessions_of cs)"
  by (auto simp: fds_def sessions_of_def)

text \<open>The state and its sessions after a packet has been looked at\<close>

definition logged :: "(datetime \<Rightarrow> datetime) \<Rightarrow> pmod \<Rightarrow> int \<Rightarrow> bytes \<Rightarrow> sessions \<Rightarrow> sessions" where
  "logged tz pm fd p m =
     (case pm_imei_from_packet tz pm p of Inr (Some i) \<Rightarrow> log_in fd i m | _ \<Rightarrow> m)"

lemma sessions_no_imei: "by_fd cs fd = Some r \<Longrightarrow> c_imei (obj cs r) = None \<Longrightarrow>
    log_in fd i (sessions_of cs) = (without_imei i (sessions_of cs))(fd \<mapsto> (c_addr (obj cs r), Some i))"
  by (simp add: log_in_def sessions_of_def)

lemma sessions_has_imei:
  assumes "by_fd cs fd = Some r" and "c_imei (obj cs r) \<noteq> None"
  shows "logged tz pm fd p (sessions_of cs) = sessions_of cs"
  using assms by (auto simp: logged_def log_in_def sessions_of_def split: sum.split option.split)

text \<open>What a step on behalf of \<open>r\<close> at \<open>fd\<close> keeps\<close>

definition keeps :: "int \<Rightarrow> nat \<Rightarrow> clients \<Rightarrow> clients \<Rightarrow> bool" where
  "keeps fd r cs cs' \<longleftrightarrow> clients_inv cs' \<and> by_fd cs' fd = Some r \<and>
     c_pmod (obj cs' r) = c_pmod (obj cs r) \<and> c_stream (obj cs' r) = c_stream (obj cs r)"

lemma clients_login_ok:
  assumes inv: "clients_inv cs" and fd: "by_fd cs fd = Some r" and p: "packets_of (obj cs r) [p]"
    and pm: "c_pmod (obj cs r) = Some pm"
  shows "\<exists>cs'. clients_login tz r p cs = Inr cs' \<and> keeps fd r cs cs' \<and>
    sessions_of cs' = logged tz pm fd p (sessions_of cs)"
proof (cases "c_imei (obj cs r)")
  case (Some i)
  with inv fd pm sessions_has_imei [OF fd] show ?thesis by (simp add: clients_login_def keeps_def)
next
  case None
  note r = inv_fd [OF inv fd]
  from p pm obtain s seg st where p: "p \<in> set (packets (fst (pm_recv s seg)))" "stream_pmod s = pm"
    and st: "c_stream (obj cs r) = Some st" by (auto simp: packets_of_def)
  have "valid_datetime \<lparr>dt_year = 2000, dt_month = 1, dt_day = 1, dt_hour = 0, dt_minute = 0,
      dt_second = 0\<rparr>" by (simp add: valid_datetime_def days_in_month_def)
  from pm_delivered_packet [OF p this, of tz] obtain im where
    im: "pm_imei_from_packet tz pm p = Inr im" "\<And>i. im = Some i \<Longrightarrow> pm_own_imei pm i" by blast
  show ?thesis
  proof (cases im)
    case None
    with inv fd pm im \<open>c_imei (obj cs r) = None\<close> show ?thesis
      by (simp add: clients_login_def keeps_def logged_def)
  next
    case (Some i)
    have wf: "client_wf ((obj cs r)\<lparr>c_imei := Some i\<rparr>)"
      using inv_obj_wf [OF inv, of r] r st pm im(2) [OF Some] by (simp add: client_wf_def)
    show ?thesis
    proof (cases "by_imei cs i")
      case free: None
      from clients_login_new [OF pm None _ free] im(1) Some
      have "clients_login tz r p cs = Inr (attached r i cs)" by simp
      moreover have "keeps fd r cs (attached r i cs)"
        using clients_inv_attached [OF inv fd None free wf] fd r by (simp add: keeps_def)
      ultimately show ?thesis
        using sessions_attached [OF inv fd, of i] sessions_no_imei [OF fd None, of i] im(1) Some
        by (simp add: logged_def without_imei_free [OF inv free])
    next
      case old: (Some old)
      note o = inv_imei [OF inv old]
      with None have ne: "old \<noteq> r" by auto
      from o have ofd: "by_fd cs (c_fd (obj cs old)) = Some old" by simp
      with fd ne have fdne: "c_fd (obj cs old) \<noteq> fd" by auto
      let ?d = "dropped old cs"
      note d = dropped_simps [OF inv ofd]
      have di: "clients_inv ?d" by (rule clients_inv_dropped [OF inv ofd])
      have dfd: "by_fd ?d fd = Some r" using fd fdne by (simp add: d(3))
      have dr: "obj ?d r = obj cs r" using ne by (simp add: d(2))
      from clients_login_old [OF inv _ pm None _ old] im(1) Some r
      have "clients_login tz r p cs = Inr (attached r i ?d)" by simp
      moreover have "clients_inv (attached r i ?d)"
        using di dfd by (rule clients_inv_attached) (simp_all add: dr None wf d(4) old)
      then have "keeps fd r cs (attached r i ?d)" using dfd dr r d(1) by (simp add: keeps_def)
      ultimately show ?thesis
        using sessions_attached [OF di dfd, of i] sessions_no_imei [OF fd None, of i] im(1) Some
        by (simp add: logged_def without_imei_taken [OF inv old] sessions_dropped [OF inv ofd] dr)
    qed
  qed
qed

text \<open>The packets of a segment, over the sessions alone\<close>

fun session_packets ::
  "(datetime \<Rightarrow> datetime) \<Rightarrow> pmod \<Rightarrow> int \<Rightarrow> bytes list \<Rightarrow> sessions \<Rightarrow> received list \<times> sessions" where
  "session_packets tz pm fd [] m = ([], m)"
| "session_packets tz pm fd (p # ps) m =
     (let m1 = logged tz pm fd p m in
      case m1 fd of
        None \<Rightarrow> ([], m1)
      | Some (addr, imei) \<Rightarrow>
          (case session_packets tz pm fd ps m1 of (rs, m2) \<Rightarrow> ((pm, imei, addr, p) # rs, m2)))"

lemma log_in_dom: "dom (log_in fd i m) \<subseteq> dom m"
  by (auto simp: log_in_def without_imei_def split: option.splits if_splits)

lemma session_packets_dom: "dom (snd (session_packets tz pm fd ps m)) \<subseteq> dom m"
proof (induction ps arbitrary: m)
  case (Cons p ps)
  let ?m = "logged tz pm fd p m"
  have "dom (snd (session_packets tz pm fd (p # ps) m)) \<subseteq> dom ?m"
    using Cons [of ?m] by (simp add: Let_def split_beta split: option.split)
  also have "dom ?m \<subseteq> dom m"
    using log_in_dom [of fd _ m] by (simp add: logged_def split: sum.split option.split)
  finally show ?case .
qed simp

lemma packets_of_Cons: "packets_of c (p # ps) \<longleftrightarrow> packets_of c [p] \<and> packets_of c ps"
  by (auto simp: packets_of_def)

lemma packets_of_cong:
  "c_pmod c' = c_pmod c \<Longrightarrow> c_stream c' = c_stream c \<Longrightarrow> packets_of c' ps = packets_of c ps"
  by (simp add: packets_of_def)

lemma clients_packets_ok:
  assumes "clients_inv cs" and "by_fd cs fd = Some r" and "packets_of (obj cs r) ps"
    and "c_pmod (obj cs r) = Some pm"
  shows "\<exists>rs cs'. clients_packets tz r ps cs = Inr (rs, cs') \<and> keeps fd r cs cs' \<and>
    session_packets tz pm fd ps (sessions_of cs) = (rs, sessions_of cs')"
  using assms
proof (induction ps arbitrary: cs)
  case Nil
  then show ?case by (simp add: keeps_def)
next
  case (Cons p ps)
  have p: "packets_of (obj cs r) [p]" and ps: "packets_of (obj cs r) ps"
    using Cons.prems(3) packets_of_Cons by blast+
  obtain cs1 where cs1: "clients_login tz r p cs = Inr cs1" "keeps fd r cs cs1"
    "sessions_of cs1 = logged tz pm fd p (sessions_of cs)"
    using clients_login_ok [OF Cons.prems(1,2) p Cons.prems(4)] by blast
  have k: "clients_inv cs1" "by_fd cs1 fd = Some r" "c_pmod (obj cs1 r) = Some pm"
    "c_stream (obj cs1 r) = c_stream (obj cs r)"
    using cs1(2) Cons.prems(4) by (simp_all add: keeps_def)
  have ps1: "packets_of (obj cs1 r) ps"
    using ps packets_of_cong [of "obj cs1 r" "obj cs r"] k Cons.prems(4) by simp
  obtain rs cs' where cs': "clients_packets tz r ps cs1 = Inr (rs, cs')" "keeps fd r cs1 cs'"
    "session_packets tz pm fd ps (sessions_of cs1) = (rs, sessions_of cs')"
    using Cons.IH [OF k(1,2) ps1 k(3)] by blast
  have "sessions_of cs1 fd = Some (c_addr (obj cs1 r), c_imei (obj cs1 r))"
    using k(2) by (simp add: sessions_of_def)
  then have "session_packets tz pm fd (p # ps) (sessions_of cs) =
      ((pm, c_imei (obj cs1 r), c_addr (obj cs1 r), p) # rs, sessions_of cs')"
    using cs1(3) cs'(3) by (simp add: Let_def)
  moreover have "clients_packets tz r (p # ps) cs =
      Inr ((pm, c_imei (obj cs1 r), c_addr (obj cs1 r), p) # rs, cs')"
    using cs1(1) cs'(1) k(3) by simp
  moreover have "keeps fd r cs cs'" using cs'(2) cs1(2) by (simp add: keeps_def)
  ultimately show ?case by blast
qed

text \<open>What was received, and for whom\<close>

definition received_ok :: "received \<Rightarrow> bool" where
  "received_ok = (\<lambda>(pm, imei, addr, p). (\<exists>s seg. p \<in> set (packets (fst (pm_recv s seg))) \<and>
     stream_pmod s = pm) \<and> (\<forall>i. imei = Some i \<longrightarrow> pm_own_imei pm i) \<and> wf_peer (Some addr))"

lemma clients_packets_received:
  assumes "clients_inv cs" and "by_fd cs fd = Some r" and "packets_of (obj cs r) ps"
    and "c_pmod (obj cs r) = Some pm" and "clients_packets tz r ps cs = Inr (rs, cs')"
  shows "\<forall>x \<in> set rs. received_ok x \<and> fst x = pm"
  using assms
proof (induction ps arbitrary: cs rs)
  case (Cons p ps)
  have p: "packets_of (obj cs r) [p]" and ps: "packets_of (obj cs r) ps"
    using Cons.prems(3) packets_of_Cons by blast+
  obtain cs1 where cs1: "clients_login tz r p cs = Inr cs1" "keeps fd r cs cs1"
    using clients_login_ok [OF Cons.prems(1,2) p Cons.prems(4)] by blast
  have k: "clients_inv cs1" "by_fd cs1 fd = Some r" "c_pmod (obj cs1 r) = Some pm"
    "c_stream (obj cs1 r) = c_stream (obj cs r)"
    using cs1(2) Cons.prems(4) by (simp_all add: keeps_def)
  have ps1: "packets_of (obj cs1 r) ps"
    using ps packets_of_cong [of "obj cs1 r" "obj cs r"] k Cons.prems(4) by simp
  from Cons.prems(5) cs1(1) k(3) obtain rs1 where
    rs: "clients_packets tz r ps cs1 = Inr (rs1, cs')"
    "rs = (pm, c_imei (obj cs1 r), c_addr (obj cs1 r), p) # rs1"
    by (auto simp: res_simps)
  have wf: "client_wf (obj cs1 r)" using inv_obj_wf [OF k(1)] inv_fd [OF k(1,2)] by simp
  have "received_ok (pm, c_imei (obj cs1 r), c_addr (obj cs1 r), p)"
    using p Cons.prems(4) wf k(3) client_wf_imei [OF wf]
    by (auto simp: received_ok_def packets_of_def client_wf_def)
  with Cons.IH [OF k(1,2) ps1 k(3) rs(1)] rs(2) show ?case by simp
qed simp

section \<open>Receiving and answering\<close>

abbreviation packet_of :: "received \<Rightarrow> bytes" where
  "packet_of x \<equiv> snd (snd (snd x))"

lemma clients_packets_all: "clients_packets tz r ps cs = Inr (rs, cs') \<Longrightarrow> map packet_of rs = ps"
  by (induction ps arbitrary: cs rs) (auto simp: res_simps split: option.splits)


lemma packets_of_pmod: "packets_of c (p # ps) \<Longrightarrow> \<exists>pm. c_pmod c = Some pm"
  by (auto simp: packets_of_def)

lemma clients_recv_ok:
  assumes inv: "clients_inv cs" and fd: "by_fd cs fd = Some r"
    and recv: "client_recv pmods data (obj cs r) = (Some ps, c)"
  shows "\<exists>rs cs'. clients_recv tz pmods fd data cs = Inr (Some rs, cs') \<and> clients_inv cs' \<and>
    fds cs' \<subseteq> fds cs \<and> (\<forall>x \<in> set rs. received_ok x) \<and> map packet_of rs = ps \<and>
    (ps = [] \<longrightarrow> rs = [] \<and> sessions_of cs' = sessions_of cs) \<and>
    (\<forall>pm. c_pmod c = Some pm \<longrightarrow> session_packets tz pm fd ps (sessions_of cs) = (rs, sessions_of cs'))"
proof -
  note r = inv_fd [OF inv fd]
  from client_recv_wf [OF inv_obj_wf [OF inv] recv] r
  have c: "client_wf c" "same_client (obj cs r) c" "packets_of c ps" by simp_all
  let ?cs = "set_obj r c cs"
  have i: "clients_inv ?cs" by (rule clients_inv_set_obj [OF inv c(2,1)])
  have f: "by_fd ?cs fd = Some r" "obj ?cs r = c" using fd r by simp_all
  have s: "sessions_of ?cs = sessions_of cs" by (rule sessions_set_obj [OF c(2)])
  show ?thesis
  proof (cases ps)
    case Nil
    with fd recv i s show ?thesis by (simp add: clients_recv_def fds_sessions)
  next
    case (Cons p ps')
    with c(3) packets_of_pmod obtain pm where pm: "c_pmod c = Some pm" by blast
    have ps: "packets_of (obj ?cs r) ps" and m: "c_pmod (obj ?cs r) = Some pm"
      using c(3) pm f(2) by simp_all
    from clients_packets_ok [OF i f(1) ps m, of tz] obtain rs cs' where
      p: "clients_packets tz r ps ?cs = Inr (rs, cs')" "clients_inv cs'"
        "session_packets tz pm fd ps (sessions_of cs) = (rs, sessions_of cs')"
      unfolding s keeps_def by blast
    have "fds cs' \<subseteq> fds cs"
      using session_packets_dom [of tz pm fd ps "sessions_of cs"] p(3) by (simp add: fds_sessions)
    moreover have "\<forall>x \<in> set rs. received_ok x"
      using clients_packets_received [OF i f(1) ps m p(1)] by blast
    ultimately show ?thesis using fd recv p pm Cons clients_packets_all [OF p(1)] by (simp add: clients_recv_def)
  qed
qed

lemma clients_recv_gone:
  assumes inv: "clients_inv cs" and fd: "by_fd cs fd = Some r"
    and recv: "client_recv pmods data (obj cs r) = (None, c)"
  shows "\<exists>cs'. clients_recv tz pmods fd data cs = Inr (None, cs') \<and> clients_inv cs' \<and>
    sessions_of cs' = sessions_of cs"
proof -
  from client_recv_wf [OF inv_obj_wf [OF inv] recv] inv_fd [OF inv fd]
  have c: "client_wf c" "same_client (obj cs r) c" by simp_all
  with fd recv clients_inv_set_obj [OF inv c(2,1)] sessions_set_obj [OF c(2)] show ?thesis
    by (simp add: clients_recv_def)
qed

lemma clients_response_ok:
  assumes inv: "clients_inv cs" and i: "by_imei cs i = Some r" and m: "r_imei m = Some i"
  shows "\<exists>pm. c_pmod (obj cs r) = Some pm \<and> pm_own_imei pm i \<and>
    clients_response m cs =
      and_then (pm_enframe pm (r_packet m) (Some i)) (\<lambda>b. Inr (Some pm, [(c_fd (obj cs r), b)]))"
proof -
  note r = inv_imei [OF inv i]
  from client_wf_imei [OF inv_obj_wf [OF inv]] r obtain s where
    s: "c_stream (obj cs r) = Some s" "c_pmod (obj cs r) = Some (stream_pmod s)"
      "pm_own_imei (stream_pmod s) i" by blast
  have "c_open (obj cs r)" using r inv_fd [OF inv] by blast
  with i m s r show ?thesis
    by (cases "pm_enframe (stream_pmod s) (r_packet m) (Some i)")
      (simp_all add: clients_response_def client_send_def fileno_def)
qed

lemma clients_stop_ok:
  assumes "clients_inv cs"
  shows "\<exists>cs'. clients_stop fd cs = Inr cs' \<and> clients_inv cs' \<and>
    sessions_of cs' = (sessions_of cs)(fd := None)"
proof (cases "by_fd cs fd")
  case None
  then have "(sessions_of cs)(fd := None) = sessions_of cs" by (auto simp: sessions_of_def)
  with None assms show ?thesis by (simp add: clients_stop_unknown)
next
  case (Some r)
  with assms show ?thesis by (simp add: clients_stop_eq clients_inv_stopped sessions_stopped)
qed

lemma clients_recv_received:
  assumes "clients_inv cs" and "clients_recv tz pmods fd data cs = Inr (Some rs, cs')"
  shows "\<forall>x \<in> set rs. received_ok x"
proof -
  from assms(2) obtain r ps c where "by_fd cs fd = Some r" "client_recv pmods data (obj cs r) = (Some ps, c)"
    by (auto simp: clients_recv_def split: option.splits prod.splits)
  from clients_recv_ok [OF assms(1) this, of tz] assms(2) show ?thesis by auto
qed

section \<open>Example connections\<close>

text \<open>
  One terminal is logged in at descriptor 7, another connection at 8 has sent nothing yet.
\<close>

definition ex_addr :: peeraddr where
  "ex_addr = Peer4 (IP6 0x20010DB8000000000000000000000001) 50000 0 0"

definition ex_imei :: pystr where
  "ex_imei = u ''1234567890''"

definition ex_packet :: bytes where
  "ex_packet = b8 ''[3G*1234567890*0002*LK]''"

definition ex_clients :: clients where
  "ex_clients =
     \<lparr>heap = [\<lparr>c_fd = 7, c_open = True, c_addr = ex_addr, c_pmod = Some Beesure,
                c_stream = Some (Bs_Stream bs_Stream), c_imei = Some ex_imei\<rparr>,
              new_client 8 ex_addr],
      by_fd = [7 \<mapsto> 0, 8 \<mapsto> 1], by_imei = [ex_imei \<mapsto> 0]\<rparr>"

lemma ex_clients_inv: "clients_inv ex_clients"
  by (auto simp: clients_inv_def ex_clients_def new_client_def client_wf_def ex_addr_def ex_imei_def
      wf_peer_def imei_digits_def split: if_splits)

lemma ex_packet_wf: "bs_wf ex_packet"
  by (simp add: ex_packet_def bs_wf_def bs_header_def re_word_def re_digit_def re_hex_def
      hdr_datalen_def hex_value_def unhexdigit_def pyslice_def)

lemma ex_packet_imei: "bs_imei_from_packet ex_packet = Some ex_imei"
proof -
  have "bs_search ex_packet = Some 0" using ex_packet_wf by (simp add: bs_search_0 bs_wf_def)
  moreover have "hdr_imei ex_packet = ex_imei"
    by (simp add: hdr_imei_def pyslice_def ex_packet_def ex_imei_def)
  moreover have "ex_imei \<noteq> []" by (simp add: ex_imei_def)
  ultimately show ?thesis by (simp add: bs_imei_from_packet_def bs_framestart_def Let_def)
qed

lemma bs_recv_one:
  assumes "bs_wf p"
  shows "packets (fst (bs_recv bs_Stream p)) = [p]"
proof -
  have "length p \<le> BS_MAXBUFFER"
    using assms hdr_datalen_bound [of p] by (simp add: bs_wf_def BS_MAXBUFFER_def)
  then have "bs_recv bs_Stream p = bs_loop (bs_Stream\<lparr>bs_buffer := p\<rparr>)"
    by (simp add: bs_recv_def bs_Stream_def)
  with bs_loop_wf [of "[p]" "bs_Stream\<lparr>bs_buffer := p\<rparr>"] assms show ?thesis
    by (simp add: bs_Stream_def)
qed

lemma ex_recv:
  "\<exists>c. client_recv [Zx303, Beesure] (Recv_Bytes ex_packet) (new_client 8 ex_addr) = (Some [ex_packet], c) \<and>
    c_pmod c = Some Beesure"
proof -
  have "probe_pmod [Zx303, Beesure] ex_packet = Some Beesure"
    using ex_packet_wf
    by (simp add: probe_pmod_def zx_probe_buffer_def bs_probe_buffer_def bs_wf_def bs_search_0)
      (simp add: ex_packet_def)
  then show ?thesis
    using bs_recv_one [OF ex_packet_wf]
    by (simp add: client_recv_def new_client_def Let_def split_beta) (simp add: ex_packet_def)
qed

section \<open>Properties\<close>

text \<open>
  Stopping a descriptor never raises (the dictionary it indexes has the IMEI), keeps the two
  dictionaries and the shared objects consistent, and ends exactly the session of the
  descriptor, whatever IMEI it had logged in with; an unknown descriptor is ignored.
\<close>

theorem stop_ends_session:
  assumes "clients_inv cs"
  shows "\<exists>cs'. clients_stop fd cs = Inr cs' \<and> clients_inv cs' \<and>
    sessions_of cs' = (sessions_of cs)(fd := None)"
  using assms by (rule clients_stop_ok)

theorem stop_ends_session_witness:
  "\<exists>cs'. clients_stop 7 ex_clients = Inr cs' \<and> clients_inv cs' \<and>
    sessions_of cs' = (sessions_of ex_clients)(7 := None)"
  by (rule stop_ends_session) (rule ex_clients_inv)

text \<open>
  C5: Reading from a connection implements the specification. The packets that came are given
  out in order, each with the module, the peer and the IMEI that is known once the packet has
  been looked at; each packet with an IMEI logs in a connection that has none; and neither the
  dictionaries nor the shared objects ever disagree with the sessions.
\<close>

theorem recv_follows_sessions:
  assumes "clients_inv cs" and "by_fd cs fd = Some r"
    and "client_recv pmods data (obj cs r) = (Some ps, c)" and "c_pmod c = Some pm"
  shows "\<exists>rs cs'. clients_recv tz pmods fd data cs = Inr (Some rs, cs') \<and> clients_inv cs' \<and>
    session_packets tz pm fd ps (sessions_of cs) = (rs, sessions_of cs')"
  using clients_recv_ok [OF assms(1-3), of tz] assms(4) by blast

theorem recv_follows_sessions_witness:
  "\<exists>rs cs'. clients_recv id [Zx303, Beesure] 8 (Recv_Bytes ex_packet) ex_clients = Inr (Some rs, cs') \<and>
    clients_inv cs' \<and>
    session_packets id Beesure 8 [ex_packet] (sessions_of ex_clients) = (rs, sessions_of cs')"
proof -
  obtain c where c: "client_recv [Zx303, Beesure] (Recv_Bytes ex_packet) (new_client 8 ex_addr) =
      (Some [ex_packet], c)" "c_pmod c = Some Beesure" using ex_recv by blast
  have fd: "by_fd ex_clients 8 = Some 1" "obj ex_clients 1 = new_client 8 ex_addr"
    by (simp_all add: ex_clients_def)
  show ?thesis
    by (rule recv_follows_sessions [OF ex_clients_inv fd(1) c(1) [folded fd(2)] c(2)])
qed

text \<open>
  C9: The newest connection of a terminal wins. When a packet with an IMEI arrives on a
  connection that has none, while another is logged in with it, the packet is attributed to
  the IMEI, the other connection is no longer served, and every other session stays as it was.
\<close>

theorem relogin_takes_over:
  assumes inv: "clients_inv cs" and "sessions_of cs old = Some (a, Some i)"
    and "sessions_of cs fd = Some (b, None)" and "by_fd cs fd = Some r"
    and "client_recv pmods data (obj cs r) = (Some [p], c)" and "c_pmod c = Some pm"
    and "pm_imei_from_packet tz pm p = Inr (Some i)"
  shows "\<exists>cs'. clients_recv tz pmods fd data cs = Inr (Some [(pm, Some i, b, p)], cs') \<and>
    clients_inv cs' \<and> sessions_of cs' = (sessions_of cs)(old := None, fd \<mapsto> (b, Some i))"
proof -
  from clients_recv_ok [OF inv assms(4,5), of tz] assms(6) obtain rs cs' where
    cs': "clients_recv tz pmods fd data cs = Inr (Some rs, cs')" "clients_inv cs'"
      "session_packets tz pm fd [p] (sessions_of cs) = (rs, sessions_of cs')" by blast
  from assms(2) obtain o' where o': "by_imei cs i = Some o'" "c_fd (obj cs o') = old"
    unfolding sessions_imei [OF inv] by blast
  have "logged tz pm fd p (sessions_of cs) = (sessions_of cs)(old := None, fd \<mapsto> (b, Some i))"
    using assms(3,7) without_imei_taken [OF inv o'(1)] o'(2) by (simp add: logged_def log_in_def)
  with cs' show ?thesis by (simp add: Let_def)
qed

theorem relogin_takes_over_witness:
  "\<exists>cs'. clients_recv id [Zx303, Beesure] 8 (Recv_Bytes ex_packet) ex_clients =
      Inr (Some [(Beesure, Some ex_imei, ex_addr, ex_packet)], cs') \<and> clients_inv cs' \<and>
    sessions_of cs' = (sessions_of ex_clients)(7 := None, 8 \<mapsto> (ex_addr, Some ex_imei))"
proof -
  obtain c where c: "client_recv [Zx303, Beesure] (Recv_Bytes ex_packet) (new_client 8 ex_addr) =
      (Some [ex_packet], c)" "c_pmod c = Some Beesure" using ex_recv by blast
  have fd: "by_fd ex_clients 8 = Some 1" "obj ex_clients 1 = new_client 8 ex_addr"
    "sessions_of ex_clients 7 = Some (ex_addr, Some ex_imei)"
    "sessions_of ex_clients 8 = Some (ex_addr, None)"
    by (simp_all add: ex_clients_def sessions_of_def new_client_def)
  have "pm_imei_from_packet id Beesure ex_packet = Inr (Some ex_imei)" by (simp add: ex_packet_imei)
  then show ?thesis
    by (rule relogin_takes_over [OF ex_clients_inv fd(3,4,1) c(1) [folded fd(2)] c(2)])
qed

text \<open>
  C10: No IMEI has two sessions, and a response goes to the session of its IMEI: the packet is
  framed by the module of that connection for that IMEI and sent there and nowhere else.
  Without such a session nothing is sent.
\<close>

theorem response_routes:
  assumes inv: "clients_inv cs" and "r_imei m = Some i"
  shows "(\<forall>fd a fd' a'. sessions_of cs fd = Some (a, Some i) \<longrightarrow>
       sessions_of cs fd' = Some (a', Some i) \<longrightarrow> fd' = fd) \<and>
    (if \<exists>fd a. sessions_of cs fd = Some (a, Some i)
     then \<exists>fd a pm. sessions_of cs fd = Some (a, Some i) \<and> pm_own_imei pm i \<and>
       clients_response m cs =
         and_then (pm_enframe pm (r_packet m) (Some i)) (\<lambda>b. Inr (Some pm, [(fd, b)]))
     else clients_response m cs = Inr (None, []))"
proof (cases "by_imei cs i")
  case None
  with assms show ?thesis by (simp add: sessions_imei [OF inv] clients_response_def)
next
  case (Some r)
  from clients_response_ok [OF inv Some assms(2)] show ?thesis
    unfolding sessions_imei [OF inv] Some by auto
qed

theorem response_routes_witness:
  "\<exists>fd a pm. sessions_of ex_clients fd = Some (a, Some ex_imei) \<and> pm_own_imei pm ex_imei \<and>
     clients_response \<lparr>r_imei = Some ex_imei, r_when = None, r_packet = ex_packet\<rparr> ex_clients =
       and_then (pm_enframe pm ex_packet (Some ex_imei)) (\<lambda>b. Inr (Some pm, [(fd, b)]))"
proof -
  have "sessions_of ex_clients 7 = Some (ex_addr, Some ex_imei)"
    by (simp add: ex_clients_def sessions_of_def)
  with response_routes [OF ex_clients_inv, of "\<lparr>r_imei = Some ex_imei, r_when = None, r_packet = ex_packet\<rparr>"]
  show ?thesis by (auto split: if_splits)
qed

text \<open>
  The start of a connection is not reassembled. A login that arrives in one segment is
  delivered; cut inside its header, the first part is recognised by no module and dropped, and
  the rest is then not recognised either, so the terminal stays unknown.
\<close>

theorem first_segment_dropped:
  "fst (client_recv [Zx303, Beesure] (Recv_Bytes ex_packet) (new_client 8 ex_addr)) = Some [ex_packet] \<and>
   client_recv [Zx303, Beesure] (Recv_Bytes (take 12 ex_packet)) (new_client 8 ex_addr) =
     (Some [], new_client 8 ex_addr) \<and>
   client_recv [Zx303, Beesure] (Recv_Bytes (drop 12 ex_packet)) (new_client 8 ex_addr) =
     (Some [], new_client 8 ex_addr)"
proof -
  have "probe_pmod [Zx303, Beesure] (take 12 ex_packet) = None"
    "probe_pmod [Zx303, Beesure] (drop 12 ex_packet) = None"
    by (simp_all add: probe_pmod_def zx_probe_buffer_def bs_probe_buffer_def bs_header_def re_word_def
        ex_packet_def)
  then show ?thesis
    using ex_recv by (auto simp: client_recv_def new_client_def ex_packet_def)
qed

end
