(* ===== verification/Collector.thy ===== *)
theory Collector
  imports Sessions
begin

text \<open>
  The event loop of the collector (\<open>runserver\<close> of \<open>loctrkd/collector.py\<close>): one iteration as
  a function of what the poller returned, and the loop as a step relation.

  The sockets are third-party code: what arrives is the input of an iteration (a list of
  events, in the order the poller gives), what is sent is recorded in the state. The variable
  \<open>pmod\<close> of the Python function outlives the loop that binds it, so it is part of the state, \<open>None\<close>
  while it is unbound.
\<close>

section \<open>State and events\<close>

record server =
  s_clients :: clients
  pollingfds :: "int set"
  registered :: "int set"
  last_pmod :: "pmod option"
  published :: "bytes list"
  sent :: "(int \<times> bytes) list"

definition init_server :: server where
  "init_server = \<lparr>s_clients = no_clients, pollingfds = {}, registered = {}, last_pmod = None,
     published = [], sent = []\<rparr>"

text \<open>The lists an iteration collects\<close>

record batch =
  tosend :: "resp list"
  toadd :: "(int \<times> peeraddr) list"

definition empty_batch :: batch where
  "empty_batch = \<lparr>tosend = [], toadd = []\<rparr>"

text \<open>
  What the poller reports: messages waiting in the pull socket, a new connection (which
  \<open>accept\<close> gives, or fails to give with an \<open>OSError\<close> that nothing catches), data of a
  terminal (with the time \<open>time()\<close> returns and the clock the responses read), or some other flag.
\<close>

datatype event =
    Zpull "bytes list"
  | Accept int peeraddr
  | Accept_Fails
  | Client_In int sock_data "64 word" datetime
  | Stray int

section \<open>One event\<close>

fun pull_messages :: "bytes list \<Rightarrow> resp list res" where
  "pull_messages [] = Inr []"
| "pull_messages (msg # msgs) =
     and_then (resp_decode msg) (\<lambda>zmsg. and_then (pull_messages msgs) (\<lambda>ms. Inr (zmsg # ms)))"

text \<open>
  The body of the loop over what a terminal sent. \<open>conf\<close> holds the parameters of the service:
  the configured modules, the flag \<open>handle_hibernate\<close>, and the standard library's local time
  zone and \<open>repr\<close>.
\<close>

record config =
  cf_pmods :: "pmod list"
  cf_hibernate :: bool
  cf_tz :: "datetime \<Rightarrow> datetime"
  cf_repr :: "pyval \<Rightarrow> pystr"

definition publish_in :: "64 word \<Rightarrow> received \<Rightarrow> bytes res" where
  "publish_in when = (\<lambda>(pm, imei, peer, packet).
     and_then (pm_proto_of_message pm packet) (\<lambda>proto.
       bcast_packed \<lparr>b_is_incoming = True, b_proto = proto, b_pmod = Some (PMODNAME pm), b_imei = imei,
         b_when = Some when, b_peeraddr = Some peer, b_packet = packet\<rparr>))"

definition handle_packet ::
  "config \<Rightarrow> int \<Rightarrow> 64 word \<Rightarrow> datetime \<Rightarrow> received \<Rightarrow> server \<times> batch \<Rightarrow> (server \<times> batch) res" where
  "handle_packet conf sk when now rcv = (\<lambda>(sv, bt). case rcv of (pm, imei, peer, packet) \<Rightarrow>
     and_then (publish_in when rcv) (\<lambda>msg.
     let sv1 = sv\<lparr>last_pmod := Some pm, published := published sv @ [msg]\<rparr> in
     and_then (pm_is_goodbye_packet pm packet) (\<lambda>bye.
     and_then (if bye \<and> cf_hibernate conf then clients_stop sk (s_clients sv1) else Inr (s_clients sv1))
       (\<lambda>cs.
     let sv2 = sv1\<lparr>s_clients := cs\<rparr> in
     and_then (pm_inline_response (cf_repr conf) now pm packet) (\<lambda>respmsg.
     case respmsg of
       None \<Rightarrow> Inr (sv2, bt)
     | Some r \<Rightarrow>
         Inr (sv2, bt\<lparr>tosend := tosend bt @ [\<lparr>r_imei = imei, r_when = Some when, r_packet = r\<rparr>]\<rparr>))))))"

definition handle_event :: "config \<Rightarrow> event \<Rightarrow> server \<times> batch \<Rightarrow> (server \<times> batch) res" where
  "handle_event conf ev = (\<lambda>(sv, bt).
     case ev of
       Zpull msgs \<Rightarrow>
         and_then (pull_messages msgs) (\<lambda>ms. Inr (sv, bt\<lparr>tosend := tosend bt @ ms\<rparr>))
     | Accept fd addr \<Rightarrow> Inr (sv, bt\<lparr>toadd := toadd bt @ [(fd, addr)]\<rparr>)
     | Accept_Fails \<Rightarrow> Inl OSError
     | Client_In sk data when now \<Rightarrow>
         and_then (clients_recv (cf_tz conf) (cf_pmods conf) sk data (s_clients sv)) (\<lambda>(received, cs).
         case received of
           None \<Rightarrow>
             and_then (clients_stop sk cs) (\<lambda>cs1. Inr (sv\<lparr>s_clients := cs1\<rparr>, bt))
         | Some rs \<Rightarrow> fold_res (handle_packet conf sk when now) rs (sv\<lparr>s_clients := cs\<rparr>, bt))
     | Stray sk \<Rightarrow> Inr (sv, bt))"

section \<open>After the events\<close>

text \<open>
  \<open>pmod=pmod.PMODNAME\<close>: the module is the one of the last packet received from any terminal,
  and not \<open>rpmod\<close>, whose packet it is.
\<close>

definition send_response :: "resp \<Rightarrow> server \<Rightarrow> server res" where
  "send_response zmsg sv =
     and_then (clients_response zmsg (s_clients sv)) (\<lambda>(rpmod, out).
     let sv1 = sv\<lparr>sent := sent sv @ out\<rparr> in
     case rpmod of
       None \<Rightarrow> Inr sv1
     | Some rp \<Rightarrow>
         and_then (pm_proto_of_message rp (r_packet zmsg)) (\<lambda>proto.
         case last_pmod sv1 of
           None \<Rightarrow> Inl UnboundLocalError
         | Some pm \<Rightarrow>
             and_then (bcast_packed \<lparr>b_is_incoming = False, b_proto = proto,
                 b_pmod = Some (PMODNAME pm), b_imei = r_imei zmsg, b_when = r_when zmsg,
                 b_peeraddr = None, b_packet = r_packet zmsg\<rparr>) (\<lambda>msg.
             Inr (sv1\<lparr>published := published sv1 @ [msg]\<rparr>))))"

definition update_polling :: "(int \<times> peeraddr) list \<Rightarrow> server \<Rightarrow> server" where
  "update_polling added sv =
     (let sv1 = sv\<lparr>registered := registered sv - (pollingfds sv - fds (s_clients sv))\<rparr>;
          cs = foldl (\<lambda>cs (fd, addr). clients_add fd addr cs) (s_clients sv1) added;
          sv2 = sv1\<lparr>s_clients := cs, registered := registered sv1 \<union> (fds cs - pollingfds sv1)\<rparr>
      in sv2\<lparr>pollingfds := fds cs\<rparr>)"

definition iteration :: "config \<Rightarrow> event list \<Rightarrow> server \<Rightarrow> server res" where
  "iteration conf events sv =
     and_then (fold_res (handle_event conf) events (sv, empty_batch)) (\<lambda>(sv1, bt).
     and_then (fold_res send_response (tosend bt) sv1) (\<lambda>sv2.
     Inr (update_polling (toadd bt) sv2)))"

section \<open>What the surroundings promise\<close>

text \<open>
  A response pulled from another service must be one that the module of its terminal can frame, and
  \<open>accept\<close> must succeed.
  Accepted descriptors are new: an open one is not given out twice, and the poller
  reports the listening socket, registered first, before the terminals, so before any is closed.
\<close>

definition resp_ok :: "resp \<Rightarrow> bool" where
  "resp_ok m \<longleftrightarrow>
     (case r_imei m of
        None \<Rightarrow> True
      | Some i \<Rightarrow> list_all (\<lambda>pm. pm_own_imei pm i \<longrightarrow> pm_sendable pm (r_packet m)) [Zx303, Beesure])"

fun event_ok :: "event \<Rightarrow> bool" where
  "event_ok (Zpull msgs) =
     (case pull_messages msgs of Inl e \<Rightarrow> False | Inr ms \<Rightarrow> list_all resp_ok ms)"
| "event_ok (Accept fd addr) = wf_peer (Some addr)"
| "event_ok Accept_Fails = False"
| "event_ok (Client_In sk data when now) = valid_datetime now"
| "event_ok (Stray sk) = True"

fun accepted :: "event list \<Rightarrow> (int \<times> peeraddr) list" where
  "accepted [] = []"
| "accepted (Accept fd addr # evs) = (fd, addr) # accepted evs"
| "accepted (ev # evs) = accepted evs"

definition events_ok :: "server \<Rightarrow> event list \<Rightarrow> bool" where
  "events_ok sv evs \<longleftrightarrow> list_all event_ok evs \<and> distinct (map fst (accepted evs)) \<and>
     (\<forall>fd \<in> set (map fst (accepted evs)). fd \<notin> fds (s_clients sv))"

section \<open>The invariant\<close>

text \<open>
  The poller watches exactly the served descriptors, and once a terminal has logged in, the
  variable \<open>pmod\<close> is bound.
\<close>

definition pmod_bound :: "server \<Rightarrow> bool" where
  "pmod_bound sv \<longleftrightarrow>
     (\<forall>fd a i. sessions_of (s_clients sv) fd = Some (a, Some i) \<longrightarrow> last_pmod sv \<noteq> None)"

definition server_inv :: "server \<Rightarrow> bool" where
  "server_inv sv \<longleftrightarrow> clients_inv (s_clients sv) \<and> pollingfds sv = fds (s_clients sv) \<and>
     registered sv = fds (s_clients sv) \<and> pmod_bound sv"

lemma server_inv_init: "server_inv init_server"
  using clients_inv_empty
  by (simp add: server_inv_def init_server_def fds_def no_clients_def pmod_bound_def sessions_of_def)

text \<open>What holds in the middle of an iteration that began with the clients \<open>cs0\<close>\<close>

definition mid :: "clients \<Rightarrow> server \<times> batch \<Rightarrow> bool" where
  "mid cs0 = (\<lambda>(sv, bt). clients_inv (s_clients sv) \<and> fds (s_clients sv) \<subseteq> fds cs0 \<and>
     pollingfds sv = fds cs0 \<and> registered sv = fds cs0 \<and> list_all resp_ok (tosend bt))"

section \<open>Publishing never raises\<close>

lemma opt_ascii: "(\<And>i. v = Some i \<Longrightarrow> ascii i) \<Longrightarrow> \<exists>bs. opt_field none v = Inr bs"
  by (cases v) (auto simp: opt_field_def utf8_encode_ascii)

lemma PMODNAME_ascii: "ascii (PMODNAME p)"
  by (cases p) (simp_all add: ascii_def)

lemma bcast_packed_ok:
  assumes "encodable_name n" and "\<And>i. im = Some i \<Longrightarrow> ascii i" and "wf_peer peer"
  shows "\<exists>msg. bcast_packed \<lparr>b_is_incoming = inc, b_proto = n, b_pmod = Some (PMODNAME pm), b_imei = im,
    b_when = when, b_peeraddr = peer, b_packet = p\<rparr> = Inr msg"
proof -
  obtain a where "utf8_encode (ljust 16 0 (take 16 n)) = Inr a"
    using assms(1) by (auto simp: encodable_name_def returns_def)
  moreover obtain b where "opt_field NO_IMEI im = Inr b" using opt_ascii [OF assms(2)] by blast
  moreover obtain c where "opt_field NO_PMOD (Some (PMODNAME pm)) = Inr c"
    using opt_ascii [of "Some (PMODNAME pm)"] PMODNAME_ascii by blast
  moreover obtain d where "pack_peer peer = Inr d" using pack_peer_roundtrip [OF assms(3)] by blast
  ultimately show ?thesis by (simp add: bcast_packed_def)
qed

lemma sendable_resp_ok:
  assumes "pm_own_imei pm i" and "pm_sendable pm r"
  shows "resp_ok \<lparr>r_imei = Some i, r_when = t, r_packet = r\<rparr>"
proof -
  have "pm_sendable q r" if "pm_own_imei q i" for q
    using pm_own_imei_unique [OF assms(1) that] assms(2) by simp
  then show ?thesis by (simp add: resp_ok_def)
qed

section \<open>An iteration never raises\<close>

lemma handle_packet_ok:
  assumes m: "mid cs0 (sv, bt)" and r: "received_ok rcv" and now: "valid_datetime now"
  shows "\<exists>sv' bt'. handle_packet conf sk t now rcv (sv, bt) = Inr (sv', bt') \<and> mid cs0 (sv', bt') \<and>
    last_pmod sv' = Some (fst rcv) \<and> toadd bt' = toadd bt"
proof -
  obtain pm im peer p where rcv: "rcv = (pm, im, peer, p)" by (cases rcv)
  from r obtain s seg where d: "p \<in> set (packets (fst (pm_recv s seg)))" "stream_pmod s = pm"
    and own: "\<And>i. im = Some i \<Longrightarrow> pm_own_imei pm i" and peer: "wf_peer (Some peer)"
    by (auto simp: rcv received_ok_def)
  from pm_delivered_packet [OF d now, of id "cf_repr conf"] obtain n g x where
    n: "pm_proto_of_message pm p = Inr n" "encodable_name n" and g: "pm_is_goodbye_packet pm p = Inr g"
    and x: "pm_inline_response (cf_repr conf) now pm p = Inr x" "\<And>y. x = Some y \<Longrightarrow> pm_sendable pm y"
    by blast
  obtain msg where msg: "publish_in t rcv = Inr msg"
    using bcast_packed_ok [OF n(2) _ peer, of im True pm "Some t" p] own pm_own_imei_text n(1)
    by (auto simp: rcv publish_in_def)
  obtain cs where cs: "(if g \<and> cf_hibernate conf then clients_stop sk (s_clients sv) else Inr (s_clients sv)) = Inr cs"
    "clients_inv cs" "fds cs \<subseteq> fds (s_clients sv)"
  proof (cases "g \<and> cf_hibernate conf")
    case True
    from m have "clients_inv (s_clients sv)" by (simp add: mid_def)
    from clients_stop_ok [OF this, of sk] True that show ?thesis by (auto simp: fds_sessions)
  qed (use m that in \<open>auto simp: mid_def\<close>)
  let ?sv = "sv\<lparr>last_pmod := Some pm, published := published sv @ [msg], s_clients := cs\<rparr>"
  let ?bt = "case x of None \<Rightarrow> bt
    | Some y \<Rightarrow> bt\<lparr>tosend := tosend bt @ [\<lparr>r_imei = im, r_when = Some t, r_packet = y\<rparr>]\<rparr>"
  have "handle_packet conf sk t now rcv (sv, bt) = Inr (?sv, ?bt)"
    using n g x cs(1) msg
    by (cases g; cases "cf_hibernate conf")
      (simp_all add: handle_packet_def rcv Let_def split: option.split)
  moreover have "list_all resp_ok (tosend ?bt)"
  proof (cases x)
    case (Some y)
    have "resp_ok \<lparr>r_imei = im, r_when = Some t, r_packet = y\<rparr>"
      using sendable_resp_ok [OF own x(2) [OF Some]] by (cases im) (simp_all add: resp_ok_def)
    with m Some show ?thesis by (simp add: mid_def)
  qed (use m in \<open>simp add: mid_def\<close>)
  then have "mid cs0 (?sv, ?bt)" using m cs(2,3) by (auto simp: mid_def)
  moreover have "toadd ?bt = toadd bt" by (simp split: option.split)
  ultimately show ?thesis by (simp add: rcv)
qed

lemma handle_packets_ok:
  assumes "mid cs0 (sv, bt)" and "\<forall>x \<in> set rs. received_ok x" and "valid_datetime now"
  shows "\<exists>sv' bt'. fold_res (handle_packet conf sk t now) rs (sv, bt) = Inr (sv', bt') \<and>
    mid cs0 (sv', bt') \<and> (rs \<noteq> [] \<longrightarrow> last_pmod sv' \<noteq> None) \<and>
    (rs = [] \<longrightarrow> sv' = sv) \<and> toadd bt' = toadd bt"
  using assms(1,2)
proof (induction rs arbitrary: sv bt)
  case (Cons x rs)
  from handle_packet_ok [OF Cons.prems(1) _ assms(3), of x] Cons.prems(2) obtain sv1 bt1 where
    1: "handle_packet conf sk t now x (sv, bt) = Inr (sv1, bt1)" "mid cs0 (sv1, bt1)"
      "last_pmod sv1 = Some (fst x)" "toadd bt1 = toadd bt" by fastforce
  from Cons.IH [OF 1(2)] Cons.prems(2) obtain sv' bt' where
    2: "fold_res (handle_packet conf sk t now) rs (sv1, bt1) = Inr (sv', bt')" "mid cs0 (sv', bt')"
      "rs \<noteq> [] \<longrightarrow> last_pmod sv' \<noteq> None" "rs = [] \<longrightarrow> sv' = sv1" "toadd bt' = toadd bt1" by auto
  with 1 show ?case by (cases rs) auto
qed simp

lemma handle_event_ok:
  assumes m: "mid cs0 (sv, bt)" and b: "pmod_bound sv" and ev: "event_ok ev"
  shows "\<exists>sv' bt'. handle_event conf ev (sv, bt) = Inr (sv', bt') \<and> mid cs0 (sv', bt') \<and>
    pmod_bound sv' \<and> toadd bt' = toadd bt @ accepted [ev]"
proof (cases ev)
  case (Zpull msgs)
  with m b ev show ?thesis
    by (auto simp: handle_event_def mid_def split: sum.splits)
next
  case (Accept fd addr)
  with m b show ?thesis by (auto simp: handle_event_def mid_def)
next
  case Accept_Fails
  with ev show ?thesis by simp
next
  case (Stray sk)
  with m b show ?thesis by (auto simp: handle_event_def)
next
  case (Client_In sk data t now)
  with ev have now: "valid_datetime now" by simp
  have inv: "clients_inv (s_clients sv)" using m by (simp add: mid_def)
  let ?recv = "clients_recv (cf_tz conf) (cf_pmods conf) sk data (s_clients sv)"
  have gone: ?thesis if g: "?recv = Inr (None, cs)" "clients_inv cs"
    "sessions_of cs = sessions_of (s_clients sv)" for cs
  proof -
    from clients_stop_ok [OF g(2), of sk] obtain cs1 where
      cs1: "clients_stop sk cs = Inr cs1" "clients_inv cs1" "sessions_of cs1 = (sessions_of (s_clients sv))(sk := None)"
      using g(3) by auto
    then have "mid cs0 (sv\<lparr>s_clients := cs1\<rparr>, bt)" "pmod_bound (sv\<lparr>s_clients := cs1\<rparr>)"
      using m b by (auto simp: mid_def fds_sessions pmod_bound_def)
    with g(1) cs1(1) Client_In show ?thesis by (simp add: handle_event_def)
  qed
  show ?thesis
  proof (cases "by_fd (s_clients sv) sk")
    case None
    then show ?thesis by (intro gone [of "s_clients sv"]) (simp_all add: clients_recv_def inv)
  next
    case (Some r)
    obtain res c where c: "client_recv (cf_pmods conf) data (obj (s_clients sv) r) = (res, c)" by fastforce
    show ?thesis
    proof (cases res)
      case None
      with clients_recv_gone [OF inv Some, of "cf_pmods conf" data c "cf_tz conf"] c gone
      show ?thesis by blast
    next
      case res: (Some ps)
      from clients_recv_ok [OF inv Some, of "cf_pmods conf" data ps c "cf_tz conf"] c res obtain rs cs where
        cs: "?recv = Inr (Some rs, cs)" "clients_inv cs" "fds cs \<subseteq> fds (s_clients sv)"
          "\<forall>x \<in> set rs. received_ok x" "ps = [] \<longrightarrow> rs = [] \<and> sessions_of cs = sessions_of (s_clients sv)"
          "map packet_of rs = ps"
        by auto
      have "mid cs0 (sv\<lparr>s_clients := cs\<rparr>, bt)" using m cs by (auto simp: mid_def)
      from handle_packets_ok [OF this cs(4) now, of conf sk t] obtain sv' bt' where
        h: "fold_res (handle_packet conf sk t now) rs (sv\<lparr>s_clients := cs\<rparr>, bt) = Inr (sv', bt')"
          "mid cs0 (sv', bt')" "rs \<noteq> [] \<longrightarrow> last_pmod sv' \<noteq> None"
          "rs = [] \<longrightarrow> sv' = sv\<lparr>s_clients := cs\<rparr>" "toadd bt' = toadd bt" by blast
      have "rs \<noteq> []" if "ps \<noteq> []" using that cs(6) by auto
      with h(3,4) cs(5) b have "pmod_bound sv'" by (cases "ps = []") (auto simp: pmod_bound_def)
      with h cs(1) Client_In show ?thesis by (simp add: handle_event_def)
    qed
  qed
qed

lemma accepted_Cons: "accepted (ev # evs) = accepted [ev] @ accepted evs"
  by (cases ev) simp_all

lemma handle_events_ok:
  assumes "mid cs0 (sv, bt)" and "pmod_bound sv" and "list_all event_ok evs"
  shows "\<exists>sv' bt'. fold_res (handle_event conf) evs (sv, bt) = Inr (sv', bt') \<and> mid cs0 (sv', bt') \<and>
    pmod_bound sv' \<and> toadd bt' = toadd bt @ accepted evs"
  using assms
proof (induction evs arbitrary: sv bt)
  case (Cons ev evs)
  from handle_event_ok [OF Cons.prems(1,2), of ev conf] Cons.prems(3) obtain sv1 bt1 where
    1: "handle_event conf ev (sv, bt) = Inr (sv1, bt1)" "mid cs0 (sv1, bt1)" "pmod_bound sv1"
      "toadd bt1 = toadd bt @ accepted [ev]" by auto
  from Cons.IH [OF 1(2,3)] Cons.prems(3) obtain sv' bt' where
    2: "fold_res (handle_event conf) evs (sv1, bt1) = Inr (sv', bt')" "mid cs0 (sv', bt')"
      "pmod_bound sv'" "toadd bt' = toadd bt1 @ accepted evs" by auto
  with 1 show ?case by (simp add: accepted_Cons [of ev evs])
qed simp

definition same_polling :: "server \<Rightarrow> server \<Rightarrow> bool" where
  "same_polling sv sv' \<longleftrightarrow> s_clients sv' = s_clients sv \<and> pollingfds sv' = pollingfds sv \<and>
     registered sv' = registered sv \<and> last_pmod sv' = last_pmod sv"

lemma send_response_sent:
  assumes inv: "clients_inv (s_clients sv)" and i: "r_imei m = Some i"
    and r: "by_imei (s_clients sv) i = Some r" and pm: "last_pmod sv = Some lp"
  shows "\<exists>pm. c_pmod (obj (s_clients sv) r) = Some pm \<and> pm_own_imei pm i \<and>
    send_response m sv =
      and_then (pm_enframe pm (r_packet m) (Some i)) (\<lambda>b.
      and_then (pm_proto_of_message pm (r_packet m)) (\<lambda>n.
      and_then (bcast_packed \<lparr>b_is_incoming = False, b_proto = n, b_pmod = Some (PMODNAME lp),
          b_imei = Some i, b_when = r_when m, b_peeraddr = None, b_packet = r_packet m\<rparr>) (\<lambda>msg.
      Inr (sv\<lparr>sent := sent sv @ [(c_fd (obj (s_clients sv) r), b)], published := published sv @ [msg]\<rparr>))))"
proof -
  from clients_response_ok [OF inv r i] obtain pm where
    p: "c_pmod (obj (s_clients sv) r) = Some pm" "pm_own_imei pm i"
      "clients_response m (s_clients sv) = and_then (pm_enframe pm (r_packet m) (Some i))
        (\<lambda>b. Inr (Some pm, [(c_fd (obj (s_clients sv) r), b)]))" by blast
  then show ?thesis
    using i pm by (cases "pm_enframe pm (r_packet m) (Some i)") (simp_all add: send_response_def Let_def)
qed

lemma send_response_unsent:
  "r_imei m = None \<or> by_imei (s_clients sv) (the (r_imei m)) = None \<Longrightarrow> send_response m sv = Inr sv"
  by (auto simp: send_response_def clients_response_def Let_def split: option.split)

lemma bound_login:
  assumes "clients_inv (s_clients sv)" and "pmod_bound sv" and "by_imei (s_clients sv) i = Some r"
  shows "\<exists>lp. last_pmod sv = Some lp"
proof -
  have "sessions_of (s_clients sv) (c_fd (obj (s_clients sv) r)) =
      Some (c_addr (obj (s_clients sv) r), Some i)"
    using assms(3) by (simp add: sessions_imei [OF assms(1)])
  with assms(2) show ?thesis by (auto simp: pmod_bound_def)
qed

lemma send_response_ok:
  assumes inv: "clients_inv (s_clients sv)" and b: "pmod_bound sv" and ok: "resp_ok m"
  shows "\<exists>sv'. send_response m sv = Inr sv' \<and> same_polling sv sv'"
proof (cases "r_imei m = None \<or> by_imei (s_clients sv) (the (r_imei m)) = None")
  case True
  then show ?thesis by (simp add: send_response_unsent same_polling_def)
next
  case False
  then obtain i r where i: "r_imei m = Some i" and r: "by_imei (s_clients sv) i = Some r" by auto
  from bound_login [OF inv b r] obtain lp where lp: "last_pmod sv = Some lp" by blast
  from send_response_sent [OF inv i r lp] obtain pm where own: "pm_own_imei pm i" and
    send: "send_response m sv =
      and_then (pm_enframe pm (r_packet m) (Some i)) (\<lambda>b.
      and_then (pm_proto_of_message pm (r_packet m)) (\<lambda>n.
      and_then (bcast_packed \<lparr>b_is_incoming = False, b_proto = n, b_pmod = Some (PMODNAME lp),
          b_imei = Some i, b_when = r_when m, b_peeraddr = None, b_packet = r_packet m\<rparr>) (\<lambda>msg.
      Inr (sv\<lparr>sent := sent sv @ [(c_fd (obj (s_clients sv) r), b)], published := published sv @ [msg]\<rparr>))))"
    by blast
  have "pm_sendable pm (r_packet m)" using ok i own by (cases pm) (simp_all add: resp_ok_def)
  with pm_sendable_returns(1) [OF this own] pm_sendable_returns(2) [OF this] obtain bs n where
    "pm_enframe pm (r_packet m) (Some i) = Inr bs" and
    n: "pm_proto_of_message pm (r_packet m) = Inr n" "encodable_name n" by (auto simp: returns_def)
  moreover obtain msg where "bcast_packed \<lparr>b_is_incoming = False, b_proto = n,
      b_pmod = Some (PMODNAME lp), b_imei = Some i, b_when = r_when m, b_peeraddr = None,
      b_packet = r_packet m\<rparr> = Inr msg"
    using bcast_packed_ok [OF n(2), of "Some i" None False lp "r_when m" "r_packet m"]
      pm_own_imei_text [OF own] by (auto simp: wf_peer_def)
  ultimately show ?thesis by (simp add: send same_polling_def)
qed

lemma send_responses_ok:
  assumes "clients_inv (s_clients sv)" and "pmod_bound sv" and "list_all resp_ok ms"
  shows "\<exists>sv'. fold_res send_response ms sv = Inr sv' \<and> same_polling sv sv'"
  using assms
proof (induction ms arbitrary: sv)
  case (Cons m ms)
  from send_response_ok [OF Cons.prems(1,2), of m] Cons.prems(3) obtain sv1 where
    1: "send_response m sv = Inr sv1" "same_polling sv sv1" by auto
  then have "clients_inv (s_clients sv1)" "pmod_bound sv1"
    using Cons.prems by (simp_all add: same_polling_def pmod_bound_def)
  from Cons.IH [OF this] Cons.prems(3) obtain sv' where
    "fold_res send_response ms sv1 = Inr sv'" "same_polling sv1 sv'" by auto
  with 1 show ?case by (simp add: same_polling_def)
qed (simp add: same_polling_def)

section \<open>The poller follows the connections\<close>

definition add_all :: "(int \<times> peeraddr) list \<Rightarrow> clients \<Rightarrow> clients" where
  "add_all added cs = foldl (\<lambda>cs (fd, addr). clients_add fd addr cs) cs added"

lemma dom_added: "dom (map_of (map (\<lambda>(fd, addr). (fd, (addr, None))) added)) = set (map fst added)"
  by (induction added) (simp_all add: split_beta flip: fun_upd_def)

lemma add_all_ok:
  assumes "clients_inv cs" and "distinct (map fst added)" and "set (map fst added) \<inter> fds cs = {}"
    and "\<forall>(fd, addr) \<in> set added. wf_peer (Some addr)"
  shows "clients_inv (add_all added cs) \<and>
    sessions_of (add_all added cs) = sessions_of cs ++ map_of (map (\<lambda>(fd, addr). (fd, (addr, None))) added)"
  using assms
proof (induction added arbitrary: cs)
  case (Cons x added)
  obtain fd addr where x: "x = (fd, addr)" by (cases x)
  let ?cs = "clients_add fd addr cs"
  have inv: "clients_inv ?cs" using Cons.prems by (intro clients_add_inv) (auto simp: x)
  have s: "sessions_of ?cs = (sessions_of cs)(fd \<mapsto> (addr, None))" by (rule sessions_add [OF Cons.prems(1)])
  have "set (map fst added) \<inter> fds ?cs = {}"
    using Cons.prems by (auto simp: fds_sessions s x)
  from Cons.IH [OF inv _ this] Cons.prems
  have IH: "clients_inv (add_all added ?cs)" "sessions_of (add_all added ?cs) =
      sessions_of ?cs ++ map_of (map (\<lambda>(fd, addr). (fd, (addr, None))) added)" by auto
  let ?new = "map_of (map (\<lambda>(fd, addr). (fd, (addr, None :: pystr option))) added)"
  have "fd \<notin> dom ?new"
    using Cons.prems(2) unfolding dom_added by (simp add: x)
  from map_add_upd_left [OF this, of "sessions_of cs"]
  have "sessions_of ?cs ++ ?new = sessions_of cs ++ (?new(fd \<mapsto> (addr, None)))" by (simp add: s)
  with IH show ?case by (simp add: add_all_def x flip: fun_upd_def)
qed (simp add: add_all_def)

lemma update_polling_ok:
  assumes inv: "clients_inv (s_clients sv)" and sub: "fds (s_clients sv) \<subseteq> P"
    and P: "pollingfds sv = P" "registered sv = P" and b: "pmod_bound sv"
    and added: "distinct (map fst added)" "set (map fst added) \<inter> P = {}"
      "\<forall>(fd, addr) \<in> set added. wf_peer (Some addr)"
  shows "server_inv (update_polling added sv)"
proof -
  let ?cs = "add_all added (s_clients sv)"
  from sub added(2) have "set (map fst added) \<inter> fds (s_clients sv) = {}" by auto
  from add_all_ok [OF inv added(1) this added(3)] have
    cs: "clients_inv ?cs" and s: "sessions_of ?cs = sessions_of (s_clients sv) ++
      map_of (map (\<lambda>(fd, addr). (fd, (addr, None))) added)" by blast+
  have "fds ?cs = fds (s_clients sv) \<union> set (map fst added)"
    unfolding fds_sessions s dom_map_add dom_added by blast
  then have "P - (P - fds (s_clients sv)) \<union> (fds ?cs - P) = fds ?cs" using sub added(2) by auto
  moreover have "pmod_bound (update_polling added sv)"
    using b by (auto simp: pmod_bound_def update_polling_def Let_def s [unfolded add_all_def]
        map_add_Some_iff dest!: map_of_SomeD)
  ultimately show ?thesis
    using cs P by (simp add: server_inv_def update_polling_def Let_def add_all_def)
qed

section \<open>The loop\<close>

lemma accepted_ok: "list_all event_ok evs \<Longrightarrow> \<forall>(fd, addr) \<in> set (accepted evs). wf_peer (Some addr)"
  by (induction evs rule: accepted.induct) auto

lemma iteration_ok:
  assumes inv: "server_inv sv" and evs: "events_ok sv evs"
  shows "\<exists>sv'. iteration conf evs sv = Inr sv' \<and> server_inv sv'"
proof -
  let ?cs = "s_clients sv"
  have "mid ?cs (sv, empty_batch)" "pmod_bound sv" "list_all event_ok evs"
    using inv evs by (simp_all add: mid_def server_inv_def empty_batch_def events_ok_def)
  from handle_events_ok [OF this, of conf] obtain sv1 bt where
    1: "fold_res (handle_event conf) evs (sv, empty_batch) = Inr (sv1, bt)" "mid ?cs (sv1, bt)"
      "pmod_bound sv1" "toadd bt = accepted evs" by (auto simp: empty_batch_def)
  from 1(2) have m: "clients_inv (s_clients sv1)" "list_all resp_ok (tosend bt)"
    "fds (s_clients sv1) \<subseteq> fds ?cs" "pollingfds sv1 = fds ?cs" "registered sv1 = fds ?cs"
    by (simp_all add: mid_def)
  from send_responses_ok [OF m(1) 1(3) m(2)] obtain sv2 where
    2: "fold_res send_response (tosend bt) sv1 = Inr sv2" "same_polling sv1 sv2" by blast
  have "server_inv (update_polling (accepted evs) sv2)"
  proof (rule update_polling_ok)
    show "clients_inv (s_clients sv2)" "fds (s_clients sv2) \<subseteq> fds ?cs" "pollingfds sv2 = fds ?cs"
      "registered sv2 = fds ?cs" "pmod_bound sv2"
      using m 2(2) 1(3) by (simp_all add: same_polling_def pmod_bound_def)
    show "distinct (map fst (accepted evs))" "set (map fst (accepted evs)) \<inter> fds ?cs = {}"
      using evs by (auto simp: events_ok_def)
    show "\<forall>(fd, addr) \<in> set (accepted evs). wf_peer (Some addr)"
      using evs by (intro accepted_ok) (simp add: events_ok_def)
  qed
  with 1 2 show ?thesis by (simp add: iteration_def)
qed

inductive reachable :: "config \<Rightarrow> server \<Rightarrow> bool" for conf where
  start: "reachable conf init_server"
| step: "reachable conf sv \<Longrightarrow> events_ok sv evs \<Longrightarrow> iteration conf evs sv = Inr sv' \<Longrightarrow>
    reachable conf sv'"

lemma reachable_inv: "reachable conf sv \<Longrightarrow> server_inv sv"
proof (induction rule: reachable.induct)
  case (step sv evs sv')
  with iteration_ok [of sv evs conf] show ?case by auto
qed (rule server_inv_init)

section \<open>What an event publishes\<close>

lemma handle_packet_published:
  "handle_packet conf sk t now rcv (sv, bt) = Inr (sv', bt') \<Longrightarrow>
    \<exists>msg. publish_in t rcv = Inr msg \<and> published sv' = published sv @ [msg] \<and> sent sv' = sent sv"
  by (cases rcv) (auto simp: handle_packet_def Let_def res_simps split: option.splits)

lemma handle_packets_published:
  "fold_res (handle_packet conf sk t now) rs (sv, bt) = Inr (sv', bt') \<Longrightarrow>
    \<exists>msgs. map_res (publish_in t) rs = Inr msgs \<and> published sv' = published sv @ msgs \<and> sent sv' = sent sv"
proof (induction rs arbitrary: sv bt)
  case (Cons x rs)
  then obtain sv1 bt1 where 1: "handle_packet conf sk t now x (sv, bt) = Inr (sv1, bt1)"
    "fold_res (handle_packet conf sk t now) rs (sv1, bt1) = Inr (sv', bt')"
    by (auto simp: res_simps)
  from handle_packet_published [OF 1(1)] Cons.IH [OF 1(2)] show ?case by auto
qed simp

lemma handle_event_published:
  assumes inv: "server_inv sv" and now: "valid_datetime now"
    and recv: "clients_recv (cf_tz conf) (cf_pmods conf) sk data (s_clients sv) = Inr (Some rs, cs)"
  shows "\<exists>sv' bt' msgs. handle_event conf (Client_In sk data t now) (sv, empty_batch) = Inr (sv', bt') \<and>
    map_res (publish_in t) rs = Inr msgs \<and> published sv' = published sv @ msgs \<and> sent sv' = sent sv"
proof -
  have "mid (s_clients sv) (sv, empty_batch)" "pmod_bound sv"
    using inv by (simp_all add: mid_def server_inv_def empty_batch_def)
  from handle_event_ok [OF this, of "Client_In sk data t now" conf] now obtain sv' bt' where
    h: "handle_event conf (Client_In sk data t now) (sv, empty_batch) = Inr (sv', bt')" by auto
  with recv have "fold_res (handle_packet conf sk t now) rs (sv\<lparr>s_clients := cs\<rparr>, empty_batch) = Inr (sv', bt')"
    by (simp add: handle_event_def)
  from handle_packets_published [OF this] h show ?thesis by auto
qed

section \<open>The copy of a response\<close>

lemma outgoing_copy:
  assumes inv: "server_inv sv" and i: "r_imei m = Some i" and r: "by_imei (s_clients sv) i = Some r"
    and pm: "c_pmod (obj (s_clients sv) r) = Some pm" and ok: "pm_sendable pm (r_packet m)"
    and n: "pm_proto_of_message pm (r_packet m) = Inr n" "fits16 n"
    and fit: "fits16 i" "i \<noteq> replicate 16 48" and lp: "last_pmod sv = Some lp"
  shows "\<exists>sv' msg b. send_response m sv = Inr sv' \<and> published sv' = published sv @ [msg] \<and>
    bcast_decode msg = Inr b \<and> b_proto b = n \<and> b_imei b = Some i \<and> b_packet b = r_packet m \<and>
    b_pmod b = Some (PMODNAME lp)"
proof -
  from inv have c: "clients_inv (s_clients sv)" by (simp add: server_inv_def)
  from send_response_sent [OF c i r lp] pm have own: "pm_own_imei pm i" and
    send: "send_response m sv =
      and_then (pm_enframe pm (r_packet m) (Some i)) (\<lambda>b.
      and_then (pm_proto_of_message pm (r_packet m)) (\<lambda>n.
      and_then (bcast_packed \<lparr>b_is_incoming = False, b_proto = n, b_pmod = Some (PMODNAME lp),
          b_imei = Some i, b_when = r_when m, b_peeraddr = None, b_packet = r_packet m\<rparr>) (\<lambda>msg.
      Inr (sv\<lparr>sent := sent sv @ [(c_fd (obj (s_clients sv) r), b)], published := published sv @ [msg]\<rparr>))))"
    by auto
  obtain bs where bs: "pm_enframe pm (r_packet m) (Some i) = Inr bs"
    using pm_sendable_returns(1) [OF ok own] by (auto simp: returns_def)
  let ?b = "\<lparr>b_is_incoming = False, b_proto = n, b_pmod = Some (PMODNAME lp),
    b_imei = Some i, b_when = r_when m, b_peeraddr = None, b_packet = r_packet m\<rparr>"
  have "fits16 (PMODNAME lp)" "PMODNAME lp \<noteq> replicate 16 32"
    by (cases lp; simp add: fits16_ascii ascii_def Cons_replicate_eq)+
  with n fit have "wf_bcast ?b" by (simp add: wf_bcast_def wf_opt_def wf_peer_def)
  from bcast.round [OF this] obtain msg where "bcast_packed ?b = Inr msg"
    "bcast_decode msg = Inr (norm_bcast ?b)" by blast
  with bs n send show ?thesis by (simp add: norm_bcast_def)
qed

section \<open>Properties\<close>

definition ex_config :: config where
  "ex_config = \<lparr>cf_pmods = [Zx303, Beesure], cf_hibernate = True, cf_tz = id, cf_repr = (\<lambda>v. u ''?'')\<rparr>"

definition ex_now :: datetime where
  "ex_now = \<lparr>dt_year = 2022, dt_month = 7, dt_day = 1, dt_hour = 12, dt_minute = 0, dt_second = 0\<rparr>"

lemma ex_now_valid: "valid_datetime ex_now"
  by (simp add: ex_now_def valid_datetime_def days_in_month_def)

definition ex_server :: server where
  "ex_server = \<lparr>s_clients = ex_clients, pollingfds = {7, 8}, registered = {7, 8}, last_pmod = Some Zx303,
     published = [], sent = []\<rparr>"

lemma ex_server_inv: "server_inv ex_server"
  using ex_clients_inv
  by (auto simp: server_inv_def ex_server_def pmod_bound_def fds_def ex_clients_def)

text \<open>
  C1: No terminal can stop the collector. From every state it can reach, whatever bytes the
  terminals send, in whatever order the connections come, speak, log in again and go, the next
  iteration of the loop raises nothing and ends in a reachable state. (What is assumed of the
  events: the clock shows a date, \<open>accept\<close> succeeds and gives fresh descriptors, and the other services pull only
  responses that the module of the terminal can frame.)
\<close>

theorem collector_never_stops:
  assumes "reachable conf sv" and "events_ok sv evs"
  shows "\<exists>sv'. iteration conf evs sv = Inr sv' \<and> reachable conf sv'"
  using iteration_ok [OF reachable_inv [OF assms(1)] assms(2), of conf] reachable.step [OF assms] by blast

theorem collector_never_stops_witness:
  "\<exists>sv'. iteration ex_config [Accept 7 ex_addr, Zpull [], Client_In 9 Recv_Error 0 ex_now] init_server = Inr sv' \<and>
    reachable ex_config sv'"
proof (rule collector_never_stops)
  show "reachable ex_config init_server" by (rule reachable.start)
  show "events_ok init_server [Accept 7 ex_addr, Zpull [], Client_In 9 Recv_Error 0 ex_now]"
    by (simp add: events_ok_def ex_now_valid wf_peer_def ex_addr_def init_server_def fds_def no_clients_def)
qed

text \<open>
  C8: Between iterations the poller watches exactly the served descriptors, the dictionaries and
  objects agree, no IMEI has two sessions, and once a terminal has logged in the loop
  variable that the sending part reads is bound.
\<close>

theorem collector_invariant:
  assumes "reachable conf sv"
  shows "registered sv = fds (s_clients sv) \<and> pollingfds sv = registered sv \<and> clients_inv (s_clients sv) \<and>
    (\<forall>fd fd' a a' i. sessions_of (s_clients sv) fd = Some (a, Some i) \<longrightarrow>
       sessions_of (s_clients sv) fd' = Some (a', Some i) \<longrightarrow> fd' = fd \<and> last_pmod sv \<noteq> None)"
proof -
  have inv: "server_inv sv" by (rule reachable_inv [OF assms])
  then have c: "clients_inv (s_clients sv)" "pmod_bound sv" by (simp_all add: server_inv_def)
  have "fd' = fd \<and> last_pmod sv \<noteq> None" if "sessions_of (s_clients sv) fd = Some (a, Some i)"
    "sessions_of (s_clients sv) fd' = Some (a', Some i)" for fd fd' a a' i
    using that c(2) unfolding sessions_imei [OF c(1)] pmod_bound_def by auto
  with inv show ?thesis by (auto simp: server_inv_def)
qed

theorem collector_invariant_witness:
  "\<exists>sv. iteration ex_config [Accept 7 ex_addr] init_server = Inr sv \<and> registered sv = {7} \<and>
    fds (s_clients sv) = {7} \<and> pollingfds sv = {7} \<and> clients_inv (s_clients sv)"
proof -
  have e: "events_ok init_server [Accept 7 ex_addr]"
    by (simp add: events_ok_def wf_peer_def ex_addr_def init_server_def fds_def no_clients_def)
  obtain sv where sv: "iteration ex_config [Accept 7 ex_addr] init_server = Inr sv" "fds (s_clients sv) = {7}"
    by (simp add: iteration_def handle_event_def empty_batch_def update_polling_def Let_def clients_add_def
        init_server_def no_clients_def fds_def)
  from collector_invariant [OF reachable.step [OF reachable.start e sv(1)]] sv show ?thesis by simp
qed

text \<open>
  C15: Every packet that a terminal sends is published, once and in order: an event with data
  adds to what is published exactly one broadcast for each packet received, whatever else
  the packet causes (a reply, the end of the connection), and sends nothing by itself.
\<close>

theorem packets_published:
  assumes inv: "server_inv sv" and now: "valid_datetime now"
    and recv: "clients_recv (cf_tz conf) (cf_pmods conf) sk data (s_clients sv) = Inr (Some rs, cs)"
  shows "\<exists>sv' bt' msgs. handle_event conf (Client_In sk data t now) (sv, empty_batch) = Inr (sv', bt') \<and>
    map_res (publish_in t) rs = Inr msgs \<and> published sv' = published sv @ msgs \<and> sent sv' = sent sv"
  using assms by (rule handle_event_published)

theorem packets_published_witness:
  "\<exists>sv' bt' msgs rs. handle_event ex_config (Client_In 8 (Recv_Bytes ex_packet) 0 ex_now) (ex_server, empty_batch) =
      Inr (sv', bt') \<and> map packet_of rs = [ex_packet] \<and>
    map_res (publish_in 0) rs = Inr msgs \<and> published sv' = msgs"
proof -
  obtain c where c: "client_recv [Zx303, Beesure] (Recv_Bytes ex_packet) (new_client 8 ex_addr) =
      (Some [ex_packet], c)" using ex_recv by blast
  have fd: "by_fd ex_clients 8 = Some 1" "obj ex_clients 1 = new_client 8 ex_addr"
    by (simp_all add: ex_clients_def)
  from clients_recv_ok [OF ex_clients_inv fd(1) c [folded fd(2)], of id] obtain rs cs where
    rs: "clients_recv (cf_tz ex_config) (cf_pmods ex_config) 8 (Recv_Bytes ex_packet) (s_clients ex_server) =
      Inr (Some rs, cs)" "map packet_of rs = [ex_packet]" by (auto simp: ex_config_def ex_server_def)
  have "published ex_server = []" by (simp add: ex_server_def)
  with packets_published [OF ex_server_inv ex_now_valid rs(1), of 0] obtain sv' bt' msgs where
    "handle_event ex_config (Client_In 8 (Recv_Bytes ex_packet) 0 ex_now) (ex_server, empty_batch) = Inr (sv', bt')"
    "map_res (publish_in 0) rs = Inr msgs" "published sv' = msgs" by auto
  with rs(2) show ?thesis by (intro exI conjI)
qed

text \<open>
  The copy of a response that is published names the wrong module: \<open>b_pmod\<close> is the module of
  the last packet received from any terminal, not the one of the terminal that the response is sent
  to, whose packet it holds.
\<close>

theorem outgoing_copy_module:
  assumes inv: "server_inv sv" and i: "r_imei m = Some i" and r: "by_imei (s_clients sv) i = Some r"
    and pm: "c_pmod (obj (s_clients sv) r) = Some pm" and ok: "pm_sendable pm (r_packet m)"
    and n: "pm_proto_of_message pm (r_packet m) = Inr n" "fits16 n"
    and fit: "fits16 i" "i \<noteq> replicate 16 48" and lp: "last_pmod sv = Some lp"
  shows "\<exists>sv' msg b. send_response m sv = Inr sv' \<and> published sv' = published sv @ [msg] \<and>
    bcast_decode msg = Inr b \<and> b_proto b = n \<and> b_imei b = Some i \<and> b_packet b = r_packet m \<and>
    b_pmod b = Some (PMODNAME lp)"
  by (rule outgoing_copy [OF assms])

theorem outgoing_copy_module_witness:
  "\<exists>sv' msg b. send_response \<lparr>r_imei = Some ex_imei, r_when = None, r_packet = ex_packet\<rparr> ex_server = Inr sv' \<and>
    published sv' = [msg] \<and> bcast_decode msg = Inr b \<and> b_proto b = u ''BS:LK'' \<and>
    b_pmod b = Some (u ''zx303proto'')"
proof -
  let ?m = "\<lparr>r_imei = Some ex_imei, r_when = None, r_packet = ex_packet\<rparr>"
  have "by_imei (s_clients ex_server) ex_imei = Some 0"
    "c_pmod (obj (s_clients ex_server) 0) = Some Beesure" "last_pmod ex_server = Some Zx303"
    "published ex_server = []"
    by (simp_all add: ex_server_def ex_clients_def)
  moreover have "pm_sendable Beesure (r_packet ?m)" using ex_packet_wf by (simp add: bs_wf_def)
  moreover have "pm_proto_of_message Beesure (r_packet ?m) = Inr (u ''BS:LK'')"
    by (simp add: ex_packet_def bs_proto_of_message_def bs_local_proto_def bs_data_def
        utf8_decode_ascii_bytes BS_PREFIX_def)
  moreover have "fits16 (u ''BS:LK'')" "fits16 ex_imei" "ex_imei \<noteq> replicate 16 48"
    by (simp_all add: fits16_ascii ascii_def ex_imei_def Cons_replicate_eq)
  ultimately show ?thesis
    using outgoing_copy_module [OF ex_server_inv, of ?m ex_imei 0 Beesure "u ''BS:LK''" Zx303] by auto
qed

lemma unframable_response:
  assumes inv: "server_inv sv" and m: "resp_decode msg = Inr m" "r_imei m = Some i"
    and s: "sessions_of (s_clients sv) fd = Some (a, Some i)"
    and own: "pm_own_imei pm i" and e: "pm_enframe pm (r_packet m) (Some i) = Inl e"
  shows "iteration conf [Zpull [msg]] sv = Inl e"
proof -
  from inv have c: "clients_inv (s_clients sv)" "pmod_bound sv" by (simp_all add: server_inv_def)
  from s obtain r where r: "by_imei (s_clients sv) i = Some r" unfolding sessions_imei [OF c(1)] by blast
  from bound_login [OF c r] obtain lp where "last_pmod sv = Some lp" by blast
  from send_response_sent [OF c(1) m(2) r this] obtain q where q: "pm_own_imei q i"
    and send: "send_response m sv =
      and_then (pm_enframe q (r_packet m) (Some i)) (\<lambda>b.
      and_then (pm_proto_of_message q (r_packet m)) (\<lambda>n.
      and_then (bcast_packed \<lparr>b_is_incoming = False, b_proto = n, b_pmod = Some (PMODNAME lp),
          b_imei = Some i, b_when = r_when m, b_peeraddr = None, b_packet = r_packet m\<rparr>) (\<lambda>msg.
      Inr (sv\<lparr>sent := sent sv @ [(c_fd (obj (s_clients sv) r), b)], published := published sv @ [msg]\<rparr>))))"
    by blast
  from pm_own_imei_unique [OF q own] e send have "send_response m sv = Inl e" by simp
  with m(1) show "iteration conf [Zpull [msg]] sv = Inl e"
    by (simp add: iteration_def handle_event_def empty_batch_def)
qed

text \<open>
  The pull socket is trusted. A message too short to be a response, or a response to a
  connected terminal that its module cannot frame, raises out of the loop, which ends the
  service for all terminals: only errors of the socket are caught when sending.
\<close>

theorem bad_response_stops_collector:
  assumes inv: "server_inv sv"
  shows "(length msg < 24 \<longrightarrow> iteration conf [Zpull [msg]] sv = Inl StructError) \<and>
    (resp_decode msg = Inr m \<longrightarrow> r_imei m = Some i \<longrightarrow> sessions_of (s_clients sv) fd = Some (a, Some i) \<longrightarrow>
      pm_own_imei pm i \<longrightarrow> pm_enframe pm (r_packet m) (Some i) = Inl e \<longrightarrow>
      iteration conf [Zpull [msg]] sv = Inl e)"
proof (intro conjI impI)
  assume "length msg < 24"
  then have "resp_decode msg = Inl StructError" by (simp add: resp_decode_def)
  then show "iteration conf [Zpull [msg]] sv = Inl StructError"
    by (simp add: iteration_def handle_event_def)
qed (use unframable_response [OF inv] in blast)

theorem bad_response_stops_collector_witness:
  "iteration ex_config [Zpull [b8 ''1234567890'']] ex_server = Inl StructError"
  using bad_response_stops_collector [OF ex_server_inv, of "b8 ''1234567890''" ex_config] by simp

end
