(* ===== verification/Published.thy ===== *)
theory Published
  imports Collector
begin

text \<open>
  What the services that subscribe to the collector get: a broadcast of a packet decodes
  to the packet, its name and the IMEI; and what a response must be for the collector to
  take it.
\<close>

text \<open>The IMEI that arrives: sixteen zeros stand for none.\<close>

definition wire_imei :: "pystr option \<Rightarrow> pystr option" where
  "wire_imei imei = (if imei = Some (replicate 16 48) then None else imei)"

lemma zx_own_fits: "zx_own_imei i \<Longrightarrow> fits16 i"
  by (rule fits16_ascii) (auto simp: zx_own_imei_def ascii_def)

lemma own_imei_fits: "pm_own_imei pm i \<Longrightarrow> fits16 i"
  by (cases pm) (auto simp: zx_own_fits imei_digits_def list_all_iff intro!: fits16_ascii [unfolded ascii_def])

lemma wire_imei_wf: "(\<And>i. imei = Some i \<Longrightarrow> fits16 i) \<Longrightarrow> wf_opt (replicate 16 48) (wire_imei imei)"
  by (cases imei) (auto simp: wf_opt_def wire_imei_def)

lemma opt_field_wire: "opt_field NO_IMEI (wire_imei imei) = opt_field NO_IMEI imei"
  using no_values(1) by (auto simp: opt_field_def wire_imei_def)

lemma zx_name_fits: "fits16 (zx_proto_name c)"
  by (rule fits16_ascii) (use zx_name_ascii in \<open>auto simp: zx_proto_name_def ZX_PREFIX_def\<close>, (cases c; simp)+)

lemma PMODNAME_fits: "fits16 (PMODNAME pm) \<and> PMODNAME pm \<noteq> replicate 16 32"
  by (cases pm; simp add: fits16_ascii ascii_def Cons_replicate_eq)

lemma zx_name_cases: "zx_proto_of_message p = Inr n \<Longrightarrow> \<exists>c. n = zx_proto_name c"
  by (auto simp: zx_proto_of_message_def res_simps)

text \<open>What is broadcast of a packet, and what subscribers read\<close>

definition pm_bcast :: "pmod \<Rightarrow> pystr \<Rightarrow> pystr option \<Rightarrow> 64 word \<Rightarrow> peeraddr \<Rightarrow> bytes \<Rightarrow> bcast" where
  "pm_bcast pm n imei t peer p = \<lparr>b_is_incoming = True, b_proto = n, b_pmod = Some (PMODNAME pm),
     b_imei = wire_imei imei, b_when = Some t, b_peeraddr = Some (norm_peer (Some peer)), b_packet = p\<rparr>"

abbreviation zx_bcast :: "pystr \<Rightarrow> pystr option \<Rightarrow> 64 word \<Rightarrow> peeraddr \<Rightarrow> bytes \<Rightarrow> bcast" where
  "zx_bcast \<equiv> pm_bcast Zx303"

lemma pm_bcast_simps [simp]:
  "b_is_incoming (pm_bcast pm n imei t peer p)" "b_proto (pm_bcast pm n imei t peer p) = n"
  "b_packet (pm_bcast pm n imei t peer p) = p" "b_when (pm_bcast pm n imei t peer p) = Some t"
  "b_imei (pm_bcast pm n imei t peer p) = wire_imei imei"
  by (simp_all add: pm_bcast_def)

lemma received_own: "received_ok (pm, imei, peer, p) \<Longrightarrow> imei = Some i \<Longrightarrow> pm_own_imei pm i"
  by (auto simp: received_ok_def)

lemma pm_broadcast_packed:
  assumes r: "received_ok (pm, imei, peer, p)" and msg: "publish_in t (pm, imei, peer, p) = Inr msg"
    and n: "pm_proto_of_message pm p = Inr n" "fits16 n"
  shows "\<exists>m. wf_bcast m \<and> bcast_packed m = Inr msg \<and> b_is_incoming m \<and> b_proto m = n \<and>
    norm_bcast m = pm_bcast pm n imei t peer p"
proof -
  let ?m = "\<lambda>i. \<lparr>b_is_incoming = True, b_proto = n, b_pmod = Some (PMODNAME pm),
    b_imei = i, b_when = Some t, b_peeraddr = Some peer, b_packet = p\<rparr>"
  have peer: "wf_peer (Some peer)" using r by (auto simp: received_ok_def)
  have "wf_bcast (?m (wire_imei imei))"
    using wire_imei_wf [OF own_imei_fits [OF received_own [OF r]]] n(2) peer PMODNAME_fits [of pm]
    by (simp add: wf_bcast_def wf_opt_def)
  moreover have "bcast_packed (?m (wire_imei imei)) = bcast_packed (?m imei)"
    by (simp add: bcast_packed_def opt_field_wire)
  moreover have "bcast_packed (?m imei) = Inr msg" using msg n by (simp add: publish_in_def)
  moreover have "norm_bcast (?m (wire_imei imei)) = pm_bcast pm n imei t peer p"
    by (simp add: norm_bcast_def when_bits_def pm_bcast_def)
  ultimately show ?thesis by (intro exI [of _ "?m (wire_imei imei)"]) simp
qed

lemma pm_broadcast:
  assumes "received_ok (pm, imei, peer, p)" and "publish_in t (pm, imei, peer, p) = Inr msg"
    and "pm_proto_of_message pm p = Inr n" "fits16 n"
  shows "bcast_decode msg = Inr (pm_bcast pm n imei t peer p)"
proof -
  obtain m where "wf_bcast m" "bcast_packed m = Inr msg" "norm_bcast m = pm_bcast pm n imei t peer p"
    using pm_broadcast_packed [OF assms] by blast
  with bcast.round [OF this(1)] show ?thesis by simp
qed

lemma zx_broadcast_packed:
  assumes "received_ok (Zx303, imei, peer, p)" and "publish_in t (Zx303, imei, peer, p) = Inr msg"
    and "zx_proto_of_message p = Inr n"
  shows "\<exists>m. wf_bcast m \<and> bcast_packed m = Inr msg \<and> b_is_incoming m \<and> b_proto m = n \<and>
    norm_bcast m = zx_bcast n imei t peer p"
  using pm_broadcast_packed [OF assms(1,2)] assms(3) zx_name_cases [OF assms(3)] zx_name_fits by auto

lemma zx_broadcast:
  assumes "received_ok (Zx303, imei, peer, p)" and "publish_in t (Zx303, imei, peer, p) = Inr msg"
    and "zx_proto_of_message p = Inr n"
  shows "bcast_decode msg = Inr (zx_bcast n imei t peer p)"
  using pm_broadcast [OF assms(1,2)] assms(3) zx_name_cases [OF assms(3)] zx_name_fits by auto

text \<open>A response to a zx303 terminal\<close>

lemma zx_response_ok:
  assumes "resp_packed \<lparr>r_imei = wire_imei imei, r_when = Some t, r_packet = packet\<rparr> = Inr b"
    and own: "\<And>i. imei = Some i \<Longrightarrow> zx_own_imei i" and "2 \<le> length packet"
  shows "\<exists>m. resp_decode b = Inr m \<and> resp_ok m \<and> r_imei m = imei \<and> r_packet m = packet"
proof -
  from assms(1) obtain i where i: "wire_imei imei = Some i" by (auto simp: resp_packed_def split: option.splits)
  then have im: "imei = Some i" by (auto simp: wire_imei_def split: if_splits)
  have "wf_resp \<lparr>r_imei = wire_imei imei, r_when = Some t, r_packet = packet\<rparr>"
    using i wire_imei_wf [of imei, OF zx_own_fits [OF own]] by (simp add: wf_resp_def)
  from resp.round [OF this] assms(1) i have
    d: "resp_decode b = Inr \<lparr>r_imei = Some i, r_when = Some t, r_packet = packet\<rparr>"
    by (simp add: norm_resp_def when_bits_def)
  have "pm_own_imei Zx303 i" "pm_sendable Zx303 packet" using own im assms(3) by (simp_all add: zx_good_def)
  from sendable_resp_ok [OF this] d im show ?thesis by simp
qed

lemma zx_Out_packed_good: "zx_Out_packed rep now c kwargs = Inr p \<Longrightarrow> 2 \<le> length p"
  by (auto simp: zx_Out_packed_def res_simps zx_packed_Inr Let_def)

lemma pmod_for_name:
  assumes "pm_proto_of_message pm p = Inr n" and "pm \<in> set pmods"
  shows "pmod_for_proto pmods n = Some pm"
  using assms(2) pm_name_handled [OF assms(1)] by (induction pmods) (auto simp: pmod_for_proto_def)

lemma pmod_for_zx_name: "zx_proto_of_message p = Inr n \<Longrightarrow> Zx303 \<in> set pmods \<Longrightarrow> pmod_for_proto pmods n = Some Zx303"
  by (rule pmod_for_name) simp_all

section \<open>Examples\<close>

lemma zx_recv_one:
  assumes "zx_framable p" and "length p \<le> 255"
  shows "zx_recv zx_Stream (XX @ p @ CRLF) = ([Packet p], zx_Stream)"
proof -
  have "zx_recv zx_Stream (XX @ p @ CRLF) = zx_loop (zx_Stream\<lparr>zx_buffer := concat (map (\<lambda>p. XX @ p @ CRLF) [p])\<rparr>)"
    using assms(2) by (simp add: zx_recv_def zx_Stream_def ZX_MAXBUFFER_def)
  also have "\<dots> = (map Packet [p], zx_Stream\<lparr>zx_buffer := []\<rparr>)"
    by (rule zx_loop_framed) (simp add: assms(1))
  finally show ?thesis by (simp add: zx_Stream_def)
qed

lemma zx_received:
  assumes "zx_framable p" and "length p \<le> 255" and "wf_peer (Some peer)"
    and "\<And>i. imei = Some i \<Longrightarrow> zx_own_imei i"
  shows "received_ok (Zx303, imei, peer, p)"
proof -
  have "p \<in> set (packets (fst (pm_recv (Zx_Stream zx_Stream) (XX @ p @ CRLF))))"
    using zx_recv_one [OF assms(1,2)] by simp
  then show ?thesis using assms(3,4) unfolding received_ok_def by fastforce
qed

lemma zx_published:
  assumes "received_ok (Zx303, imei, peer, p)" and "2 \<le> length p"
  shows "\<exists>msg. publish_in t (Zx303, imei, peer, p) = Inr msg"
proof -
  obtain n where n: "zx_proto_of_message p = Inr n" "encodable_name n"
    using zxm.proto_returns [of p] assms(2) by (auto simp: zx_good_def)
  have "wf_peer (Some peer)" "\<And>i. imei = Some i \<Longrightarrow> ascii i"
    using assms(1) by (auto simp: received_ok_def zx_own_imei_def ascii_def)
  from bcast_packed_ok [OF n(2) this(2,1), of imei True Zx303 "Some t" p] n(1) show ?thesis
    by (auto simp: publish_in_def)
qed

definition ex_zx_imei :: pystr where
  "ex_zx_imei = u ''0355488020930000''"

lemma ex_zx_imei_own: "zx_own_imei ex_zx_imei"
  by (simp add: zx_own_imei_def ex_zx_imei_def)

lemma ex_addr_wf: "wf_peer (Some ex_addr)"
  by (simp add: wf_peer_def ex_addr_def)

text \<open>A STATUS message cut short, and a WiFi message with neither cells nor access points\<close>

definition ex_bad_status :: bytes where
  "ex_bad_status = [3, 0x13, 80]"

definition ex_wifi :: bytes where
  "ex_wifi = [0, 0x69, 0, 0, 0, 0, 0, 0, 0, 1, 6, 2]"

lemma ex_framable: "zx_framable ex_bad_status" "zx_framable ex_wifi"
  by (simp_all add: zx_framable_def ex_bad_status_def ex_wifi_def All_less_Suc)

lemma ex_names: "zx_proto_of_message ex_bad_status = Inr (zx_proto_name STATUS)"
  "zx_proto_of_message ex_wifi = Inr (zx_proto_name WIFI_POSITIONING)"
proof -
  have "zx_CLASSES 0x13 = Some STATUS" "zx_CLASSES 0x69 = Some WIFI_POSITIONING" by (simp_all add: zx_CLASSES_PROTO)
  then show "zx_proto_of_message ex_bad_status = Inr (zx_proto_name STATUS)"
    "zx_proto_of_message ex_wifi = Inr (zx_proto_name WIFI_POSITIONING)"
    by (simp_all add: zx_proto_of_message_def pyget_def ex_bad_status_def ex_wifi_def)
qed

lemma ex_bad_status_parse: "zx_parse_message tz ex_bad_status In = Inr (zx_unknown In 3 [80] 0x13 DecodeError)"
proof -
  have "zx_CLASSES 0x13 = Some STATUS" by (simp add: zx_CLASSES_PROTO)
  then show ?thesis by (simp add: ex_bad_status_def zx_parse_two zx_decode_def status_in_decode_def)
qed

lemma ex_wifi_parse: "\<exists>m w. zx_parse_message tz ex_wifi In = Inr m \<and> zo_class m = WIFI_POSITIONING \<and>
    zo_body m = Wifi_Body w \<and> zo_cause m = None"
proof -
  have "zx_CLASSES 0x69 = Some WIFI_POSITIONING" by (simp add: zx_CLASSES_PROTO)
  then show ?thesis
    by (simp add: ex_wifi_def zx_parse_two zx_decode_def wifi_in_decode_def wifi_devtime_def NUL6_def
        Cons_replicate_eq pyslice_def)
qed

end
