(* ===== verification/Json.thy ===== *)
theory Json
  imports Reports
begin

text \<open>
  JSON as the services use it: the objects that reports become (\<open>Report.json\<close> of
  \<open>loctrkd/common.py\<close>), and what is asked of \<open>json.dumps\<close> and \<open>json.loads\<close>, which are parameters of
  the model: their text contains the \<open>repr\<close> of floats.
\<close>

text \<open>What \<open>loads\<close> returns: an object, or some other value\<close>

datatype json = JObject attrs | JOther pyval

definition opt_int :: "int option \<Rightarrow> pyval" where
  "opt_int v = (case v of None \<Rightarrow> VNone | Some i \<Rightarrow> VInt i)"

text \<open>\<open>self.type = self.TYPE; dumps(self.__dict__)\<close>: the attributes in the order they were set\<close>

fun report_json :: "report \<Rightarrow> attrs" where
  "report_json (CoordReport r) =
     [(u ''devtime'', VStr (cr_devtime r)), (u ''battery_percentage'', opt_int (cr_battery_percentage r)),
      (u ''accuracy'', cr_accuracy r), (u ''altitude'', cr_altitude r), (u ''speed'', cr_speed r),
      (u ''direction'', cr_direction r), (u ''latitude'', VFloat (cr_latitude r)),
      (u ''longitude'', VFloat (cr_longitude r)), (u ''type'', VStr (u ''location''))]"
| "report_json (HintReport r) =
     [(u ''devtime'', VStr (hr_devtime r)), (u ''battery_percentage'', opt_int (hr_battery_percentage r)),
      (u ''mcc'', VInt (hr_mcc r)), (u ''mnc'', VInt (hr_mnc r)),
      (u ''gsm_cells'', VList (map (\<lambda>c. VTup (map VInt c)) (hr_gsm_cells r))),
      (u ''wifi_aps'', VList (map (\<lambda>(n, m, s). VTup [VStr n, VStr m, VInt s]) (hr_wifi_aps r))),
      (u ''type'', VStr (u ''approximate_location''))]"
| "report_json (StatusReport r) =
     [(u ''battery_percentage'', VInt (sr_battery_percentage r)), (u ''type'', VStr (u ''status''))]"

lemma report_json_type: "map_of (report_json r) (u ''type'') = Some (VStr (report_TYPE r))"
  by (cases r) simp_all

text \<open>\<open>d.pop(k)\<close> of a dictionary, and \<open>d[k] = v\<close> is \<open>AList.update\<close>\<close>

definition without :: "pystr \<Rightarrow> attrs \<Rightarrow> attrs" where
  "without k d = filter (\<lambda>(k', v). k' \<noteq> k) d"

lemma map_of_without: "map_of (without k d) k' = (if k' = k then None else map_of d k')"
  by (induction d) (auto simp: without_def)

end
