(* ===== verification/Rectifier.thy ===== *)
theory Rectifier
  imports Published Json
begin

text \<open>
  The rectifier (\<open>loctrkd/rectifier.py\<close>): one round of its loop, from a broadcast of the collector
  to what it publishes for the other services and pushes to the collector. The backend that looks
  positions up is a parameter, as are the standard library's JSON encoder and clock.
\<close>

section \<open>Messages of either module\<close>

fun pm_rectified :: "pobj \<Rightarrow> report res" where
  "pm_rectified (Zx_Obj m) = zx_rectified m"
| "pm_rectified (Bs_Obj m) = bs_rectified m"

text \<open>\<open>msg.Out(latitude=lat, longitude=lon).packed\<close>\<close>

fun pm_Out_packed :: "(pyval \<Rightarrow> pystr) \<Rightarrow> datetime \<Rightarrow> pobj \<Rightarrow> attrs \<Rightarrow> bytes res" where
  "pm_Out_packed rep now (Zx_Obj m) kwargs = zx_Out_packed rep now (zo_class m) kwargs"
| "pm_Out_packed rep now (Bs_Obj m) kwargs = bs_Out_packed rep (bo_class m) kwargs"

section \<open>One round\<close>

text \<open>\<open>'b\<close> is the state of the backend, which a lookup may change.\<close>

type_synonym 'b lookup = "int \<Rightarrow> int \<Rightarrow> int list list \<Rightarrow> (pystr \<times> int) list \<Rightarrow> 'b \<Rightarrow> (pyfloat \<times> pyfloat \<times> pyval) res \<times> 'b"

record 'b rect_env =
  re_pmods :: "pmod list"
  re_lookup :: "'b lookup"
  re_dumps :: "attrs \<Rightarrow> pystr"
  re_fromtimestamp :: "64 word option \<Rightarrow> unit res"
  re_tz :: "datetime \<Rightarrow> datetime"
  re_repr :: "pyval \<Rightarrow> pystr"
  re_now :: datetime

datatype action = Publish bytes | Push bytes

definition proto_needanswer :: "'b rect_env \<Rightarrow> pystr \<Rightarrow> bool" where
  "proto_needanswer env proto =
     (case map_of (rev (common_exposed_protos (re_pmods env))) proto of Some b \<Rightarrow> b | None \<Rightarrow> False)"

text \<open>What it subscribes to: each key of the dictionary once, where it came first\<close>

definition rectifier_topics :: "'b rect_env \<Rightarrow> bytes list res" where
  "rectifier_topics env =
     map_res (\<lambda>proto. topic proto True None)
       (rev (remdups (rev (map fst (common_exposed_protos (re_pmods env))))))"

definition publish_report :: "'b rect_env \<Rightarrow> pystr option \<Rightarrow> report \<Rightarrow> bytes res" where
  "publish_report env imei r = rept_packed \<lparr>p_imei = imei, p_payload = re_dumps env (report_json r)\<rparr>"

definition answer :: "'b rect_env \<Rightarrow> bcast \<Rightarrow> pobj \<Rightarrow> pyfloat \<Rightarrow> pyfloat \<Rightarrow> action list res" where
  "answer env z m lat lon =
     (if proto_needanswer env (b_proto z) then
        and_then (pm_Out_packed (re_repr env) (re_now env) m
            [(u ''latitude'', VFloat lat), (u ''longitude'', VFloat lon)]) (\<lambda>packet.
        and_then (resp_packed \<lparr>r_imei = b_imei z, r_when = b_when z, r_packet = packet\<rparr>) (\<lambda>b.
          Inr [Push b]))
      else Inr [])"

text \<open>The branch of a hint is inside a \<open>try\<close>: what was done before an exception stays done.\<close>

definition position_report :: "hint_report \<Rightarrow> pyfloat \<Rightarrow> pyfloat \<Rightarrow> pyval \<Rightarrow> report" where
  "position_report h lat lon acc = CoordReport
     \<lparr>cr_devtime = hr_devtime h, cr_battery_percentage = hr_battery_percentage h,
      cr_accuracy = acc, cr_altitude = VNone, cr_speed = VNone, cr_direction = VNone,
      cr_latitude = lat, cr_longitude = lon\<rparr>"

definition position_actions ::
  "'b rect_env \<Rightarrow> bcast \<Rightarrow> pobj \<Rightarrow> hint_report \<Rightarrow> pyfloat \<Rightarrow> pyfloat \<Rightarrow> pyval \<Rightarrow> action list" where
  "position_actions env z m h lat lon acc =
     (case answer env z m lat lon of
        Inl e \<Rightarrow> []
      | Inr acts \<Rightarrow>
          (case publish_report env (b_imei z) (position_report h lat lon acc) of
             Inl e \<Rightarrow> acts
           | Inr b \<Rightarrow> acts @ [Publish b]))"

definition answer_hint :: "'b rect_env \<Rightarrow> bcast \<Rightarrow> pobj \<Rightarrow> hint_report \<Rightarrow> 'b \<Rightarrow> action list \<times> 'b" where
  "answer_hint env z m h s =
     (case re_lookup env (hr_mcc h) (hr_mnc h) (hr_gsm_cells h)
           (map (\<lambda>(_, mac, strng). (mac, strng)) (hr_wifi_aps h)) s of
        (Inl e, s') \<Rightarrow> ([], s')
      | (Inr (lat, lon, acc), s') \<Rightarrow> (position_actions env z m h lat lon acc, s'))"

definition rectified_of :: "'b rect_env \<Rightarrow> bytes \<Rightarrow> (bcast \<times> pobj \<times> report) res" where
  "rectified_of env msg =
     and_then (bcast_decode msg) (\<lambda>z.
     and_then (common_parse_message (re_tz env) (re_pmods env) (b_proto z) (b_packet z)
         (if b_is_incoming z then In else Out)) (\<lambda>m.
     and_then (re_fromtimestamp env (b_when z)) (\<lambda>_.
       case m of
         None \<Rightarrow> Inl AttributeError
       | Some mobj \<Rightarrow> and_then (pm_rectified mobj) (\<lambda>rect. Inr (z, mobj, rect)))))"

definition rectify :: "'b rect_env \<Rightarrow> bytes \<Rightarrow> 'b \<Rightarrow> (action list \<times> 'b) res" where
  "rectify env msg s =
     and_then (rectified_of env msg) (\<lambda>(z, mobj, rect).
       case rect of
         HintReport h \<Rightarrow> Inr (answer_hint env z mobj h s)
       | _ \<Rightarrow> and_then (publish_report env (b_imei z) rect) (\<lambda>b. Inr ([Publish b], s)))"

text \<open>
  The loop over messages, each with the time at which it is handled: what is sent, the state of the
  backend, and what was raised in the end.
\<close>

fun rectifier_loop ::
  "'b rect_env \<Rightarrow> (datetime \<times> bytes) list \<Rightarrow> 'b \<Rightarrow> action list \<times> 'b \<times> py_exn option" where
  "rectifier_loop env [] s = ([], s, None)"
| "rectifier_loop env ((now, msg) # msgs) s =
     (case rectify (env\<lparr>re_now := now\<rparr>) msg s of
        Inl e \<Rightarrow> ([], s, Some e)
      | Inr (acts, s') \<Rightarrow> (case rectifier_loop env msgs s' of (acts', r) \<Rightarrow> (acts @ acts', r)))"

section \<open>On a broadcast of the collector\<close>

lemma rectify_pm:
  assumes "received_ok (pm, imei, peer, p)" and "publish_in t (pm, imei, peer, p) = Inr msg"
    and "pm_proto_of_message pm p = Inr n" and "fits16 n" and "pm \<in> set (re_pmods env)"
    and "re_fromtimestamp env (Some t) = Inr ()"
  shows "rectify env msg s = and_then (pm_parse_message (re_tz env) pm p In) (\<lambda>m. and_then (pm_rectified m) (\<lambda>r.
    case r of HintReport h \<Rightarrow> Inr (answer_hint env (pm_bcast pm n imei t peer p) m h s)
    | _ \<Rightarrow> and_then (publish_report env (wire_imei imei) r) (\<lambda>b. Inr ([Publish b], s))))"
proof (cases "pm_parse_message (re_tz env) pm p In")
  case (Inr m)
  with assms(6) pm_broadcast [OF assms(1-4)] pmod_for_name [OF assms(3,5)] show ?thesis
    by (cases "pm_rectified m") (simp_all add: rectify_def rectified_of_def common_parse_message_def cong: report.case_cong)
next
  case (Inl e)
  with pm_broadcast [OF assms(1-4)] pmod_for_name [OF assms(3,5)] show ?thesis
    by (simp add: rectify_def rectified_of_def common_parse_message_def)
qed

lemma rectify_zx:
  assumes "received_ok (Zx303, imei, peer, p)" and "publish_in t (Zx303, imei, peer, p) = Inr msg"
    and "zx_proto_of_message p = Inr n" and "Zx303 \<in> set (re_pmods env)"
    and "re_fromtimestamp env (Some t) = Inr ()"
  shows "rectify env msg s = and_then (zx_parse_message (re_tz env) p In) (\<lambda>m. and_then (zx_rectified m) (\<lambda>r.
    case r of HintReport h \<Rightarrow> Inr (answer_hint env (zx_bcast n imei t peer p) (Zx_Obj m) h s)
    | _ \<Rightarrow> and_then (publish_report env (wire_imei imei) r) (\<lambda>b. Inr ([Publish b], s))))"
proof -
  have "fits16 n" using zx_name_cases [OF assms(3)] zx_name_fits by auto
  with rectify_pm [OF assms(1,2) _ this assms(4,5)] assms(3) show ?thesis
    by (cases "zx_parse_message (re_tz env) p In") simp_all
qed

lemma publish_report_ok:
  assumes "ascii (re_dumps env (report_json r))" and "\<And>i. imei = Some i \<Longrightarrow> fits16 i"
  shows "\<exists>b. publish_report env (wire_imei imei) r = Inr b \<and>
    rept_decode b = Inr \<lparr>p_imei = wire_imei imei, p_payload = re_dumps env (report_json r)\<rparr>"
proof -
  have "wf_rept \<lparr>p_imei = wire_imei imei, p_payload = re_dumps env (report_json r)\<rparr>"
    using wire_imei_wf [OF assms(2)] assms(1) by (auto simp: wf_rept_def utf8_encode_ascii)
  from rept.round [OF this] show ?thesis by (simp add: publish_report_def)
qed

lemma received_parses:
  assumes "received_ok (Zx303, imei, peer, p)"
  shows "\<exists>m. zx_parse_message tz p In = Inr m"
proof -
  from assms obtain s seg where "p \<in> set (packets (fst (pm_recv s seg)))" "stream_pmod s = Zx303"
    by (auto simp: received_ok_def)
  then obtain st where "s = Zx_Stream st" "p \<in> set (packets (fst (zx_recv st seg)))"
    by (cases s) (simp_all split: prod.splits)
  from zx_delivers_two [OF this(2)] obtain l c ys where "p = l # c # ys" using zx_good_cases by blast
  then show ?thesis by (simp add: zx_parse_two split: option.split sum.split)
qed

lemma map_of_consistent:
  assumes "(k, v) \<in> set xs" and "\<And>w. (k, w) \<in> set xs \<Longrightarrow> w = v"
  shows "map_of xs k = Some v"
proof -
  obtain w where w: "map_of xs k = Some w" using weak_map_of_SomeI [OF assms(1)] by blast
  with assms(2) [OF map_of_SomeD [OF w]] show ?thesis by simp
qed

lemma exposed_zx:
  "(zx_proto_name c, b) \<in> set (pm_exposed_protos q) \<longleftrightarrow> q = Zx303 \<and> zx_has_rectified c \<and> b = (zx_RESPOND c = EXT)"
proof (cases q)
  case Zx303
  then show ?thesis
    by (auto simp: zx_exposed_protos_def zx_all_UNIV dest!: injD [OF zx_proto_name_inj])
next
  case Beesure
  then show ?thesis
    by (auto simp: bs_exposed_protos_def bs_proto_name_full BS_PREFIX_def zx_proto_name_def ZX_PREFIX_def)
qed

lemma needanswer_zx:
  assumes "Zx303 \<in> set (re_pmods env)"
  shows "proto_needanswer env (zx_proto_name c) \<longleftrightarrow> zx_has_rectified c \<and> zx_RESPOND c = EXT"
proof (cases "zx_has_rectified c")
  case True
  have "map_of (rev (common_exposed_protos (re_pmods env))) (zx_proto_name c) = Some (zx_RESPOND c = EXT)"
    using True assms by (intro map_of_consistent) (auto simp: common_exposed_protos_def exposed_zx)
  with True show ?thesis by (simp add: proto_needanswer_def)
next
  case False
  then have "map_of (rev (common_exposed_protos (re_pmods env))) (zx_proto_name c) = None"
    by (auto simp: map_of_eq_None_iff common_exposed_protos_def exposed_zx)
  with False show ?thesis by (simp add: proto_needanswer_def)
qed

lemma answer_hint_push:
  assumes "Push b \<in> set (fst (answer_hint env z m h s))"
  shows "\<exists>lat lon acts. answer env z m lat lon = Inr acts \<and> Push b \<in> set acts"
proof -
  from assms obtain lat lon acc where "Push b \<in> set (position_actions env z m h lat lon acc)"
    unfolding answer_hint_def by (auto split: prod.splits sum.splits)
  then show ?thesis
    by (cases "answer env z m lat lon"; cases "publish_report env (b_imei z) (position_report h lat lon acc)")
      (auto simp: position_actions_def)
qed

section \<open>Messages of exposed names\<close>

text \<open>\<open>cause\<close> of a message object: set when the decoder failed and the message is the module's \<open>UNKNOWN\<close>\<close>

fun pm_cause :: "pobj \<Rightarrow> py_exn option" where
  "pm_cause (Zx_Obj m) = zo_cause m"
| "pm_cause (Bs_Obj m) = bo_cause m"

lemma exposed_fits: "n \<in> fst ` set (pm_exposed_protos pm) \<Longrightarrow> fits16 n"
proof (cases pm)
  case Zx303
  moreover assume "n \<in> fst ` set (pm_exposed_protos pm)"
  ultimately show ?thesis using zx_name_fits by (auto simp: zx_exposed_protos_def)
next
  case Beesure
  moreover assume "n \<in> fst ` set (pm_exposed_protos pm)"
  ultimately show ?thesis
    by (auto simp: bs_exposed_protos_def bs_proto_name_full bs_loc_class_def BS_PREFIX_def
        intro!: fits16_ascii simp: ascii_def)
qed

lemma pm_rectified_cases:
  assumes "pm_parse_message tz pm p In = Inr m" and "pm_proto_of_message pm p = Inr n"
    and "n \<in> fst ` set (pm_exposed_protos pm)"
  shows "if pm_cause m = None then returns (pm_rectified m) else pm_rectified m = Inl AttributeError"
proof (cases pm)
  case Zx303
  with assms(1) obtain z where "zx_parse_message tz p In = Inr z" "m = Zx_Obj z" by (auto simp: res_simps)
  with zx_rectified_cases [OF this(1)] assms(2,3) Zx303 show ?thesis by (auto simp: returns_def split: if_splits)
next
  case Beesure
  with assms(1) obtain b where "bs_parse_message p In = Inr b" "m = Bs_Obj b" by (auto simp: res_simps)
  with bs_rectified_iff [OF this(1)] assms(2,3) Beesure show ?thesis
    by (auto simp: returns_def split: option.splits)
qed

lemma needs_answer_zx:
  assumes "pm_proto_of_message pm p = Inr n" and "proto_needanswer env n"
  shows "pm = Zx303"
proof (cases pm)
  case Beesure
  from assms(2) have "map_of (rev (common_exposed_protos (re_pmods env))) n = Some True"
    by (simp add: proto_needanswer_def split: option.splits)
  from map_of_SomeD [OF this] obtain q where "(n, True) \<in> set (pm_exposed_protos q)"
    by (auto simp: common_exposed_protos_def)
  with Beesure assms(1) show ?thesis
    by (cases q) (auto simp: zx_exposed_protos_def bs_exposed_protos_def bs_proto_of_message_def
      BS_PREFIX_def zx_proto_name_def ZX_PREFIX_def)
qed

lemma answer_shape:
  assumes "answer env z m lat lon = Inr acts"
  shows "acts = [] \<or> (proto_needanswer env (b_proto z) \<and> (\<exists>b. acts = [Push b]))"
  using assms by (auto simp: answer_def res_simps split: if_splits)

section \<open>Properties\<close>

text \<open>
  C28: What becomes of a message of an exposed name, of a terminal of either module. Of a
  position or status message that was parsed one report is published, under the IMEI of the terminal,
  whose text is the JSON form of the report. Of a hint the position is looked up: when the lookup
  fails, or the answer it needs cannot be packed, nothing is sent; otherwise the answer (there is one only
  for zx303) and then one report of the position found. A malformed message (any terminal can
  send one) raises out of the loop and ends the service: \<open>AttributeError\<close> when it was parsed as
  unknown, or what \<open>parse_message\<close> itself raised. (The rectifier must have the module configured; the
  JSON text is ASCII, as \<open>json.dumps\<close> makes it; and the time stamp is one that \<open>fromtimestamp\<close> takes.)
\<close>

theorem rectifier_reports:
  assumes r: "received_ok (pm, imei, peer, p)" and msg: "publish_in t (pm, imei, peer, p) = Inr msg"
    and n: "pm_proto_of_message pm p = Inr n" "n \<in> fst ` set (pm_exposed_protos pm)"
    and env: "pm \<in> set (re_pmods env)" "re_fromtimestamp env (Some t) = Inr ()"
      "\<And>d. ascii (re_dumps env d)"
  shows "case pm_parse_message (re_tz env) pm p In of
      Inl e \<Rightarrow> rectify env msg s = Inl e
    | Inr m \<Rightarrow>
        if pm_cause m \<noteq> None then rectify env msg s = Inl AttributeError
        else \<exists>r. pm_rectified m = Inr r \<and>
          (case r of
             HintReport h \<Rightarrow>
               (case re_lookup env (hr_mcc h) (hr_mnc h) (hr_gsm_cells h)
                    (map (\<lambda>(_, mac, strng). (mac, strng)) (hr_wifi_aps h)) s of
                  (Inl e, s') \<Rightarrow> rectify env msg s = Inr ([], s')
                | (Inr (lat, lon, acc), s') \<Rightarrow>
                    (case answer env (pm_bcast pm n imei t peer p) m lat lon of
                       Inl e \<Rightarrow> rectify env msg s = Inr ([], s')
                     | Inr acts \<Rightarrow>
                         (acts = [] \<or> (pm = Zx303 \<and> (\<exists>a. acts = [Push a]))) \<and>
                         (\<exists>b. rectify env msg s = Inr (acts @ [Publish b], s') \<and>
                           rept_decode b = Inr \<lparr>p_imei = wire_imei imei,
                             p_payload = re_dumps env (report_json (position_report h lat lon acc))\<rparr>)))
           | _ \<Rightarrow> \<exists>b. rectify env msg s = Inr ([Publish b], s) \<and>
               rept_decode b = Inr \<lparr>p_imei = wire_imei imei, p_payload = re_dumps env (report_json r)\<rparr>)"
proof -
  note rect = rectify_pm [OF r msg n(1) exposed_fits [OF n(2)] env(1,2), of s]
  obtain f where published: "\<And>r. publish_report env (wire_imei imei) r = Inr (f r)"
    "\<And>r. rept_decode (f r) = Inr \<lparr>p_imei = wire_imei imei, p_payload = re_dumps env (report_json r)\<rparr>"
    using publish_report_ok [OF env(3) own_imei_fits [OF received_own [OF r]]] by metis
  have shape: "acts = [] \<or> (pm = Zx303 \<and> (\<exists>b. acts = [Push b]))"
    if "answer env (pm_bcast pm n imei t peer p) m lat lon = Inr acts" for m lat lon acts
    using answer_shape [OF that] needs_answer_zx [OF n(1)] by auto
  show ?thesis
  proof (cases "pm_parse_message (re_tz env) pm p In")
    case (Inl e)
    with rect show ?thesis by simp
  next
    case (Inr m)
    show ?thesis
    proof (cases "pm_cause m")
      case (Some e)
      with rect Inr pm_rectified_cases [OF Inr n] show ?thesis by simp
    next
      case None
      with pm_rectified_cases [OF Inr n] obtain rep where rep: "pm_rectified m = Inr rep" by (auto simp: returns_def)
      show ?thesis
      proof (cases rep)
        case (HintReport h)
        let ?z = "pm_bcast pm n imei t peer p"
        from rect Inr rep HintReport have "rectify env msg s = Inr (answer_hint env ?z m h s)" by simp
        then show ?thesis
          using Inr None rep HintReport
          by (auto simp: published answer_hint_def position_actions_def split: prod.split sum.split dest: shape)
      qed (use rect Inr None rep published in \<open>simp_all del: report_json.simps\<close>)
    qed
  qed
qed

definition ex_env :: "unit rect_env" where
  "ex_env = \<lparr>re_pmods = [Beesure, Zx303], re_lookup = (\<lambda>_ _ _ _ s. (Inr (Fin 0, Fin 0, VNone), s)),
     re_dumps = (\<lambda>_. u ''...''), re_fromtimestamp = (\<lambda>_. Inr ()), re_tz = id, re_repr = (\<lambda>_. []),
     re_now = ex_now\<rparr>"

lemma ex_env_simps: "Zx303 \<in> set (re_pmods ex_env)" "re_fromtimestamp ex_env t = Inr ()"
  "ascii (re_dumps ex_env d)" "re_tz ex_env = id"
  by (simp_all add: ex_env_def ascii_def)

theorem rectifier_reports_witness:
  "\<exists>msg. publish_in 0 (Zx303, None, ex_addr, ex_bad_status) = Inr msg \<and> rectify ex_env msg () = Inl AttributeError"
proof -
  have r: "received_ok (Zx303, None, ex_addr, ex_bad_status)"
    by (rule zx_received [OF ex_framable(1)]) (simp_all add: ex_addr_wf ex_bad_status_def)
  obtain msg where msg: "publish_in 0 (Zx303, None, ex_addr, ex_bad_status) = Inr msg"
    using zx_published [OF r] by (auto simp: ex_bad_status_def)
  have n: "pm_proto_of_message Zx303 ex_bad_status = Inr (zx_proto_name STATUS)" using ex_names(1) by simp
  have "zx_proto_name STATUS \<in> fst ` set (pm_exposed_protos Zx303)"
    by (auto simp: zx_exposed_protos_def zx_all_UNIV image_iff intro!: exI [of _ STATUS])
  from rectifier_reports [OF r msg n this ex_env_simps(1-3)] msg show ?thesis
    by (simp add: ex_bad_status_parse zx_unknown_def)
qed

text \<open>
  C29: The answer to a WiFi message can be sent. Whatever position the backend finds, the
  rectifier pushes to the collector only responses that decode to the IMEI of the terminal and
  that the terminal's module can frame: what the collector needs of a pulled message.
\<close>

theorem rectifier_answers_framable:
  assumes r: "received_ok (Zx303, imei, peer, p)" and msg: "publish_in t (Zx303, imei, peer, p) = Inr msg"
    and env: "Zx303 \<in> set (re_pmods env)" "re_fromtimestamp env (Some t) = Inr ()"
    and acts: "rectify env msg s = Inr (acts, s')" "Push b \<in> set acts"
  shows "\<exists>m. resp_decode b = Inr m \<and> resp_ok m \<and> r_imei m = imei"
proof -
  obtain n where n: "zx_proto_of_message p = Inr n"
    using msg by (auto simp: publish_in_def res_simps)
  from acts(1) rectify_zx [OF r msg n env] obtain m rep where
    rep: "(case rep of HintReport h \<Rightarrow> Inr (answer_hint env (zx_bcast n imei t peer p) (Zx_Obj m) h s)
      | _ \<Rightarrow> and_then (publish_report env (wire_imei imei) rep) (\<lambda>b. Inr ([Publish b], s))) = Inr (acts, s')"
    by (auto simp: res_simps)
  with acts(2) obtain h where "answer_hint env (zx_bcast n imei t peer p) (Zx_Obj m) h s = (acts, s')"
    by (cases rep) (auto simp: res_simps)
  with acts(2) have "Push b \<in> set (fst (answer_hint env (zx_bcast n imei t peer p) (Zx_Obj m) h s))" by simp
  from answer_hint_push [OF this] obtain lat lon acts' where
    a: "answer env (zx_bcast n imei t peer p) (Zx_Obj m) lat lon = Inr acts'" "Push b \<in> set acts'" by blast
  then obtain packet where
    "zx_Out_packed (re_repr env) (re_now env) (zo_class m)
       [(u ''latitude'', VFloat lat), (u ''longitude'', VFloat lon)] = Inr packet"
    "resp_packed \<lparr>r_imei = wire_imei imei, r_when = Some t, r_packet = packet\<rparr> = Inr b"
    by (auto simp: answer_def pm_bcast_def res_simps split: if_splits)
  moreover have "\<And>i. imei = Some i \<Longrightarrow> zx_own_imei i" using received_own [OF r] by simp
  ultimately show ?thesis using zx_response_ok [of imei t packet b] zx_Out_packed_good by blast
qed

theorem rectifier_answers_framable_witness:
  "\<exists>msg acts b m. publish_in 0 (Zx303, Some ex_zx_imei, ex_addr, ex_wifi) = Inr msg \<and>
    rectify ex_env msg () = Inr (acts, ()) \<and> Push b \<in> set acts \<and>
    resp_decode b = Inr m \<and> resp_ok m \<and> r_imei m = Some ex_zx_imei"
proof -
  let ?im = "Some ex_zx_imei"
  have r: "received_ok (Zx303, ?im, ex_addr, ex_wifi)"
    by (rule zx_received [OF ex_framable(2)]) (simp_all add: ex_addr_wf ex_wifi_def ex_zx_imei_own)
  obtain msg where msg: "publish_in 0 (Zx303, ?im, ex_addr, ex_wifi) = Inr msg"
    using zx_published [OF r] by (auto simp: ex_wifi_def)
  obtain m w where m: "zx_parse_message id ex_wifi In = Inr m" "zo_class m = WIFI_POSITIONING"
    "zo_body m = Wifi_Body w" using ex_wifi_parse by blast
  then obtain h where h: "zx_rectified m = Inr (HintReport h)" by (simp add: zx_rectified_def)
  let ?z = "zx_bcast (zx_proto_name WIFI_POSITIONING) ?im 0 ex_addr ex_wifi"
  have "proto_needanswer ex_env (b_proto ?z)"
    using needanswer_zx [OF ex_env_simps(1), of WIFI_POSITIONING] by (simp add: pm_bcast_def)
  moreover obtain p where "pm_Out_packed (re_repr ex_env) (re_now ex_env) (Zx_Obj m)
      [(u ''latitude'', VFloat (Fin 0)), (u ''longitude'', VFloat (Fin 0))] = Inr p"
    by (auto simp: m zx_Out_packed_def init_kwargs_def wifi_out_encode_def pad10_def utf8_encode_ascii ascii_def
        zx_packed_def pack_uint_def)
  moreover obtain b where "resp_packed \<lparr>r_imei = b_imei ?z, r_when = b_when ?z, r_packet = p\<rparr> = Inr b"
    by (auto simp: pm_bcast_def wire_imei_def ex_zx_imei_def resp_packed_def utf8_encode_ascii ascii_def
        Cons_replicate_eq)
  ultimately have "answer ex_env ?z (Zx_Obj m) (Fin 0) (Fin 0) = Inr [Push b]" by (simp add: answer_def)
  then have acts: "Push b \<in> set (position_actions ex_env ?z (Zx_Obj m) h (Fin 0) (Fin 0) VNone)"
    by (simp add: position_actions_def split: sum.split)
  have hint: "answer_hint ex_env ?z (Zx_Obj m) h () =
      (position_actions ex_env ?z (Zx_Obj m) h (Fin 0) (Fin 0) VNone, ())"
    by (simp add: answer_hint_def ex_env_def)
  have rect: "rectify ex_env msg () = Inr (position_actions ex_env ?z (Zx_Obj m) h (Fin 0) (Fin 0) VNone, ())"
    unfolding hint [symmetric]
    using rectify_zx [OF r msg ex_names(2) ex_env_simps(1,2)] m(1) h by (simp add: ex_env_simps)
  from rectifier_answers_framable [OF r msg ex_env_simps(1,2) rect acts] msg rect acts show ?thesis by blast
qed

end
