(* ===== verification/Evstore.thy ===== *)
theory Evstore
  imports Reports "HOL-Library.List_Lexorder" "HOL-Library.AList" "HOL-Library.Multiset"
begin

text \<open>
  The event store (\<open>loctrkd/evstore.py\<close>): what its SQL statements make of the tables. A table is
  the list of its rows, in the order they were inserted. JSON text in the column \<open>remainder\<close> is
  represented by the object it denotes. The database is open (\<open>initdb\<close> has run), and the clock is
  an argument.
\<close>

section \<open>Values in the database\<close>

datatype sqlval = SNull | SInt int | SReal pyfloat | SText pystr | SBlob bytes

text \<open>What a Python value is bound to: a container cannot be, an integer has 64 bits.\<close>

fun sql_bind :: "pyval \<Rightarrow> sqlval res" where
  "sql_bind VNone = Inr SNull"
| "sql_bind (VBool b) = Inr (SInt (if b then 1 else 0))"
| "sql_bind (VInt i) = (if - (2 ^ 63) \<le> i \<and> i < 2 ^ 63 then Inr (SInt i) else Inl OverflowError)"
| "sql_bind (VFloat f) = Inr (if f = NaN then SNull else SReal f)"
| "sql_bind (VStr s) = Inr (SText s)"
| "sql_bind (VBytes bs) = Inr (SBlob bs)"
| "sql_bind (VList xs) = Inl InterfaceError"
| "sql_bind (VTup xs) = Inl InterfaceError"

text \<open>
  A column of type \<open>text\<close> turns numbers into text (that of a float is left to the parameter \<open>rep\<close>),
  one of type \<open>real\<close> integers and numeric text into floats.
\<close>

fun text_col :: "(pyval \<Rightarrow> pystr) \<Rightarrow> sqlval \<Rightarrow> sqlval" where
  "text_col rep (SInt i) = SText (py_str_int i)"
| "text_col rep (SReal f) = SText (rep (VFloat f))"
| "text_col rep v = v"

fun real_col :: "sqlval \<Rightarrow> sqlval" where
  "real_col (SInt i) = SReal (Fin (of_int i))"
| "real_col (SText s) =
     (if 95 \<in> set s then SText s
      else (case py_float s of Inr (Fin q) \<Rightarrow> SReal (Fin q) | _ \<Rightarrow> SText s))"
| "real_col v = v"

fun of_sql :: "sqlval \<Rightarrow> pyval" where
  "of_sql SNull = VNone"
| "of_sql (SInt i) = VInt i"
| "of_sql (SReal f) = VFloat f"
| "of_sql (SText s) = VStr s"
| "of_sql (SBlob bs) = VBytes bs"

text \<open>What is left of a value after \<open>loads(dumps(v))\<close>\<close>

fun json_value :: "pyval \<Rightarrow> pyval res" where
  "json_value (VBytes bs) = Inl TypeError"
| "json_value (VList xs) = and_then (map_res json_value xs) (\<lambda>ys. Inr (VList ys))"
| "json_value (VTup xs) = and_then (map_res json_value xs) (\<lambda>ys. Inr (VList ys))"
| "json_value v = Inr v"

definition json_object :: "attrs \<Rightarrow> attrs res" where
  "json_object d = map_res (\<lambda>(k, v). and_then (json_value v) (\<lambda>w. Inr (k, w))) d"

section \<open>Tables\<close>

record event_row =
  ev_tstamp :: sqlval
  ev_imei :: sqlval
  ev_peeraddr :: sqlval
  ev_is_incoming :: sqlval
  ev_proto :: sqlval
  ev_packet :: sqlval

record report_row =
  rr_imei :: sqlval
  rr_devtime :: sqlval
  rr_accuracy :: sqlval
  rr_latitude :: sqlval
  rr_longitude :: sqlval
  rr_remainder :: attrs

record db =
  events :: "event_row list"
  reports :: "report_row list"
  pmodmap :: "(pystr \<times> pystr \<times> int) list"

text \<open>The file before the service starts: a table may be missing, \<open>pmodmap\<close> of the older form.\<close>

datatype pmod_table = No_Table | Old_Table "(pystr \<times> pystr) list" | New_Table "(pystr \<times> pystr \<times> int) list"

record db_file =
  f_events :: "event_row list option"
  f_reports :: "report_row list option"
  f_pmodmap :: pmod_table

definition or_empty :: "'r list option \<Rightarrow> 'r list" where
  "or_empty t = (case t of None \<Rightarrow> [] | Some rows \<Rightarrow> rows)"

definition initdb :: "int \<Rightarrow> db_file \<Rightarrow> db" where
  "initdb now f =
     \<lparr>events = or_empty (f_events f), reports = or_empty (f_reports f),
      pmodmap = (case f_pmodmap f of
          No_Table \<Rightarrow> []
        | New_Table rows \<Rightarrow> rows
        | Old_Table rows \<Rightarrow> map (\<lambda>(imei, pmod). (imei, pmod, now)) rows)\<rparr>"

section \<open>Operations\<close>

definition or_default :: "attrs \<Rightarrow> pystr \<Rightarrow> pyval \<Rightarrow> pyval" where
  "or_default kwargs k dfl = (case map_of kwargs k of Some v \<Rightarrow> v | None \<Rightarrow> dfl)"

text \<open>
  \<open>insert or ignore\<close>: a row with \<open>NULL\<close> in a column that must not be \<open>NULL\<close> is not stored, and
  nothing is raised.
\<close>

definition stow :: "(pyval \<Rightarrow> pystr) \<Rightarrow> attrs \<Rightarrow> db \<Rightarrow> db res" where
  "stow rep kwargs d =
     (if length kwargs > 6 then Inl AssertionError
      else
        and_then (sql_bind (or_default kwargs (u ''when'') (VFloat (Fin 0)))) (\<lambda>tstamp.
        and_then (sql_bind (or_default kwargs (u ''imei'') VNone)) (\<lambda>imei.
        and_then (sql_bind (or_default kwargs (u ''peeraddr'') VNone)) (\<lambda>peeraddr.
        and_then (sql_bind (or_default kwargs (u ''proto'') (VStr (u ''UNKNOWN'')))) (\<lambda>proto.
        and_then (sql_bind (or_default kwargs (u ''packet'') (VBytes []))) (\<lambda>packet.
        and_then (sql_bind (or_default kwargs (u ''is_incoming'') (VBool True))) (\<lambda>is_incoming.
          if SNull \<in> {tstamp, peeraddr, is_incoming, proto} then Inr d
          else Inr (d\<lparr>events := events d @
            [\<lparr>ev_tstamp = real_col tstamp, ev_imei = text_col rep imei,
              ev_peeraddr = text_col rep peeraddr, ev_is_incoming = is_incoming,
              ev_proto = text_col rep proto, ev_packet = packet\<rparr>]\<rparr>))))))))"

definition loc_columns :: "pystr list" where
  "loc_columns = [u ''imei'', u ''devtime'', u ''accuracy'', u ''latitude'', u ''longitude'']"

definition stowloc :: "(pyval \<Rightarrow> pystr) \<Rightarrow> pystr \<Rightarrow> attrs \<Rightarrow> db \<Rightarrow> db res" where
  "stowloc rep now kwargs d =
     and_then (json_object (filter (\<lambda>(k, v). k \<notin> set loc_columns) kwargs)) (\<lambda>remainder.
     and_then (sql_bind (or_default kwargs (u ''imei'') VNone)) (\<lambda>imei.
     and_then (sql_bind (or_default kwargs (u ''devtime'') (VStr now))) (\<lambda>devtime.
     and_then (sql_bind (or_default kwargs (u ''accuracy'') VNone)) (\<lambda>accuracy.
     and_then (sql_bind (or_default kwargs (u ''latitude'') VNone)) (\<lambda>latitude.
     and_then (sql_bind (or_default kwargs (u ''longitude'') VNone)) (\<lambda>longitude.
       if devtime = SNull then Inr d
       else Inr (d\<lparr>reports := reports d @
         [\<lparr>rr_imei = text_col rep imei, rr_devtime = text_col rep devtime,
           rr_accuracy = real_col accuracy, rr_latitude = real_col latitude,
           rr_longitude = real_col longitude, rr_remainder = remainder\<rparr>]\<rparr>)))))))"

text \<open>\<open>imei\<close> is unique: an older row of the same IMEI is replaced.\<close>

definition stowpmod :: "int \<Rightarrow> pystr \<Rightarrow> pystr \<Rightarrow> db \<Rightarrow> db" where
  "stowpmod now imei pmod d =
     d\<lparr>pmodmap := filter (\<lambda>(i, _). i \<noteq> imei) (pmodmap d) @ [(imei, pmod, now)]\<rparr>"

definition row_dict :: "report_row \<Rightarrow> attrs" where
  "row_dict r =
     foldl (\<lambda>dic (k, v). AList.update k v dic)
       [(u ''imei'', of_sql (rr_imei r)), (u ''devtime'', of_sql (rr_devtime r)),
        (u ''accuracy'', of_sql (rr_accuracy r)), (u ''latitude'', of_sql (rr_latitude r)),
        (u ''longitude'', of_sql (rr_longitude r))]
       (rr_remainder r)"

text \<open>
  \<open>order by devtime desc limit ?\<close>: text is compared character by character; a negative limit is
  none. (Of rows with the same time the older is taken to come first, which SQL leaves open.)
\<close>

definition devtime_key :: "report_row \<Rightarrow> pystr" where
  "devtime_key r = (case rr_devtime r of SText s \<Rightarrow> s | _ \<Rightarrow> [])"

definition sql_limit :: "int \<Rightarrow> 'r list \<Rightarrow> 'r list" where
  "sql_limit n rows = (if n < 0 then rows else take (nat n) rows)"

definition fetch :: "pystr \<Rightarrow> int \<Rightarrow> db \<Rightarrow> attrs list" where
  "fetch imei backlog d =
     (let mine = filter (\<lambda>r. rr_imei r = SText imei) (reports d);
          desc = rev (sort_key devtime_key (rev mine))
      in rev (map row_dict (sql_limit backlog desc)))"

definition fetchpmod :: "int \<Rightarrow> pystr \<Rightarrow> db \<Rightarrow> pystr option" where
  "fetchpmod now imei d =
     (case filter (\<lambda>(i, p, t). i = imei \<and> t > now - 3600) (pmodmap d) of
        [] \<Rightarrow> None
      | (i, p, t) # _ \<Rightarrow> Some p)"

section \<open>Reports come back\<close>

definition rows_of :: "pystr \<Rightarrow> db \<Rightarrow> report_row list" where
  "rows_of imei d = sort_key devtime_key (rev (filter (\<lambda>r. rr_imei r = SText imei) (reports d)))"

lemma fetch_rows: "0 \<le> n \<Longrightarrow>
    fetch imei n d = map row_dict (drop (length (rows_of imei d) - nat n) (rows_of imei d))"
  by (simp add: fetch_def sql_limit_def Let_def take_rev rev_map [symmetric] rows_of_def)

lemma insort_key_last: "\<forall>y \<in> set xs. f y < f x \<Longrightarrow> insort_key f x xs = xs @ [x]"
  by (induction xs) auto

lemma rows_of_append:
  assumes "rr_imei r = SText imei" and "\<forall>q \<in> set (rows_of imei d). devtime_key q < devtime_key r"
  shows "rows_of imei (d\<lparr>reports := reports d @ [r]\<rparr>) = rows_of imei d @ [r]"
  using assms insort_key_last [of "rows_of imei d" devtime_key r] by (simp add: rows_of_def)

lemma rows_of_other:
  assumes "rr_imei r \<noteq> SText imei"
  shows "rows_of imei (d\<lparr>reports := reports d @ [r]\<rparr>) = rows_of imei d"
  using assms by (simp add: rows_of_def)

lemma sorted_rows_of: "sorted (map devtime_key (rows_of imei d))"
  by (simp add: rows_of_def)

lemma set_rows_of: "mset (rows_of imei d) = mset (filter (\<lambda>r. rr_imei r = SText imei) (reports d))"
  by (simp add: rows_of_def)

lemma map_of_updates:
  assumes "distinct (map fst e)"
  shows "map_of (foldl (\<lambda>dic (k, v). AList.update k v dic) dic e) = map_of dic ++ map_of e"
  using assms
proof (induction e arbitrary: dic)
  case (Cons x e)
  obtain k v where x: "x = (k, v)" by (cases x)
  have k: "k \<notin> dom (map_of e)" using Cons.prems by (auto simp: x dom_map_of_conv_image_fst)
  have "map_of (foldl (\<lambda>dic (k, v). AList.update k v dic) dic (x # e)) = (map_of dic)(k \<mapsto> v) ++ map_of e"
    using Cons by (simp add: x update_conv')
  also have "\<dots> = map_of dic ++ (map_of e)(k \<mapsto> v)" using map_add_upd_left [OF k] by simp
  finally show ?case by (simp add: x flip: fun_upd_def)
qed simp

text \<open>Values that a report has in its JSON form, in a column and elsewhere\<close>

definition plain_number :: "pyval \<Rightarrow> bool" where
  "plain_number v \<longleftrightarrow> (case v of VNone \<Rightarrow> True | VFloat f \<Rightarrow> f \<noteq> NaN | _ \<Rightarrow> False)"

definition plain_report :: "pystr \<Rightarrow> pystr \<Rightarrow> attrs \<Rightarrow> bool" where
  "plain_report imei devtime data \<longleftrightarrow> distinct (map fst data) \<and>
     map_of data (u ''imei'') = Some (VStr imei) \<and> map_of data (u ''devtime'') = Some (VStr devtime) \<and>
     list_all (\<lambda>k. map_of data k \<noteq> None \<and> plain_number (the (map_of data k)))
       [u ''accuracy'', u ''latitude'', u ''longitude''] \<and>
     list_all (\<lambda>(k, v). json_value v = Inr v) data"

lemma json_object_plain: "list_all (\<lambda>(k, v). json_value v = Inr v) data \<Longrightarrow> json_object data = Inr data"
  by (induction data) (auto simp: json_object_def)

lemma plain_column: "plain_number v \<Longrightarrow> \<exists>c. sql_bind v = Inr c \<and> of_sql (real_col c) = v"
  by (cases v) (simp_all add: plain_number_def)

lemma map_of_filter_keys: "map_of (filter (\<lambda>(k, v). P k) data) k = (if P k then map_of data k else None)"
  by (induction data) auto

lemma stowloc_plain:
  assumes p: "plain_report imei devtime data"
  shows "\<exists>r. stowloc rep now data d = Inr (d\<lparr>reports := reports d @ [r]\<rparr>) \<and> rr_imei r = SText imei \<and>
    rr_devtime r = SText devtime \<and> map_of (row_dict r) = map_of data"
proof -
  have nums: "\<exists>v. map_of data k = Some v \<and> plain_number v"
    if "k \<in> {u ''accuracy'', u ''latitude'', u ''longitude''}" for k
    using p that by (auto simp: plain_report_def)
  obtain va where a: "map_of data (u ''accuracy'') = Some va" "plain_number va" using nums by blast
  obtain vla where la: "map_of data (u ''latitude'') = Some vla" "plain_number vla" using nums by blast
  obtain vlo where lo: "map_of data (u ''longitude'') = Some vlo" "plain_number vlo" using nums by blast
  obtain ca where ca: "sql_bind va = Inr ca" "of_sql (real_col ca) = va" using plain_column [OF a(2)] by blast
  obtain cla where cla: "sql_bind vla = Inr cla" "of_sql (real_col cla) = vla" using plain_column [OF la(2)] by blast
  obtain clo where clo: "sql_bind vlo = Inr clo" "of_sql (real_col clo) = vlo" using plain_column [OF lo(2)] by blast
  have i: "map_of data (u ''imei'') = Some (VStr imei)" and t: "map_of data (u ''devtime'') = Some (VStr devtime)"
    using p by (simp_all add: plain_report_def)
  let ?rem = "filter (\<lambda>(k, v). k \<notin> set loc_columns) data"
  let ?r = "\<lparr>rr_imei = SText imei, rr_devtime = SText devtime, rr_accuracy = real_col ca,
    rr_latitude = real_col cla, rr_longitude = real_col clo, rr_remainder = ?rem\<rparr>"
  have "json_object ?rem = Inr ?rem"
    using p by (intro json_object_plain) (auto simp: plain_report_def list_all_iff)
  then have "stowloc rep now data d = Inr (d\<lparr>reports := reports d @ [?r]\<rparr>)"
    unfolding stowloc_def or_default_def by (simp only: i t a la lo ca cla clo option.case sql_bind.simps
        and_then.simps sqlval.distinct if_False text_col.simps)
  moreover have "map_of (row_dict ?r) = map_of data"
  proof
    fix k
    have "distinct (map fst ?rem)"
      using p by (auto simp: plain_report_def intro: distinct_map_filter)
    from map_of_updates [OF this] have e: "map_of (row_dict ?r) =
        map_of [(u ''imei'', VStr imei), (u ''devtime'', VStr devtime), (u ''accuracy'', va),
          (u ''latitude'', vla), (u ''longitude'', vlo)] ++ map_of ?rem"
      by (simp only: row_dict_def report_row.simps of_sql.simps ca cla clo)
    show "map_of (row_dict ?r) k = map_of data k"
    proof (cases "k \<in> set loc_columns")
      case True
      then have "map_of ?rem k = None" by (simp add: map_of_filter_keys)
      with True i t a la lo show ?thesis
        unfolding e by (auto simp: loc_columns_def map_add_def)
    next
      case False
      then have "map_of ?rem k = map_of data k" by (simp add: map_of_filter_keys)
      moreover from False have "map_of [(u ''imei'', VStr imei), (u ''devtime'', VStr devtime),
          (u ''accuracy'', va), (u ''latitude'', vla), (u ''longitude'', vlo)] k = None"
        by (auto simp: loc_columns_def)
      ultimately show ?thesis unfolding e by (simp add: map_add_def split: option.split)
    qed
  qed
  ultimately show ?thesis by (intro exI [of _ ?r]) simp
qed

lemma fetch_newest:
  assumes "rr_imei r = SText imei" and "rr_devtime r = SText devtime" and "1 \<le> n"
    and "\<forall>q \<in> set (reports d). rr_imei q = SText imei \<longrightarrow> devtime_key q < devtime"
  shows "fetch imei n (d\<lparr>reports := reports d @ [r]\<rparr>) = fetch imei (n - 1) d @ [row_dict r]"
proof -
  have "\<forall>q \<in> set (rows_of imei d). devtime_key q < devtime_key r"
    using assms(2,4) by (auto simp: rows_of_def devtime_key_def [of r])
  note rows = rows_of_append [OF assms(1) this]
  have "0 \<le> n" "0 \<le> n - 1" "nat n = Suc (nat (n - 1))" using assms(3) by simp_all
  then show ?thesis by (simp add: fetch_rows rows)
qed

section \<open>Properties\<close>

text \<open>
  C27: A query for the last reports of a terminal gives the newest ones: they are in the order of
  their times, all of that IMEI, no more than asked for and all there are if there are fewer, and no
  report of the IMEI that is left out is newer than one that is given.
\<close>

theorem fetch_latest:
  assumes "0 \<le> n"
  shows "\<exists>older newest. fetch imei n d = map row_dict newest \<and>
    mset (older @ newest) = mset (filter (\<lambda>r. rr_imei r = SText imei) (reports d)) \<and>
    sorted (map devtime_key (older @ newest)) \<and>
    length newest = min (nat n) (length (older @ newest))"
proof -
  let ?s = "rows_of imei d"
  let ?k = "length ?s - nat n"
  have "fetch imei n d = map row_dict (drop ?k ?s)" by (rule fetch_rows [OF assms])
  moreover have "mset (take ?k ?s @ drop ?k ?s) = mset (filter (\<lambda>r. rr_imei r = SText imei) (reports d))"
    unfolding append_take_drop_id by (rule set_rows_of)
  moreover have "sorted (map devtime_key (take ?k ?s @ drop ?k ?s))"
    unfolding append_take_drop_id by (rule sorted_rows_of)
  moreover have "length (drop ?k ?s) = min (nat n) (length (take ?k ?s @ drop ?k ?s))" by auto
  ultimately show ?thesis by blast
qed

definition ex_db :: db where
  "ex_db = \<lparr>events = [],
     reports = map (\<lambda>(i, t). \<lparr>rr_imei = SText i, rr_devtime = SText t, rr_accuracy = SNull,
       rr_latitude = SNull, rr_longitude = SNull, rr_remainder = []\<rparr>)
       [(u ''12'', u ''2022-05-09''), (u ''34'', u ''2022-05-10''), (u ''12'', u ''2022-05-08'')],
     pmodmap = [(u ''12'', u ''beesure'', 1000)]\<rparr>"

theorem fetch_latest_witness:
  "\<exists>older newest. fetch (u ''12'') 1 ex_db = map row_dict newest \<and> length older = 1 \<and> length newest = 1 \<and>
    sorted (map devtime_key (older @ newest))"
proof -
  have "(0 :: int) \<le> 1" by simp
  from fetch_latest [OF this, of "u ''12''" ex_db] obtain older newest where
    r: "fetch (u ''12'') 1 ex_db = map row_dict newest" "length newest = min (nat 1) (length (older @ newest))"
      "sorted (map devtime_key (older @ newest))"
    and m: "mset (older @ newest) = mset (filter (\<lambda>r. rr_imei r = SText (u ''12'')) (reports ex_db))"
    by blast
  from arg_cong [OF m, of size] have "length (older @ newest) = 2" by (simp add: ex_db_def)
  with r show ?thesis by force
qed

text \<open>
  A report survives the store. Whatever other values it has, stored as the newest of its
  terminal it is the last element of every later query for it, with each of its values under
  the same name.
\<close>

theorem stored_report_fetched:
  assumes "plain_report imei devtime data" and "1 \<le> n"
    and "\<forall>r \<in> set (reports d). rr_imei r = SText imei \<longrightarrow> devtime_key r < devtime"
  shows "\<exists>d' dic. stowloc rep now data d = Inr d' \<and> fetch imei n d' = fetch imei (n - 1) d @ [dic] \<and>
    map_of dic = map_of data"
proof -
  from stowloc_plain [OF assms(1), of rep now d] obtain r where
    r: "stowloc rep now data d = Inr (d\<lparr>reports := reports d @ [r]\<rparr>)" "rr_imei r = SText imei"
      "rr_devtime r = SText devtime" "map_of (row_dict r) = map_of data" by blast
  from fetch_newest [OF r(2,3) assms(2,3)] r show ?thesis by blast
qed

definition ex_report :: attrs where
  "ex_report = [(u ''devtime'', VStr (u ''2022-05-11'')), (u ''battery_percentage'', VInt 46),
     (u ''accuracy'', VNone), (u ''latitude'', VFloat (Fin 47)), (u ''longitude'', VFloat (Fin 17)),
     (u ''imei'', VStr (u ''12''))]"

theorem stored_report_fetched_witness:
  "\<exists>d' dic. stowloc rep now ex_report ex_db = Inr d' \<and>
    fetch (u ''12'') 2 d' = fetch (u ''12'') 1 ex_db @ [dic] \<and> map_of dic = map_of ex_report"
proof -
  have "plain_report (u ''12'') (u ''2022-05-11'') ex_report"
    by (simp add: plain_report_def plain_number_def ex_report_def)
  moreover have "\<forall>r \<in> set (reports ex_db). rr_imei r = SText (u ''12'') \<longrightarrow> devtime_key r < u ''2022-05-11''"
    by (simp add: ex_db_def devtime_key_def)
  ultimately show ?thesis
    using stored_report_fetched [of "u ''12''" "u ''2022-05-11''" ex_report 2 ex_db rep now] by simp
qed

text \<open>
  The module of a terminal is remembered for an hour: after it is noted, a query within 3600
  seconds gives it, a later one gives none, and other terminals are not affected. No IMEI has two
  rows.
\<close>

theorem pmod_remembered:
  assumes "now \<le> later"
  shows "fetchpmod later imei (stowpmod now imei pmod d) = (if later - now < 3600 then Some pmod else None) \<and>
    (i \<noteq> imei \<longrightarrow> fetchpmod later i (stowpmod now imei pmod d) = fetchpmod later i d) \<and>
    (distinct (map fst (pmodmap d)) \<longrightarrow> distinct (map fst (pmodmap (stowpmod now imei pmod d))))"
proof -
  have "filter (\<lambda>(j, p, t). j = imei \<and> t > later - 3600) (filter (\<lambda>(j, _). j \<noteq> imei) (pmodmap d)) = []"
    by (auto simp: filter_empty_conv)
  then have "fetchpmod later imei (stowpmod now imei pmod d) = (if later - now < 3600 then Some pmod else None)"
    by (simp add: fetchpmod_def stowpmod_def)
  moreover have "filter (\<lambda>(j, p, t). j = i \<and> t > later - 3600) (filter (\<lambda>(j, _). j \<noteq> imei) (pmodmap d)) =
      filter (\<lambda>(j, p, t). j = i \<and> t > later - 3600) (pmodmap d)" if "i \<noteq> imei"
    using that by (auto intro: filter_cong simp: filter_filter)
  then have "i \<noteq> imei \<longrightarrow> fetchpmod later i (stowpmod now imei pmod d) = fetchpmod later i d"
    by (simp add: fetchpmod_def stowpmod_def)
  moreover have "distinct (map fst (pmodmap d)) \<longrightarrow> distinct (map fst (pmodmap (stowpmod now imei pmod d)))"
    by (auto simp: stowpmod_def distinct_map_filter)
  ultimately show ?thesis by blast
qed

theorem pmod_remembered_witness:
  "fetchpmod 5000 (u ''12'') (stowpmod 1000 (u ''12'') (u ''zx303proto'') ex_db) = None \<and>
   fetchpmod 4599 (u ''12'') (stowpmod 1000 (u ''12'') (u ''zx303proto'') ex_db) = Some (u ''zx303proto'')"
  using pmod_remembered [of 1000 5000 "u ''12''" "u ''zx303proto''" ex_db]
    pmod_remembered [of 1000 4599 "u ''12''" "u ''zx303proto''" ex_db] by simp

text \<open>
  \<open>stow\<close> stores an event exactly when it is given a peer: the declared default of
  \<open>peeraddr\<close> is \<open>None\<close>, the column refuses \<open>NULL\<close>, and the insertion ignores the refusal, so that
  without the argument the event is lost and nothing is raised.
\<close>

theorem stow_needs_peer:
  assumes "stow rep kwargs d = Inr d'" and "map_of kwargs (u ''peeraddr'') = None"
  shows "d' = d"
proof -
  have "or_default kwargs (u ''peeraddr'') VNone = VNone" using assms(2) by (simp add: or_default_def)
  with assms(1) show ?thesis by (auto simp: stow_def res_simps split: if_splits)
qed

theorem stow_needs_peer_witness:
  "stow rep [(u ''proto'', VStr (u ''ZX:LOGIN''))] ex_db = Inr ex_db"
proof -
  have "\<exists>d'. stow rep [(u ''proto'', VStr (u ''ZX:LOGIN''))] ex_db = Inr d'"
    by (simp add: stow_def or_default_def)
  then obtain d' where "stow rep [(u ''proto'', VStr (u ''ZX:LOGIN''))] ex_db = Inr d'" by blast
  with stow_needs_peer [OF this] show ?thesis by simp
qed

end
