(* ===== verification/Storage.thy ===== *)
theory Storage
  imports Rectifier Evstore
begin

text \<open>
  The storage service (\<open>loctrkd/storage.py\<close>): what it writes to the event store for each message of
  the collector and of the rectifier.
\<close>

section \<open>Floats of the wire\<close>

text \<open>The value of a double: sign, eleven bits of exponent, 52 of mantissa\<close>

definition float_of_bits :: "64 word \<Rightarrow> pyfloat" where
  "float_of_bits w =
     (let n = uint w; m = n mod 2 ^ 52; e = (n div 2 ^ 52) mod 2 ^ 11; neg = (n div 2 ^ 63 = 1);
          sg = (if neg then -1 else 1) :: rat
      in if e = 2047 then (if m = 0 then Inf (\<not> neg) else NaN)
         else if e = 0 then Fin (sg * of_int m / 2 ^ 1074)
         else if e \<ge> 1075 then Fin (sg * of_int (2 ^ 52 + m) * 2 ^ nat (e - 1075))
         else Fin (sg * of_int (2 ^ 52 + m) / 2 ^ nat (1075 - e)))"

section \<open>The service\<close>

record st_env =
  st_events :: bool
  st_now :: int
  st_now_text :: pystr
  st_fromtimestamp :: "64 word option \<Rightarrow> unit res"
  st_str_peer :: "peeraddr option \<Rightarrow> pystr"
  st_repr :: "pyval \<Rightarrow> pystr"
  st_loads :: "pystr \<Rightarrow> json res"

definition opt_str :: "pystr option \<Rightarrow> pyval" where
  "opt_str v = (case v of None \<Rightarrow> VNone | Some s \<Rightarrow> VStr s)"

definition store_raw :: "st_env \<Rightarrow> bytes \<Rightarrow> db \<Rightarrow> db res" where
  "store_raw env msg d =
     and_then (bcast_decode msg) (\<lambda>z.
     and_then (st_fromtimestamp env (b_when z)) (\<lambda>_.
     let d1 = (case (b_imei z, b_pmod z) of
         (Some i, Some p) \<Rightarrow> stowpmod (st_now env) i p d
       | _ \<Rightarrow> d)
     in if st_events env then
          stow (st_repr env)
            [(u ''is_incoming'', VBool (b_is_incoming z)), (u ''peeraddr'', VStr (st_str_peer env (b_peeraddr z))),
             (u ''when'', VFloat (float_of_bits (when_bits (b_when z)))), (u ''imei'', opt_str (b_imei z)),
             (u ''proto'', VStr (b_proto z)), (u ''packet'', VBytes (b_packet z))] d1
        else Inr d1))"

definition store_rept :: "st_env \<Rightarrow> bytes \<Rightarrow> db \<Rightarrow> db res" where
  "store_rept env msg d =
     and_then (rept_decode msg) (\<lambda>rept.
     and_then (st_loads env (p_payload rept)) (\<lambda>data.
       case data of
         JOther v \<Rightarrow> Inl (case v of VList vs \<Rightarrow> TypeError | _ \<Rightarrow> AttributeError)
       | JObject o' \<Rightarrow>
           (case map_of o' (u ''type'') of
              None \<Rightarrow> Inl KeyError
            | Some ty \<Rightarrow>
                if ty = VStr (u ''location'') then
                  stowloc (st_repr env) (st_now_text env)
                    (AList.update (u ''imei'') (opt_str (p_imei rept)) (without (u ''type'') o')) d
                else Inr d)))"

datatype st_event = Raw "bytes list" | Reports "bytes list" | Unknown_Socket

definition store_event :: "st_env \<Rightarrow> st_event \<Rightarrow> db \<Rightarrow> db res" where
  "store_event env ev d =
     (case ev of
        Raw msgs \<Rightarrow> fold_res (store_raw env) msgs d
      | Reports msgs \<Rightarrow> fold_res (store_rept env) msgs d
      | Unknown_Socket \<Rightarrow> Inr d)"

definition storage_round :: "st_env \<Rightarrow> st_event list \<Rightarrow> db \<Rightarrow> db res" where
  "storage_round env evs d = fold_res (store_event env) evs d"

section \<open>A broadcast notes the module\<close>

lemma stow_other_tables: "stow rep kwargs d = Inr d' \<Longrightarrow> pmodmap d' = pmodmap d \<and> reports d' = reports d"
  by (auto simp: stow_def res_simps split: if_splits)

lemma store_raw_pmod:
  assumes "store_raw env msg d = Inr d'" and "bcast_decode msg = Inr z"
    and "b_imei z = Some i" and "b_pmod z = Some p"
  shows "pmodmap d' = pmodmap (stowpmod (st_now env) i p d)"
  using assms stow_other_tables by (auto simp: store_raw_def Let_def res_simps split: if_splits)

lemma stow_event_ok:
  "\<exists>d'. stow rep [(u ''is_incoming'', VBool inc), (u ''peeraddr'', VStr pa), (u ''when'', VFloat v),
    (u ''imei'', opt_str im), (u ''proto'', VStr pr), (u ''packet'', VBytes pk)] d = Inr d'"
  by (cases im) (simp_all add: stow_def or_default_def opt_str_def)

lemma store_raw_ok:
  assumes "bcast_decode msg = Inr z" and "st_fromtimestamp env (b_when z) = Inr ()"
  shows "\<exists>d'. store_raw env msg d = Inr d'"
  using assms stow_event_ok unfolding store_raw_def Let_def by simp

section \<open>A location report is stored\<close>

definition plain_coord :: "coord_report \<Rightarrow> bool" where
  "plain_coord r \<longleftrightarrow> plain_number (cr_accuracy r) \<and> plain_number (VFloat (cr_latitude r)) \<and>
     plain_number (VFloat (cr_longitude r)) \<and> json_value (cr_altitude r) = Inr (cr_altitude r) \<and>
     json_value (cr_speed r) = Inr (cr_speed r) \<and> json_value (cr_direction r) = Inr (cr_direction r)"

lemma plain_number_json: "plain_number v \<Longrightarrow> json_value v = Inr v"
  by (cases v) (simp_all add: plain_number_def)

lemma opt_int_json: "json_value (opt_int v) = Inr (opt_int v)"
  by (cases v) (simp_all add: opt_int_def)

lemma plain_coord_json:
  assumes "plain_coord r"
  shows "plain_report i (cr_devtime r) (AList.update (u ''imei'') (VStr i)
    (without (u ''type'') (report_json (CoordReport r))))"
  using assms plain_number_json [of "cr_accuracy r"]
  by (simp_all add: plain_coord_def plain_report_def without_def opt_int_json)

lemma stored_location:
  assumes "plain_coord r" and "fits16 i" and "i \<noteq> replicate 16 48" and "1 \<le> n"
    and "ascii (re_dumps renv (report_json (CoordReport r)))"
    and "st_loads env (re_dumps renv (report_json (CoordReport r))) = Inr (JObject (report_json (CoordReport r)))"
    and "\<forall>q \<in> set (reports d). rr_imei q = SText i \<longrightarrow> devtime_key q < cr_devtime r"
  shows "\<exists>b d' dic. publish_report renv (Some i) (CoordReport r) = Inr b \<and> store_rept env b d = Inr d' \<and>
    fetch i n d' = fetch i (n - 1) d @ [dic] \<and>
    map_of dic = (map_of (report_json (CoordReport r)))(u ''type'' := None, u ''imei'' \<mapsto> VStr i)"
proof -
  let ?o = "report_json (CoordReport r)"
  let ?data = "AList.update (u ''imei'') (VStr i) (without (u ''type'') ?o)"
  have w: "wire_imei (Some i) = Some i" using assms(3) by (simp add: wire_imei_def)
  have "\<And>j. Some i = Some j \<Longrightarrow> fits16 j" using assms(2) by simp
  from publish_report_ok [OF assms(5) this, where imei = "Some i"] obtain b where
    b: "publish_report renv (Some i) (CoordReport r) = Inr b"
      "rept_decode b = Inr \<lparr>p_imei = Some i, p_payload = re_dumps renv ?o\<rparr>"
    unfolding w by blast
  from stowloc_plain [OF plain_coord_json [OF assms(1), of i], of "st_repr env" "st_now_text env" d]
  obtain q where q: "stowloc (st_repr env) (st_now_text env) ?data d = Inr (d\<lparr>reports := reports d @ [q]\<rparr>)"
    "rr_imei q = SText i" "rr_devtime q = SText (cr_devtime r)" "map_of (row_dict q) = map_of ?data" by blast
  have "store_rept env b d = Inr (d\<lparr>reports := reports d @ [q]\<rparr>)"
    using assms(6) b(2) q(1) report_json_type [of "CoordReport r"]
    by (simp add: store_rept_def opt_str_def del: report_json.simps)
  moreover note fetch_newest [OF q(2,3) assms(4,7)]
  moreover have "map_of ?data = (map_of ?o)(u ''type'' := None, u ''imei'' \<mapsto> VStr i)"
    by (rule ext) (simp add: update_conv' map_of_without)
  ultimately show ?thesis using b(1) q(4) by metis
qed

section \<open>Properties\<close>

text \<open>
  C26: A position on its way to the map is not lost or changed. The report the rectifier publishes
  for a terminal of either module (whose IMEI is not the sixteen zeros that stand for none) is stored, and
  when it is the newest of the terminal, every query for the terminal's last positions ends with it: with
  the values of the report under the same names and the IMEI, without the type. The numbers of the
  report must be finite and the other values ones that JSON keeps. (What is asked of JSON: the text is
  ASCII, and \<open>loads\<close> undoes \<open>dumps\<close>.)
\<close>

theorem location_stored:
  assumes "plain_coord r" and "pm_own_imei pm i" and "i \<noteq> replicate 16 48" and "1 \<le> n"
    and "ascii (re_dumps renv (report_json (CoordReport r)))"
    and "st_loads env (re_dumps renv (report_json (CoordReport r))) = Inr (JObject (report_json (CoordReport r)))"
    and "\<forall>q \<in> set (reports d). rr_imei q = SText i \<longrightarrow> devtime_key q < cr_devtime r"
  shows "\<exists>b d' dic. publish_report renv (Some i) (CoordReport r) = Inr b \<and> store_rept env b d = Inr d' \<and>
    fetch i n d' = fetch i (n - 1) d @ [dic] \<and>
    map_of dic = (map_of (report_json (CoordReport r)))(u ''type'' := None, u ''imei'' \<mapsto> VStr i)"
  by (rule stored_location [OF assms(1) own_imei_fits [OF assms(2)] assms(3-7)])

definition ex_coord :: coord_report where
  "ex_coord = \<lparr>cr_devtime = u ''2022-05-11 10:00:00'', cr_battery_percentage = None, cr_accuracy = VNone,
     cr_altitude = VNone, cr_speed = VInt 3, cr_direction = VInt 90, cr_latitude = Fin 47, cr_longitude = Fin 17\<rparr>"

definition ex_st_env :: st_env where
  "ex_st_env = \<lparr>st_events = True, st_now = 1000, st_now_text = [], st_fromtimestamp = (\<lambda>_. Inr ()),
     st_str_peer = (\<lambda>_. []), st_repr = (\<lambda>_. []),
     st_loads = (\<lambda>s. if s = u ''...'' then Inr (JObject (report_json (CoordReport ex_coord))) else Inl ValueError)\<rparr>"

theorem location_stored_witness:
  "\<exists>b d' dic. publish_report ex_env (Some ex_imei) (CoordReport ex_coord) = Inr b \<and>
    store_rept ex_st_env b ex_db = Inr d' \<and>
    fetch ex_imei 1 d' = fetch ex_imei 0 ex_db @ [dic] \<and>
    map_of dic (u ''latitude'') = Some (VFloat (Fin 47)) \<and> map_of dic (u ''imei'') = Some (VStr ex_imei)"
proof -
  have "plain_coord ex_coord" by (simp add: plain_coord_def plain_number_def ex_coord_def)
  moreover have own: "pm_own_imei Beesure ex_imei" by (simp add: ex_imei_def imei_digits_def)
  moreover have "ex_imei \<noteq> replicate 16 48" by (simp add: ex_imei_def Cons_replicate_eq)
  moreover have "(1 :: int) \<le> 1" by simp
  moreover have "ascii (re_dumps ex_env (report_json (CoordReport ex_coord)))" by (rule ex_env_simps)
  moreover have "st_loads ex_st_env (re_dumps ex_env (report_json (CoordReport ex_coord))) =
      Inr (JObject (report_json (CoordReport ex_coord)))"
    by (simp add: ex_st_env_def ex_env_def)
  moreover have "\<forall>q \<in> set (reports ex_db). rr_imei q = SText ex_imei \<longrightarrow> devtime_key q < cr_devtime ex_coord"
    by (simp add: ex_db_def ex_imei_def)
  ultimately obtain b d' dic where r: "publish_report ex_env (Some ex_imei) (CoordReport ex_coord) = Inr b"
    "store_rept ex_st_env b ex_db = Inr d'" "fetch ex_imei 1 d' = fetch ex_imei (1 - 1) ex_db @ [dic]"
    "map_of dic = (map_of (report_json (CoordReport ex_coord)))(u ''type'' := None, u ''imei'' \<mapsto> VStr ex_imei)"
    using location_stored [OF _ own, of ex_coord 1 ex_env ex_st_env ex_db] by blast
  then show ?thesis by (auto simp: ex_coord_def)
qed

text \<open>
  A wrong module is recorded for a terminal. The copy of a response that the collector publishes
  names the module of the last packet received (from any terminal), and storage notes it as the
  module of the terminal that the response went to, where the gateway looks it up.
\<close>

theorem wrong_module_recorded:
  assumes "server_inv sv" and "r_imei m = Some i" and "by_imei (s_clients sv) i = Some r"
    and "c_pmod (obj (s_clients sv) r) = Some pm" and "pm_sendable pm (r_packet m)"
    and "pm_proto_of_message pm (r_packet m) = Inr n" "fits16 n"
    and "fits16 i" "i \<noteq> replicate 16 48" and "last_pmod sv = Some lp"
    and now: "\<And>t. st_fromtimestamp env t = Inr ()"
  shows "\<exists>sv' msg. send_response m sv = Inr sv' \<and> published sv' = published sv @ [msg] \<and>
    (\<forall>d. \<exists>d'. store_raw env msg d = Inr d' \<and> fetchpmod (st_now env) i d' = Some (PMODNAME lp))"
proof -
  from outgoing_copy [OF assms(1-10)] obtain sv' msg b where
    s: "send_response m sv = Inr sv'" "published sv' = published sv @ [msg]"
    and b: "bcast_decode msg = Inr b" "b_imei b = Some i" "b_pmod b = Some (PMODNAME lp)" by blast
  have "fetchpmod (st_now env) i d' = Some (PMODNAME lp)" if st: "store_raw env msg d = Inr d'" for d d'
  proof -
    have "filter (\<lambda>(j, p, t). j = i \<and> t > st_now env - 3600) (filter (\<lambda>(j, _). j \<noteq> i) (pmodmap d)) = []"
      by (auto simp: filter_empty_conv)
    with store_raw_pmod [OF st b] show ?thesis by (simp add: fetchpmod_def stowpmod_def)
  qed
  with s store_raw_ok [OF b(1) now] show ?thesis by metis
qed

theorem wrong_module_recorded_witness:
  "\<exists>sv' msg. send_response \<lparr>r_imei = Some ex_imei, r_when = None, r_packet = ex_packet\<rparr> ex_server = Inr sv' \<and>
    published sv' = [msg] \<and>
    (\<exists>d'. store_raw ex_st_env msg ex_db = Inr d' \<and> fetchpmod 1000 ex_imei d' = Some (u ''zx303proto''))"
proof -
  let ?m = "\<lparr>r_imei = Some ex_imei, r_when = None, r_packet = ex_packet\<rparr>"
  have "by_imei (s_clients ex_server) ex_imei = Some 0"
    "c_pmod (obj (s_clients ex_server) 0) = Some Beesure" "last_pmod ex_server = Some Zx303"
    "published ex_server = []" "st_now ex_st_env = 1000" "\<And>t. st_fromtimestamp ex_st_env t = Inr ()"
    by (simp_all add: ex_server_def ex_clients_def ex_st_env_def)
  moreover have "pm_sendable Beesure (r_packet ?m)" using ex_packet_wf by (simp add: bs_wf_def)
  moreover have "pm_proto_of_message Beesure (r_packet ?m) = Inr (u ''BS:LK'')"
    by (simp add: ex_packet_def bs_proto_of_message_def bs_local_proto_def bs_data_def
        utf8_decode_ascii_bytes BS_PREFIX_def)
  moreover have "fits16 (u ''BS:LK'')" "fits16 ex_imei" "ex_imei \<noteq> replicate 16 48"
    by (simp_all add: fits16_ascii ascii_def ex_imei_def Cons_replicate_eq)
  ultimately show ?thesis
    using wrong_module_recorded [OF ex_server_inv, of ?m ex_imei 0 Beesure "u ''BS:LK''" Zx303 ex_st_env]
    by fastforce
qed

end
