(* ===== verification/Websocket.thy ===== *)
theory Websocket
  imports Json Zmsg "HOL-Library.AList"
begin

text \<open>
  A browser's connection to the gateway (\<open>class Client\<close> and \<open>class Clients\<close> of
  \<open>loctrkd/wsgateway.py\<close>), and the page served where there is no websocket. The protocol engine
  of the package \<open>wsproto\<close> is a parameter of the model: its states are a type variable, and
  receiving gives the events it reports, handled as the code handles them, or raises
  (\<open>RemoteProtocolError\<close>); sending gives the bytes of a frame, or raises where the connection is not open
  (\<open>LocalProtocolError\<close>), which the code does not catch. So are the JSON
  functions (objects nested in the values of an object are left out) and how much a socket takes.
\<close>

section \<open>What the connection uses\<close>

datatype ws_event = Ws_Request | Ws_Close | Ws_Ping | Ws_Text pystr | Ws_Other

datatype ws_out = Ws_Accept | Ws_Response ws_event | Ws_Message pystr

datatype html = No_File | Unreadable | Page bytes

datatype sock_input = In_Error | In_Bytes bytes

text \<open>\<open>we_sock_send\<close>: how many bytes the socket of a descriptor takes, or an \<open>OSError\<close>\<close>

record 'w ws_env =
  we_init :: 'w
  we_receive :: "'w \<Rightarrow> bytes option \<Rightarrow> (ws_event list \<times> 'w) res"
  we_send :: "'w \<Rightarrow> ws_out \<Rightarrow> (bytes \<times> 'w) res"
  we_loads :: "pystr \<Rightarrow> json res"
  we_dumps :: "attrs \<Rightarrow> pystr"
  we_html :: html
  we_sock_send :: "int \<Rightarrow> bytes \<Rightarrow> nat option"

text \<open>\<open>wc_out\<close> is what the socket has taken so far.\<close>

record 'w ws_client =
  wc_fd :: int
  wc_addr :: peeraddr
  wc_ws :: 'w
  wc_data :: bytes
  wc_ready :: bool
  wc_imeis :: "pyval list"
  wc_out :: bytes

definition ws_new :: "('w, 'e) ws_env_scheme \<Rightarrow> int \<Rightarrow> peeraddr \<Rightarrow> 'w ws_client" where
  "ws_new env fd addr = \<lparr>wc_fd = fd, wc_addr = addr, wc_ws = we_init env, wc_data = [],
     wc_ready = False, wc_imeis = [], wc_out = []\<rparr>"

section \<open>Plain HTTP\<close>

fun before_crlf :: "pystr \<Rightarrow> pystr" where
  "before_crlf (c # d # cs) = (if c = 13 \<and> d = 10 then [] else c # before_crlf (d # cs))"
| "before_crlf cs = cs"

definition CRLF :: pystr where
  "CRLF = [13, 10]"

definition http_plain :: "pystr \<Rightarrow> pystr \<Rightarrow> pystr \<Rightarrow> bytes res" where
  "http_plain proto status body =
     utf8_encode (proto @ status @ CRLF @ u ''Content-Type: text/plain'' @ CRLF @ CRLF @ body @ CRLF)"

definition http_reply :: "html \<Rightarrow> bytes \<Rightarrow> bytes res" where
  "http_reply html data =
     and_then (utf8_decode data) (\<lambda>txt.
       case split_on 32 (before_crlf txt) of
         [op, resource, proto] \<Rightarrow>
           if op = u ''GET'' then
             (case html of
                No_File \<Rightarrow> http_plain proto (u '' 500 No data configured'')
                  (u ''HTML data not configured on the server'')
              | Unreadable \<Rightarrow> http_plain proto (u '' 500 File not found'')
                  (u ''HTML file could not be opened'')
              | Page page \<Rightarrow>
                  and_then (utf8_encode (proto @ u '' 200 Ok'' @ CRLF @
                      u ''Content-Type: text/html; charset=utf-8'' @ CRLF @
                      u ''Content-Length: '' @ py_str_int (int (length page)) @ CRLF @ CRLF))
                    (\<lambda>header. Inr (header @ page)))
           else http_plain proto (u '' 400 Bad request'') (u ''Bad request'')
       | _ \<Rightarrow> Inl ValueError)"

text \<open>\<open>e\<close> is the exception of the websocket engine, raised again for data that is no HTTP.\<close>

definition try_http :: "html \<Rightarrow> bytes \<Rightarrow> py_exn \<Rightarrow> bytes res" where
  "try_http html data e =
     (case http_reply html data of
        Inr reply \<Rightarrow> Inr reply
      | Inl x \<Rightarrow> Inl (if is_ValueError x then e else x))"

section \<open>Client\<close>

definition ws_write :: "('w, 'e) ws_env_scheme \<Rightarrow> 'w ws_client \<Rightarrow> bool \<times> 'w ws_client" where
  "ws_write env c =
     (if wc_data c = [] then (False, c)
      else
        (case we_sock_send env (wc_fd c) (wc_data c) of
           Some n \<Rightarrow> (drop n (wc_data c) \<noteq> [],
             c\<lparr>wc_data := drop n (wc_data c), wc_out := wc_out c @ take n (wc_data c)\<rparr>)
         | None \<Rightarrow> (False, c\<lparr>wc_data := []\<rparr>)))"

text \<open>Iterating over a value: a string yields its characters. A list cannot be in a set.\<close>

fun py_iter :: "pyval \<Rightarrow> pyval list res" where
  "py_iter (VStr s) = Inr (map (\<lambda>c. VStr [c]) s)"
| "py_iter (VList vs) = Inr vs"
| "py_iter (VTup vs) = Inr vs"
| "py_iter (VBytes bs) = Inr (map (\<lambda>b. VInt (uint b)) bs)"
| "py_iter v = Inl TypeError"

fun hashable :: "pyval \<Rightarrow> bool" where
  "hashable (VList vs) = False"
| "hashable (VTup vs) = list_all hashable vs"
| "hashable v = True"

definition py_set :: "pyval \<Rightarrow> pyval list res" where
  "py_set v = and_then (py_iter v) (\<lambda>xs. if list_all hashable xs then Inr (remdups xs) else Inl TypeError)"

definition is_subscribe :: "attrs \<Rightarrow> bool" where
  "is_subscribe msg \<longleftrightarrow> map_of msg (u ''type'') = Some (VStr (u ''subscribe''))"

definition ws_append :: "('w, 'e) ws_env_scheme \<Rightarrow> ws_out \<Rightarrow> 'w ws_client \<Rightarrow> 'w ws_client res" where
  "ws_append env out c =
     and_then (we_send env (wc_ws c) out) (\<lambda>(b, w). Inr (c\<lparr>wc_ws := w, wc_data := wc_data c @ b\<rparr>))"

definition ws_handle :: "('w, 'e) ws_env_scheme \<Rightarrow> ws_event \<Rightarrow> attrs list \<times> 'w ws_client \<Rightarrow>
    (attrs list \<times> 'w ws_client) res" where
  "ws_handle env ev = (\<lambda>(msgs, c).
     case ev of
       Ws_Request \<Rightarrow> and_then (ws_append env Ws_Accept c) (\<lambda>c. Inr (msgs, c\<lparr>wc_ready := True\<rparr>))
     | Ws_Close \<Rightarrow> and_then (ws_append env (Ws_Response ev) c) (\<lambda>c. Inr (msgs, c))
     | Ws_Ping \<Rightarrow> and_then (ws_append env (Ws_Response ev) c) (\<lambda>c. Inr (msgs, c))
     | Ws_Text txt \<Rightarrow>
         and_then (we_loads env txt) (\<lambda>j.
           case j of
             JOther v \<Rightarrow> Inl AttributeError
           | JObject msg \<Rightarrow>
               if is_subscribe msg then
                 and_then (case map_of msg (u ''imei'') of None \<Rightarrow> Inr [] | Some v \<Rightarrow> py_set v)
                   (\<lambda>imeis. Inr (msgs @ [msg], c\<lparr>wc_imeis := imeis\<rparr>))
               else Inr (msgs @ [msg], c))
     | Ws_Other \<Rightarrow> Inr (msgs, c))"

text \<open>\<open>Client.recv\<close>: \<open>None\<close> when the connection is to be closed\<close>

definition ws_recv :: "('w, 'e) ws_env_scheme \<Rightarrow> sock_input \<Rightarrow> 'w ws_client \<Rightarrow>
    (attrs list option \<times> 'w ws_client) res" where
  "ws_recv env inp c =
     (case inp of
        In_Error \<Rightarrow> and_then (we_receive env (wc_ws c) None) (\<lambda>(_, w). Inr (None, c\<lparr>wc_ws := w\<rparr>))
      | In_Bytes data \<Rightarrow>
          if data = [] then and_then (we_receive env (wc_ws c) None) (\<lambda>(_, w). Inr (None, c\<lparr>wc_ws := w\<rparr>))
          else
            (case we_receive env (wc_ws c) (Some data) of
               Inl e \<Rightarrow>
                 if e = RemoteProtocolError then
                   and_then (try_http (we_html env) data e) (\<lambda>reply.
                     Inr (None, snd (ws_write env (c\<lparr>wc_data := reply\<rparr>))))
                 else Inl e
             | Inr (evs, w) \<Rightarrow>
                 and_then (fold_res (ws_handle env) evs ([], c\<lparr>wc_ws := w\<rparr>)) (\<lambda>(msgs, c).
                   Inr (Some msgs, c))))"

text \<open>\<open>message["imei"] in self.imeis\<close>\<close>

definition imei_in :: "attrs \<Rightarrow> 'w ws_client \<Rightarrow> bool res" where
  "imei_in msg c =
     (case map_of msg (u ''imei'') of
        None \<Rightarrow> Inl KeyError
      | Some v \<Rightarrow> if hashable v then Inr (v \<in> set (wc_imeis c)) else Inl TypeError)"

definition ws_client_send :: "('w, 'e) ws_env_scheme \<Rightarrow> attrs \<Rightarrow> 'w ws_client \<Rightarrow> 'w ws_client res" where
  "ws_client_send env msg c =
     (if wc_ready c then
        and_then (imei_in msg c) (\<lambda>b. if b then ws_append env (Ws_Message (we_dumps env msg)) c else Inr c)
      else Inr c)"

section \<open>Clients\<close>

text \<open>\<open>by_fd\<close>, in the order of insertion\<close>

type_synonym 'w ws_clients = "(int \<times> 'w ws_client) list"

definition ws_add :: "('w, 'e) ws_env_scheme \<Rightarrow> int \<Rightarrow> peeraddr \<Rightarrow> 'w ws_clients \<Rightarrow> 'w ws_clients" where
  "ws_add env fd addr cs = AList.update fd (ws_new env fd addr) cs"

definition ws_stop :: "int \<Rightarrow> 'w ws_clients \<Rightarrow> 'w ws_clients res" where
  "ws_stop fd cs = (if map_of cs fd = None then Inl KeyError else Inr (AList.delete fd cs))"

text \<open>\<open>Clients.send\<close> to everyone who wants the message: the descriptors to write to as well\<close>

fun ws_send_all :: "('w, 'e) ws_env_scheme \<Rightarrow> attrs \<Rightarrow> 'w ws_clients \<Rightarrow> (int set \<times> 'w ws_clients) res" where
  "ws_send_all env msg [] = Inr ({}, [])"
| "ws_send_all env msg ((fd, c) # cs) =
     and_then (imei_in msg c) (\<lambda>b.
     and_then (if b then ws_client_send env msg c else Inr c) (\<lambda>c'.
     and_then (ws_send_all env msg cs) (\<lambda>(fds, cs').
       Inr ((if b then insert fd fds else fds), (fd, c') # cs'))))"

text \<open>
  To one client, if it is still in service. A reference to a client is its descriptor: while the
  messages of a round wait to be sent no descriptor is given out again.
\<close>

definition ws_send_one :: "('w, 'e) ws_env_scheme \<Rightarrow> int \<Rightarrow> attrs \<Rightarrow> 'w ws_clients \<Rightarrow> (int set \<times> 'w ws_clients) res" where
  "ws_send_one env fd msg cs =
     (case map_of cs fd of
        None \<Rightarrow> Inr ({}, cs)
      | Some c \<Rightarrow> and_then (ws_client_send env msg c) (\<lambda>c'. Inr ({fd}, AList.update fd c' cs)))"

definition ws_write_all :: "('w, 'e) ws_env_scheme \<Rightarrow> int set \<Rightarrow> 'w ws_clients \<Rightarrow> int set \<times> 'w ws_clients" where
  "ws_write_all env fds cs =
     (set (map fst (filter (\<lambda>(fd, c). fd \<in> fds \<and> fst (ws_write env c)) cs)),
      map (\<lambda>(fd, c). (fd, if fd \<in> fds then snd (ws_write env c) else c)) cs)"

definition ws_subs :: "'w ws_clients \<Rightarrow> pyval list" where
  "ws_subs cs = remdups (concat (map (\<lambda>(fd, c). wc_imeis c) cs))"

end
