(* ===== verification/Wsgateway.thy ===== *)
theory Wsgateway
  imports Storage Websocket
begin

text \<open>
  The websocket gateway (\<open>loctrkd/wsgateway.py\<close>): the commands and queries of browsers, and one
  round of the loop as a function of the events that \<open>poll\<close> returned. The database, which the
  storage service writes, and the clock are those of the round.
\<close>

section \<open>Queries\<close>

record 'w gw_env = "'w ws_env" +
  ge_db :: db
  ge_now :: int
  ge_time :: "64 word"
  ge_datetime :: datetime
  ge_pmods :: "pmod list"
  ge_repr :: "pyval \<Rightarrow> pystr"
  ge_str :: "pyval \<Rightarrow> pystr"

text \<open>
  A key of any type is compared with a column of text as text; a limit must be an integer, or a
  number or text that is one.
\<close>

definition sql_key :: "'w gw_env \<Rightarrow> pyval \<Rightarrow> pystr option res" where
  "sql_key env v = and_then (sql_bind v) (\<lambda>k.
     Inr (case text_col (ge_repr env) k of SText s \<Rightarrow> Some s | _ \<Rightarrow> None))"

definition sql_int :: "pyval \<Rightarrow> int res" where
  "sql_int v = and_then (sql_bind v) (\<lambda>k.
     case real_col k of
       SReal (Fin q) \<Rightarrow> if of_int \<lfloor>q\<rfloor> = q then Inr \<lfloor>q\<rfloor> else Inl IntegrityError
     | _ \<Rightarrow> Inl IntegrityError)"

definition backlog_message :: "attrs \<Rightarrow> attrs res" where
  "backlog_message report =
     (let report1 = AList.update (u ''type'') (VStr (u ''location'')) report in
      case map_of report1 (u ''devtime'') of
        None \<Rightarrow> Inl KeyError
      | Some timestamp \<Rightarrow> Inr (AList.update (u ''timestamp'') timestamp (without (u ''devtime'') report1)))"

definition backlog :: "'w gw_env \<Rightarrow> pyval \<Rightarrow> pyval \<Rightarrow> attrs list res" where
  "backlog env imei numback =
     and_then (sql_key env imei) (\<lambda>key.
     and_then (sql_int numback) (\<lambda>n.
       map_res backlog_message (case key of None \<Rightarrow> [] | Some i \<Rightarrow> fetch i n (ge_db env))))"

section \<open>Commands\<close>

fun pout_packed :: "datetime \<Rightarrow> pout \<Rightarrow> bytes res" where
  "pout_packed now (Zx_Out c a) = and_then (zx_out_encode now c a) (zx_packed None c)"
| "pout_packed now (Bs_Out c a) = and_then (bs_out_encode c a) (bs_packed c)"

definition cmdresult :: "pyval \<Rightarrow> pystr \<Rightarrow> attrs" where
  "cmdresult imei result =
     [(u ''type'', VStr (u ''cmdresult'')), (u ''imei'', imei), (u ''result'', VStr result)]"

text \<open>
  The result, and the message pushed to the collector if any. A command that is no string equals
  none that the modules know; an IMEI that is none cannot be packed. A message with an attribute that
  has the name of a parameter of \<open>make_response\<close> makes the call raise.
\<close>

definition gw_response :: "'w gw_env \<Rightarrow> pystr \<Rightarrow> pyval \<Rightarrow> pyval \<Rightarrow> attrs \<Rightarrow> pout option res" where
  "gw_response env pmod cmd imei kwargs =
     (if map_of kwargs (u ''pmodname'') \<noteq> None \<or> map_of kwargs (u ''cmd'') \<noteq> None then Inl TypeError
      else
        (case cmd of
           VStr c \<Rightarrow> common_make_response (ge_repr env) (ge_pmods env) pmod c (ge_str env imei) kwargs
         | _ \<Rightarrow> Inr None))"

definition sendcmd :: "'w gw_env \<Rightarrow> attrs \<Rightarrow> (attrs \<times> bytes option) res" where
  "sendcmd env wsmsg =
     (let imei = or_default wsmsg (u ''imei'') VNone;
          cmd = or_default wsmsg (u ''type'') VNone;
          rest = without (u ''type'') (without (u ''imei'') wsmsg)
      in if imei = VNone \<or> cmd = VNone then Inr (cmdresult imei (u ''Did not get imei or cmd''), None)
      else
        and_then (sql_key env imei) (\<lambda>key.
          case (case key of None \<Rightarrow> None | Some i \<Rightarrow> fetchpmod (ge_now env) i (ge_db env)) of
            None \<Rightarrow> Inr (cmdresult imei (u ''Type of the terminal is unknown''), None)
          | Some pmod \<Rightarrow>
              and_then (gw_response env pmod cmd imei rest) (\<lambda>tmsg.
                case tmsg of
                  None \<Rightarrow> Inr (cmdresult imei
                    (ge_str env cmd @ u '' unimplemented for terminal protocol '' @ pmod), None)
                | Some t \<Rightarrow>
                    and_then (pout_packed (ge_datetime env) t) (\<lambda>packet.
                      case imei of
                        VStr i \<Rightarrow>
                          and_then (resp_packed \<lparr>r_imei = Some i, r_when = Some (ge_time env), r_packet = packet\<rparr>)
                            (\<lambda>b. Inr (cmdresult imei (ge_str env cmd @ u '' sent to '' @ ge_str env imei), Some b))
                      | _ \<Rightarrow> Inl AttributeError))))"

section \<open>The service\<close>

text \<open>
  \<open>gw_topics\<close> are the subscriptions of the ZeroMQ socket, \<open>gw_polled\<close> the descriptors
  registered with the poller, with whether writing is waited for.
\<close>

record 'w gateway =
  gw_clients :: "'w ws_clients"
  gw_active :: "pyval list"
  gw_topics :: "bytes list"
  gw_polled :: "int \<rightharpoonup> bool"
  gw_towait :: "int set"
  gw_pushed :: "bytes list"

definition init_gateway :: "'w gateway" where
  "init_gateway = \<lparr>gw_clients = [], gw_active = [], gw_topics = [], gw_polled = Map.empty,
     gw_towait = {}, gw_pushed = []\<rparr>"

definition val_topic :: "pyval \<Rightarrow> bytes res" where
  "val_topic v = (case v of VStr s \<Rightarrow> rtopic s | _ \<Rightarrow> Inl AttributeError)"

definition update_subs :: "'w gateway \<Rightarrow> 'w gateway res" where
  "update_subs g =
     (let needed = ws_subs (gw_clients g) in
      and_then (map_res val_topic (filter (\<lambda>v. v \<notin> set (gw_active g)) needed)) (\<lambda>new.
      and_then (map_res val_topic (filter (\<lambda>v. v \<notin> set needed) (gw_active g))) (\<lambda>gone.
        Inr (g\<lparr>gw_topics := foldl (\<lambda>ts t. remove1 t ts) (gw_topics g @ new) gone, gw_active := needed\<rparr>))))"

datatype gw_event =
    Sub_Ready "bytes list"
  | Connection int peeraddr
  | Readable int sock_input
  | Writable int
  | Connection_Fails
  | Stray

record gw_batch =
  gb_tosend :: "(int option \<times> attrs) list"
  gb_topoll :: "(int \<times> peeraddr) list"
  gb_tostop :: "int list"
  gb_towrite :: "int set"

definition no_batch :: gw_batch where
  "no_batch = \<lparr>gb_tosend = [], gb_topoll = [], gb_tostop = [], gb_towrite = {}\<rparr>"

definition live_message :: "'w gw_env \<Rightarrow> bytes \<Rightarrow> attrs res" where
  "live_message env b =
     and_then (rept_decode b) (\<lambda>zmsg.
     and_then (we_loads env (p_payload zmsg)) (\<lambda>j.
       case j of
         JOther v \<Rightarrow> Inl TypeError
       | JObject msg \<Rightarrow> Inr (AList.update (u ''imei'') (opt_str (p_imei zmsg)) msg)))"

text \<open>A message of a browser: what is sent back, and what is pushed\<close>

definition browser_message :: "'w gw_env \<Rightarrow> attrs \<Rightarrow> (attrs list \<times> bytes option) res" where
  "browser_message env wsmsg =
     (if is_subscribe wsmsg then
        and_then (py_iter (or_default wsmsg (u ''imei'') VNone)) (\<lambda>imeis.
        and_then (map_res (\<lambda>imei. backlog env imei (or_default wsmsg (u ''backlog'') (VInt 5))) imeis) (\<lambda>mss.
          Inr (concat mss, None)))
      else and_then (sendcmd env wsmsg) (\<lambda>(r, b). Inr ([r], b)))"

definition browser_messages :: "'w gw_env \<Rightarrow> int \<Rightarrow> attrs \<Rightarrow>
    'w gateway \<times> gw_batch \<Rightarrow> ('w gateway \<times> gw_batch) res" where
  "browser_messages env fd wsmsg = (\<lambda>(g, bt).
     and_then (browser_message env wsmsg) (\<lambda>(ms, b).
       Inr (g\<lparr>gw_pushed := gw_pushed g @ (case b of None \<Rightarrow> [] | Some x \<Rightarrow> [x])\<rparr>,
            bt\<lparr>gb_tosend := gb_tosend bt @ map (\<lambda>m. (Some fd, m)) ms\<rparr>)))"

definition gw_event_step :: "'w gw_env \<Rightarrow> gw_event \<Rightarrow> 'w gateway \<times> gw_batch \<Rightarrow> ('w gateway \<times> gw_batch) res" where
  "gw_event_step env ev = (\<lambda>(g, bt).
     case ev of
       Sub_Ready msgs \<Rightarrow>
         and_then (map_res (live_message env) msgs) (\<lambda>ms.
           Inr (g, bt\<lparr>gb_tosend := gb_tosend bt @ map (\<lambda>m. (None, m)) ms\<rparr>))
     | Connection fd addr \<Rightarrow> Inr (g, bt\<lparr>gb_topoll := gb_topoll bt @ [(fd, addr)]\<rparr>)
     | Readable fd inp \<Rightarrow>
         (case map_of (gw_clients g) fd of
            None \<Rightarrow> Inl KeyError
          | Some c \<Rightarrow>
              and_then (ws_recv env inp c) (\<lambda>(received, c').
              let g1 = g\<lparr>gw_clients := AList.update fd c' (gw_clients g)\<rparr> in
              case received of
                None \<Rightarrow> Inr (g1\<lparr>gw_towait := gw_towait g1 - {fd}\<rparr>, bt\<lparr>gb_tostop := gb_tostop bt @ [fd]\<rparr>)
              | Some msgs \<Rightarrow>
                  and_then (fold_res (browser_messages env fd) msgs (g1, bt)) (\<lambda>(g2, bt2).
                    Inr (g2, bt2\<lparr>gb_towrite := insert fd (gb_towrite bt2)\<rparr>))))
     | Writable fd \<Rightarrow> Inr (g\<lparr>gw_towait := gw_towait g - {fd}\<rparr>, bt\<lparr>gb_towrite := insert fd (gb_towrite bt)\<rparr>)
     | Connection_Fails \<Rightarrow> Inl OSError
     | Stray \<Rightarrow> Inr (g, bt))"

definition stop_client :: "int \<Rightarrow> 'w gateway \<Rightarrow> 'w gateway res" where
  "stop_client fd g =
     (if gw_polled g fd = None then Inl KeyError
      else and_then (ws_stop fd (gw_clients g)) (\<lambda>cs.
        Inr (g\<lparr>gw_clients := cs, gw_polled := (gw_polled g)(fd := None)\<rparr>)))"

definition send_message :: "'w gw_env \<Rightarrow> int option \<times> attrs \<Rightarrow> 'w gateway \<times> int set \<Rightarrow> ('w gateway \<times> int set) res" where
  "send_message env = (\<lambda>(towhom, msg) (g, towrite).
     and_then (case towhom of
         None \<Rightarrow> ws_send_all env msg (gw_clients g)
       | Some fd \<Rightarrow> ws_send_one env fd msg (gw_clients g))
       (\<lambda>(fds, cs). Inr (g\<lparr>gw_clients := cs\<rparr>, towrite \<union> fds)))"

definition start_client :: "'w gw_env \<Rightarrow> int \<times> peeraddr \<Rightarrow> 'w gateway \<Rightarrow> 'w gateway" where
  "start_client env = (\<lambda>(fd, addr) g.
     g\<lparr>gw_clients := ws_add env fd addr (gw_clients g), gw_polled := (gw_polled g)(fd \<mapsto> False)\<rparr>)"

text \<open>The end of a round: writing, and what the poller waits for\<close>

definition write_out :: "'w gw_env \<Rightarrow> int set \<Rightarrow> 'w gateway \<Rightarrow> 'w gateway" where
  "write_out env towrite g =
     (let trywrite = towrite - gw_towait g;
          (morewait, cs) = ws_write_all env trywrite (gw_clients g);
          polled1 = (\<lambda>fd. if fd \<in> morewait - trywrite then Some True else gw_polled g fd);
          polled2 = (\<lambda>fd. if fd \<in> trywrite - morewait then Some False else polled1 fd)
      in g\<lparr>gw_clients := cs, gw_polled := polled2, gw_towait := (gw_towait g \<inter> trywrite) \<union> morewait\<rparr>)"

definition gw_round :: "'w gw_env \<Rightarrow> gw_event list \<Rightarrow> 'w gateway \<Rightarrow> 'w gateway res" where
  "gw_round env evs g =
     and_then (update_subs g) (\<lambda>g0.
     and_then (fold_res (gw_event_step env) evs (g0, no_batch)) (\<lambda>(g1, bt).
     and_then (fold_res stop_client (gb_tostop bt) g1) (\<lambda>g2.
     and_then (fold_res (send_message env) (gb_tosend bt) (g2, gb_towrite bt)) (\<lambda>(g3, towrite).
       Inr (write_out env towrite (foldl (\<lambda>g x. start_client env x g) g3 (gb_topoll bt)))))))"

end
