(* ===== verification/Browsers.thy ===== *)
theory Browsers
  imports Wsgateway
begin

text \<open>
  What the gateway does for its browsers: its invariant, who gets a report, what a subscription is
  answered with, what becomes of a command, and what ends the service.
\<close>

section \<open>The invariant\<close>

text \<open>
  The poller watches exactly the connections, and never for writing; the topics subscribed to are
  those of the IMEIs wanted when the round began.
\<close>

definition ws_fds :: "'w ws_clients \<Rightarrow> int set" where
  "ws_fds cs = set (map fst cs)"

lemma ws_fds_update [simp]: "ws_fds (AList.update fd c cs) = insert fd (ws_fds cs)"
  by (auto simp: ws_fds_def update_keys)

lemma keys_update: "fd \<in> ws_fds cs \<Longrightarrow> map fst (AList.update fd c cs) = map fst cs"
  by (simp add: ws_fds_def update_keys)

lemma ws_fds_delete [simp]: "ws_fds (AList.delete fd cs) = ws_fds cs - {fd}"
  by (auto simp: ws_fds_def AList.delete_eq)

lemma map_of_ws_fds: "map_of cs fd = Some c \<Longrightarrow> fd \<in> ws_fds cs \<and> (fd, c) \<in> set cs"
  by (force simp: ws_fds_def dest: map_of_SomeD)

lemma ws_fds_same: "map fst cs' = map fst cs \<Longrightarrow> ws_fds cs' = ws_fds cs"
  by (simp add: ws_fds_def)

definition topics_of :: "pyval list \<Rightarrow> bytes list \<Rightarrow> bool" where
  "topics_of vs topics \<longleftrightarrow> (\<exists>ts. map_res val_topic vs = Inr ts \<and> mset ts = mset topics)"

definition polls :: "'w ws_clients \<Rightarrow> (int \<rightharpoonup> bool) \<Rightarrow> bool" where
  "polls cs polled \<longleftrightarrow> distinct (map fst cs) \<and> dom polled = ws_fds cs \<and>
     (\<forall>fd. polled fd \<noteq> Some True) \<and> (\<forall>(fd, c) \<in> set cs. wc_fd c = fd)"

definition gw_inv :: "'w gateway \<Rightarrow> bool" where
  "gw_inv g \<longleftrightarrow> polls (gw_clients g) (gw_polled g) \<and> gw_towait g \<subseteq> ws_fds (gw_clients g) \<and>
     distinct (gw_active g) \<and> topics_of (gw_active g) (gw_topics g)"

text \<open>What poll reports: a descriptor once, and writing only where that was asked for\<close>

definition read_fds :: "gw_event list \<Rightarrow> int list" where
  "read_fds evs = concat (map (\<lambda>ev. case ev of Readable fd inp \<Rightarrow> [fd] | _ \<Rightarrow> []) evs)"

definition from_poll :: "'w gateway \<Rightarrow> gw_event list \<Rightarrow> bool" where
  "from_poll g evs \<longleftrightarrow> distinct (read_fds evs) \<and> (\<forall>fd. Writable fd \<in> set evs \<longrightarrow> gw_polled g fd = Some True)"

inductive gw_reachable :: "'w gateway \<Rightarrow> bool" where
  start: "gw_reachable init_gateway"
| round: "gw_reachable g \<Longrightarrow> from_poll g evs \<Longrightarrow> gw_round env evs g = Inr g' \<Longrightarrow> gw_reachable g'"

lemma map_res_map: "map_res f xs = Inr ys \<Longrightarrow> ys = map (\<lambda>x. projr (f x)) xs \<and> (\<forall>x \<in> set xs. f x = Inr (projr (f x)))"
  by (induction xs arbitrary: ys) (auto simp: res_simps)

lemma map_res_returns: "\<forall>x \<in> set xs. f x = Inr (projr (f x)) \<Longrightarrow> map_res f xs = Inr (map (\<lambda>x. projr (f x)) xs)"
proof (induction xs)
  case (Cons x xs)
  then obtain y where "f x = Inr y" by (metis list.set_intros(1))
  with Cons show ?case by simp
qed simp

lemma mset_foldl_remove1: "mset (foldl (\<lambda>ts t. remove1 t ts) ts gone) = mset ts - mset gone"
  by (induction gone arbitrary: ts) simp_all

lemma mset_common:
  assumes "distinct xs" and "distinct ys"
  shows "mset (filter (\<lambda>x. x \<in> set ys) xs) = mset (filter (\<lambda>x. x \<in> set xs) ys)"
  using assms by (intro set_eq_iff_mset_eq_distinct [THEN iffD1]) auto

lemma mset_split: "mset xs = mset (filter P xs) + mset (filter (\<lambda>x. \<not> P x) xs)"
  by (induction xs) auto

lemma update_subs_topics:
  assumes "distinct (gw_active g)" and "topics_of (gw_active g) (gw_topics g)"
    and "update_subs g = Inr g0"
  shows "distinct (gw_active g0) \<and> topics_of (gw_active g0) (gw_topics g0) \<and>
    gw_active g0 = ws_subs (gw_clients g) \<and> gw_clients g0 = gw_clients g \<and>
    gw_polled g0 = gw_polled g \<and> gw_towait g0 = gw_towait g"
proof -
  let ?A = "gw_active g" and ?N = "ws_subs (gw_clients g)" and ?p = "\<lambda>v. projr (val_topic v)"
  from assms(3) obtain new gone where
    new: "map_res val_topic (filter (\<lambda>v. v \<notin> set ?A) ?N) = Inr new" and
    gone: "map_res val_topic (filter (\<lambda>v. v \<notin> set ?N) ?A) = Inr gone" and
    g0: "g0 = g\<lparr>gw_topics := foldl (\<lambda>ts t. remove1 t ts) (gw_topics g @ new) gone, gw_active := ?N\<rparr>"
    by (auto simp: update_subs_def Let_def res_simps)
  from assms(2) obtain ts where ts: "map_res val_topic ?A = Inr ts" "mset ts = mset (gw_topics g)"
    by (auto simp: topics_of_def)
  note m = map_res_map [OF new] map_res_map [OF gone] map_res_map [OF ts(1)]
  have "distinct ?N" by (simp add: ws_subs_def)
  have "\<forall>v \<in> set ?N. val_topic v = Inr (?p v)" using m by auto
  then have N: "map_res val_topic ?N = Inr (map ?p ?N)" by (rule map_res_returns)
  let ?I = "\<lambda>P xs. image_mset ?p (mset (filter P xs))"
  have "mset (gw_topics g) = image_mset ?p (mset ?A)" using m ts(2) by (metis mset_map)
  also have "\<dots> = ?I (\<lambda>v. v \<in> set ?N) ?A + ?I (\<lambda>v. v \<notin> set ?N) ?A"
    by (subst mset_split [of ?A "\<lambda>v. v \<in> set ?N"]) (rule image_mset_union)
  also have "?I (\<lambda>v. v \<in> set ?N) ?A = ?I (\<lambda>v. v \<in> set ?A) ?N"
    using mset_common [OF assms(1) \<open>distinct ?N\<close>] by simp
  finally have "mset (gw_topics g) = ?I (\<lambda>v. v \<in> set ?A) ?N + ?I (\<lambda>v. v \<notin> set ?N) ?A" .
  moreover have "mset new = ?I (\<lambda>v. v \<notin> set ?A) ?N" "mset gone = ?I (\<lambda>v. v \<notin> set ?N) ?A"
    using m by (metis mset_map)+
  ultimately have "mset (gw_topics g0) = ?I (\<lambda>v. v \<in> set ?A) ?N + ?I (\<lambda>v. v \<notin> set ?A) ?N"
    unfolding g0 by (simp add: mset_foldl_remove1 del: mset_filter)
  also have "\<dots> = image_mset ?p (mset ?N)"
    using mset_split [of ?N "\<lambda>v. v \<in> set ?A"] by (simp only: image_mset_union)
  finally have "mset (gw_topics g0) = mset (map ?p ?N)" by simp
  with N \<open>distinct ?N\<close> show ?thesis by (simp add: topics_of_def g0)
qed

section \<open>Rounds keep it\<close>

lemma ws_append_kept: "ws_append env out c = Inr c' \<Longrightarrow> wc_fd c' = wc_fd c"
  by (auto simp: ws_append_def res_simps)

lemma fold_res_invariant:
  assumes "fold_res f xs s = Inr s'" and "P s"
    and "\<And>x s s'. x \<in> set xs \<Longrightarrow> f x s = Inr s' \<Longrightarrow> P s \<Longrightarrow> P s'"
  shows "P s'"
  using assms by (induction xs arbitrary: s) (auto simp: res_simps)

lemma ws_handle_kept:
  assumes "ws_handle env ev (ms, c) = Inr (ms', c')"
  shows "wc_fd c' = wc_fd c"
proof (cases ev)
  case (Ws_Text body)
  with assms obtain j where j: "we_loads env body = Inr j" by (auto simp: ws_handle_def res_simps)
  show ?thesis
    using assms Ws_Text j by (cases j) (auto simp: ws_handle_def res_simps split: if_splits)
qed (use assms ws_append_kept in \<open>auto simp: ws_handle_def res_simps\<close>)

lemma ws_write_kept: "wc_fd (snd (ws_write env c)) = wc_fd c"
  by (simp add: ws_write_def split: option.split)

lemma ws_recv_kept:
  assumes "ws_recv env inp c = Inr (r, c')"
  shows "wc_fd c' = wc_fd c"
proof -
  have "wc_fd c2 = wc_fd c1" if "fold_res (ws_handle env) evs ([], c1) = Inr (ms, c2)" for evs ms c1 c2
    using fold_res_invariant [OF that, of "\<lambda>x. wc_fd (snd x) = wc_fd c1"] ws_handle_kept by fastforce
  note msgs = this
  show ?thesis
  proof (cases inp)
    case In_Error
    with assms show ?thesis by (auto simp: ws_recv_def res_simps)
  next
    case (In_Bytes data)
    show ?thesis
    proof (cases "we_receive env (wc_ws c) (Some data)")
      case (Inl e)
      with assms In_Bytes show ?thesis
        by (auto simp: ws_recv_def res_simps ws_write_kept split: if_splits)
    next
      case (Inr x)
      with assms In_Bytes show ?thesis
        by (auto simp: ws_recv_def res_simps split: if_splits prod.splits dest: msgs)
    qed
  qed
qed

lemma ws_client_send_kept: "ws_client_send env msg c = Inr c' \<Longrightarrow> wc_fd c' = wc_fd c"
  by (auto simp: ws_client_send_def res_simps ws_append_kept split: if_splits)

lemma polls_update:
  assumes "polls cs polled" and "fd \<in> ws_fds cs" and "wc_fd c = fd"
  shows "polls (AList.update fd c cs) polled"
proof -
  have "set (AList.update fd c cs) \<subseteq> insert (fd, c) (set cs)" by (induction cs) auto
  with assms show ?thesis by (auto simp: polls_def update_keys distinct_update)
qed

lemma ws_send_all_kept: "ws_send_all env msg cs = Inr (ks, cs') \<Longrightarrow>
    map fst cs' = map fst cs \<and> map (wc_fd \<circ> snd) cs' = map (wc_fd \<circ> snd) cs"
  by (induction env msg cs arbitrary: ks cs' rule: ws_send_all.induct)
    (auto simp: res_simps split: if_splits dest: ws_client_send_kept)

lemma own_keys: "(\<forall>(fd, c) \<in> set cs. wc_fd c = fd) \<longleftrightarrow> map (wc_fd \<circ> snd) cs = map fst cs"
  by auto

lemma polls_same_keys:
  assumes "polls cs polled" and "map fst cs' = map fst cs" and "map (wc_fd \<circ> snd) cs' = map (wc_fd \<circ> snd) cs"
  shows "polls cs' polled"
proof -
  from assms(1) have "map (wc_fd \<circ> snd) cs = map fst cs" unfolding polls_def own_keys by (elim conjE)
  then have "map (wc_fd \<circ> snd) cs' = map fst cs'" by (simp only: assms(2,3))
  moreover have "distinct (map fst cs')" "dom polled = ws_fds cs'" "\<forall>fd. polled fd \<noteq> Some True"
    unfolding assms(2) using assms(1) ws_fds_same [OF assms(2)] by (simp_all add: polls_def)
  ultimately show ?thesis unfolding polls_def own_keys by (intro conjI)
qed

text \<open>What the handling of the events changes\<close>

definition gw_mid :: "'w gateway \<Rightarrow> 'w gateway \<times> gw_batch \<Rightarrow> bool" where
  "gw_mid g0 = (\<lambda>(g, bt).
     polls (gw_clients g) (gw_polled g) \<and> map fst (gw_clients g) = map fst (gw_clients g0) \<and>
     gw_towait g \<subseteq> gw_towait g0 - set (gb_tostop bt) \<and>
     gb_towrite bt \<subseteq> ws_fds (gw_clients g) - set (gb_tostop bt) \<and>
     gw_active g = gw_active g0 \<and> gw_topics g = gw_topics g0 \<and> gw_polled g = gw_polled g0)"

lemma browser_messages_kept:
  assumes "browser_messages env fd msg (g, bt) = Inr (g', bt')"
  shows "gw_clients g' = gw_clients g \<and> gw_polled g' = gw_polled g \<and> gw_towait g' = gw_towait g \<and>
    gw_active g' = gw_active g \<and> gw_topics g' = gw_topics g \<and> gb_tostop bt' = gb_tostop bt \<and>
    gb_topoll bt' = gb_topoll bt \<and> gb_towrite bt' = gb_towrite bt \<and>
    (\<exists>ms. gb_tosend bt' = gb_tosend bt @ map (\<lambda>m. (Some fd, m)) ms)"
  using assms by (auto simp: browser_messages_def res_simps)

lemma all_browser_messages_kept:
  assumes "fold_res (browser_messages env fd) msgs (g, bt) = Inr (g', bt')"
  shows "gw_clients g' = gw_clients g \<and> gw_polled g' = gw_polled g \<and> gw_towait g' = gw_towait g \<and>
    gw_active g' = gw_active g \<and> gw_topics g' = gw_topics g \<and> gb_tostop bt' = gb_tostop bt \<and>
    gb_topoll bt' = gb_topoll bt \<and> gb_towrite bt' = gb_towrite bt \<and>
    (\<exists>ms. gb_tosend bt' = gb_tosend bt @ map (\<lambda>m. (Some fd, m)) ms)"
  using assms
proof (induction msgs arbitrary: g bt)
  case Nil
  then show ?case by (auto intro: exI [of _ "[]"])
next
  case (Cons m msgs)
  then obtain g1 bt1 where 1: "browser_messages env fd m (g, bt) = Inr (g1, bt1)"
    "fold_res (browser_messages env fd) msgs (g1, bt1) = Inr (g', bt')" by (auto simp: res_simps)
  note k = browser_messages_kept [OF 1(1)] Cons.IH [OF 1(2)]
  then obtain ms1 ms2 where "gb_tosend bt' = gb_tosend bt @ map (\<lambda>m. (Some fd, m)) (ms1 @ ms2)" by auto
  then have "\<exists>ms. gb_tosend bt' = gb_tosend bt @ map (\<lambda>m. (Some fd, m)) ms" by (rule exI)
  with k show ?case by (intro conjI) (elim conjE; simp; fail)+
qed

lemma gw_event_step_readable:
  assumes "gw_event_step env (Readable fd inp) (g, bt) = Inr (g', bt')"
  shows "\<exists>c c' r. map_of (gw_clients g) fd = Some c \<and> ws_recv env inp c = Inr (r, c') \<and>
    gw_clients g' = AList.update fd c' (gw_clients g) \<and> gw_polled g' = gw_polled g \<and>
    gw_active g' = gw_active g \<and> gw_topics g' = gw_topics g \<and> gb_topoll bt' = gb_topoll bt \<and>
    (\<exists>ms. gb_tosend bt' = gb_tosend bt @ map (\<lambda>m. (Some fd, m)) ms) \<and>
    (if r = None then gw_towait g' = gw_towait g - {fd} \<and> gb_tostop bt' = gb_tostop bt @ [fd] \<and>
        gb_towrite bt' = gb_towrite bt
     else gw_towait g' = gw_towait g \<and> gb_tostop bt' = gb_tostop bt \<and> gb_towrite bt' = insert fd (gb_towrite bt))"
proof -
  from assms obtain c where c: "map_of (gw_clients g) fd = Some c"
    by (auto simp: gw_event_step_def split: option.splits)
  with assms obtain r c' where r: "ws_recv env inp c = Inr (r, c')"
    by (auto simp: gw_event_step_def res_simps)
  show ?thesis
  proof (cases r)
    case None
    with assms c r show ?thesis by (auto simp: gw_event_step_def Let_def intro!: exI [of _ "[]"])
  next
    case (Some msgs)
    with assms c r obtain bt2 where
      f: "fold_res (browser_messages env fd) msgs (g\<lparr>gw_clients := AList.update fd c' (gw_clients g)\<rparr>, bt) = Inr (g', bt2)"
      "bt' = bt2\<lparr>gb_towrite := insert fd (gb_towrite bt2)\<rparr>"
      by (auto simp: gw_event_step_def Let_def res_simps)
    from all_browser_messages_kept [OF f(1)] f(2) c r Some show ?thesis by auto
  qed
qed

lemma gw_event_step_mid:
  assumes "gw_event_step env ev (g, bt) = Inr (g', bt')" and "gw_mid g0 (g, bt)"
    and "\<And>fd. ev \<noteq> Writable fd" and "set (read_fds [ev]) \<inter> (set (gb_tostop bt) \<union> gb_towrite bt) = {}"
  shows "gw_mid g0 (g', bt') \<and>
    set (gb_tostop bt') \<union> gb_towrite bt' \<subseteq> set (read_fds [ev]) \<union> set (gb_tostop bt) \<union> gb_towrite bt"
proof (cases ev)
  case (Readable fd inp)
  from gw_event_step_readable [OF assms(1) [unfolded Readable]] obtain c c' r where
    c: "map_of (gw_clients g) fd = Some c" "ws_recv env inp c = Inr (r, c')"
    and s: "gw_clients g' = AList.update fd c' (gw_clients g)" "gw_polled g' = gw_polled g"
      "gw_active g' = gw_active g" "gw_topics g' = gw_topics g"
      "if r = None then gw_towait g' = gw_towait g - {fd} \<and> gb_tostop bt' = gb_tostop bt @ [fd] \<and>
         gb_towrite bt' = gb_towrite bt
       else gw_towait g' = gw_towait g \<and> gb_tostop bt' = gb_tostop bt \<and> gb_towrite bt' = insert fd (gb_towrite bt)"
    by fastforce
  from c(1) have k: "fd \<in> ws_fds (gw_clients g)" "(fd, c) \<in> set (gw_clients g)"
    using map_of_ws_fds by fast+
  have p: "polls (gw_clients g) (gw_polled g)" using assms(2) by (auto simp: gw_mid_def)
  with k(2) have "wc_fd c = fd" by (auto simp: polls_def)
  with ws_recv_kept [OF c(2)] polls_update [OF p k(1), of c'] have "polls (gw_clients g') (gw_polled g')"
    by (simp add: s)
  with assms(2,4) s k(1) show ?thesis
    by (auto simp: gw_mid_def keys_update Readable read_fds_def split: if_splits)
qed (use assms in \<open>auto simp: gw_event_step_def gw_mid_def res_simps\<close>)

lemma gw_events_mid:
  assumes "fold_res (gw_event_step env) evs (g, bt) = Inr (g', bt')" and "gw_mid g0 (g, bt)"
    and "\<And>fd. Writable fd \<notin> set evs" and "distinct (read_fds evs)"
    and "set (read_fds evs) \<inter> (set (gb_tostop bt) \<union> gb_towrite bt) = {}"
  shows "gw_mid g0 (g', bt')"
  using assms
proof (induction evs arbitrary: g bt)
  case (Cons ev evs)
  then obtain g1 bt1 where 1: "gw_event_step env ev (g, bt) = Inr (g1, bt1)"
    "fold_res (gw_event_step env) evs (g1, bt1) = Inr (g', bt')" by (auto simp: res_simps)
  have rd: "read_fds (ev # evs) = read_fds [ev] @ read_fds evs" by (simp add: read_fds_def)
  have "ev \<noteq> Writable fd" for fd using Cons.prems(3) [of fd] by auto
  moreover have "set (read_fds [ev]) \<inter> (set (gb_tostop bt) \<union> gb_towrite bt) = {}"
    using Cons.prems(5) unfolding rd by auto
  ultimately have 2: "gw_mid g0 (g1, bt1)"
    "set (gb_tostop bt1) \<union> gb_towrite bt1 \<subseteq> set (read_fds [ev]) \<union> set (gb_tostop bt) \<union> gb_towrite bt"
    using gw_event_step_mid [OF 1(1) Cons.prems(2)] by auto
  show ?case
    by (rule Cons.IH [OF 1(2) 2(1)]) (use Cons.prems(3-5) 2(2) in \<open>auto simp: rd\<close>)
qed simp

lemma stop_client_inv:
  assumes "stop_client fd g = Inr g'" and "polls (gw_clients g) (gw_polled g)"
  shows "polls (gw_clients g') (gw_polled g') \<and> ws_fds (gw_clients g') = ws_fds (gw_clients g) - {fd} \<and>
    gw_towait g' = gw_towait g \<and> gw_active g' = gw_active g \<and> gw_topics g' = gw_topics g \<and>
    gw_clients g' = AList.delete fd (gw_clients g)"
proof -
  from assms(1) have g': "g' = g\<lparr>gw_clients := AList.delete fd (gw_clients g), gw_polled := (gw_polled g)(fd := None)\<rparr>"
    by (auto simp: stop_client_def ws_stop_def res_simps split: if_splits)
  have "set (AList.delete fd (gw_clients g)) \<subseteq> set (gw_clients g)" by (auto simp: AList.delete_eq)
  then show ?thesis using assms(2) by (auto simp: g' polls_def distinct_delete)
qed

lemma stop_clients_inv:
  assumes "fold_res stop_client xs g = Inr g'" and "polls (gw_clients g) (gw_polled g)"
  shows "polls (gw_clients g') (gw_polled g') \<and> ws_fds (gw_clients g') = ws_fds (gw_clients g) - set xs \<and>
    gw_towait g' = gw_towait g \<and> gw_active g' = gw_active g \<and> gw_topics g' = gw_topics g"
  using assms
proof (induction xs arbitrary: g)
  case (Cons fd xs)
  then obtain g1 where 1: "stop_client fd g = Inr g1" "fold_res stop_client xs g1 = Inr g'"
    by (auto simp: res_simps)
  have "A - set (fd # xs) = A - {fd} - set xs" for A by auto
  moreover note k = stop_client_inv [OF 1(1) Cons.prems(2)]
  moreover note Cons.IH [OF 1(2) conjunct1 [OF k]]
  ultimately show ?case by simp
qed simp

lemma ws_send_all_fds: "ws_send_all env msg cs = Inr (ks, cs') \<Longrightarrow> ks \<subseteq> ws_fds cs"
proof (induction cs arbitrary: ks cs')
  case (Cons x cs)
  obtain fd c where x: "x = (fd, c)" by (cases x)
  with Cons.prems obtain ks1 cs1 where "ws_send_all env msg cs = Inr (ks1, cs1)" "ks \<subseteq> insert fd ks1"
    by (auto simp: res_simps split: if_splits)
  with Cons.IH [OF this(1)] show ?case by (auto simp: x ws_fds_def)
qed simp

lemma send_message_inv:
  assumes "send_message env tm (g, tw) = Inr (g', tw')" and "polls (gw_clients g) (gw_polled g)"
  shows "polls (gw_clients g') (gw_polled g') \<and> map fst (gw_clients g') = map fst (gw_clients g) \<and>
    tw' \<subseteq> tw \<union> ws_fds (gw_clients g) \<and>
    gw_towait g' = gw_towait g \<and> gw_active g' = gw_active g \<and> gw_topics g' = gw_topics g"
proof -
  obtain whom msg where tm: "tm = (whom, msg)" by (cases tm)
  show ?thesis
  proof (cases whom)
    case None
    with assms(1) tm obtain ks cs where "ws_send_all env msg (gw_clients g) = Inr (ks, cs)"
      "g' = g\<lparr>gw_clients := cs\<rparr>" "tw' = tw \<union> ks" by (auto simp: send_message_def res_simps)
    moreover from ws_send_all_kept [OF this(1)] have "map fst cs = map fst (gw_clients g)"
      "polls cs (gw_polled g)" using polls_same_keys [OF assms(2)] by blast+
    moreover note ws_send_all_fds [OF calculation(1)]
    ultimately show ?thesis by auto
  next
    case (Some fd)
    with assms(1) tm obtain ks cs where s: "ws_send_one env fd msg (gw_clients g) = Inr (ks, cs)"
      "g' = g\<lparr>gw_clients := cs\<rparr>" "tw' = tw \<union> ks" by (auto simp: send_message_def res_simps)
    show ?thesis
    proof (cases "map_of (gw_clients g) fd")
      case None
      with s assms(2) show ?thesis by (simp add: ws_send_one_def)
    next
      case (Some c)
      then have k: "fd \<in> ws_fds (gw_clients g)" "(fd, c) \<in> set (gw_clients g)"
        using map_of_ws_fds by fast+
      with assms(2) have "wc_fd c = fd" by (auto simp: polls_def)
      moreover from s Some obtain c' where c': "ws_client_send env msg c = Inr c'"
        "cs = AList.update fd c' (gw_clients g)" "ks = {fd}" by (auto simp: ws_send_one_def res_simps)
      ultimately show ?thesis
        using polls_update [OF assms(2) k(1), of c'] ws_client_send_kept [OF c'(1)] k(1)
        by (simp add: s(2,3) keys_update)
    qed
  qed
qed

lemma send_messages_inv:
  assumes "fold_res (send_message env) tms (g, tw) = Inr (g', tw')" and "polls (gw_clients g) (gw_polled g)"
  shows "polls (gw_clients g') (gw_polled g') \<and> map fst (gw_clients g') = map fst (gw_clients g) \<and>
    tw' \<subseteq> tw \<union> ws_fds (gw_clients g) \<and>
    gw_towait g' = gw_towait g \<and> gw_active g' = gw_active g \<and> gw_topics g' = gw_topics g"
  using assms
proof (induction tms arbitrary: g tw)
  case (Cons tm tms)
  then obtain g1 tw1 where 1: "send_message env tm (g, tw) = Inr (g1, tw1)"
    "fold_res (send_message env) tms (g1, tw1) = Inr (g', tw')" by (auto simp: res_simps)
  note k = send_message_inv [OF 1(1) Cons.prems(2)]
  from Cons.IH [OF 1(2) conjunct1 [OF k]] k ws_fds_same [of "gw_clients g1" "gw_clients g"] show ?case by auto
qed simp

lemma start_client_inv:
  assumes "polls (gw_clients g) (gw_polled g)"
  shows "polls (gw_clients (start_client env x g)) (gw_polled (start_client env x g)) \<and>
    ws_fds (gw_clients g) \<subseteq> ws_fds (gw_clients (start_client env x g)) \<and>
    gw_towait (start_client env x g) = gw_towait g \<and> gw_active (start_client env x g) = gw_active g \<and>
    gw_topics (start_client env x g) = gw_topics g"
proof -
  obtain fd addr where x: "x = (fd, addr)" by (cases x)
  have "set (AList.update fd c cs) \<subseteq> insert (fd, c) (set cs)" for c and cs :: "'a ws_clients"
    by (induction cs) auto
  from this [of "ws_new env fd addr" "gw_clients g"] assms show ?thesis
    by (auto simp: x start_client_def ws_add_def polls_def update_keys distinct_update ws_new_def)
qed

lemma start_clients_inv:
  assumes "polls (gw_clients g) (gw_polled g)" and "g' = foldl (\<lambda>g x. start_client env x g) g xs"
  shows "polls (gw_clients g') (gw_polled g') \<and> ws_fds (gw_clients g) \<subseteq> ws_fds (gw_clients g') \<and>
    gw_towait g' = gw_towait g \<and> gw_active g' = gw_active g \<and> gw_topics g' = gw_topics g"
  using assms
proof (induction xs arbitrary: g)
  case (Cons x xs)
  from start_client_inv [OF Cons.prems(1), of env x] Cons.IH [of "start_client env x g"] Cons.prems(2)
  show ?case by (auto del: subsetI intro: subset_trans)
qed simp

lemma ws_write_all_kept:
  assumes "ws_write_all env ks cs = (waiting, cs')"
  shows "map fst cs' = map fst cs \<and> map (wc_fd \<circ> snd) cs' = map (wc_fd \<circ> snd) cs \<and> waiting \<subseteq> ks \<inter> ws_fds cs"
  using assms by (auto simp: ws_write_all_def ws_fds_def ws_write_kept)

lemma polls_modify:
  assumes "polls cs polled" and "S \<subseteq> ws_fds cs"
  shows "polls cs (\<lambda>fd. if fd \<in> S then Some False else polled fd)"
proof -
  have "dom (\<lambda>fd. if fd \<in> S then Some False else polled fd) = S \<union> dom polled" by (auto simp: dom_def)
  with assms show ?thesis by (auto simp: polls_def)
qed

lemma write_out_inv:
  assumes "polls (gw_clients g) (gw_polled g)" and "tw \<subseteq> ws_fds (gw_clients g)"
  shows "polls (gw_clients (write_out env tw g)) (gw_polled (write_out env tw g)) \<and>
    gw_towait (write_out env tw g) \<subseteq> ws_fds (gw_clients (write_out env tw g)) \<and>
    gw_active (write_out env tw g) = gw_active g \<and> gw_topics (write_out env tw g) = gw_topics g"
proof -
  obtain mw cs where w: "ws_write_all env (tw - gw_towait g) (gw_clients g) = (mw, cs)" by fastforce
  note k = ws_write_all_kept [OF w]
  then have p: "polls cs (gw_polled g)" "ws_fds cs = ws_fds (gw_clients g)"
    using polls_same_keys [OF assms(1)] ws_fds_same by blast+
  have "fd \<in> mw \<Longrightarrow> fd \<in> tw - gw_towait g" for fd using k by blast
  then have pl: "(\<lambda>fd. if fd \<in> tw - gw_towait g - mw then Some False
        else if fd \<in> mw - (tw - gw_towait g) then Some True else gw_polled g fd) =
      (\<lambda>fd. if fd \<in> tw - gw_towait g - mw then Some False else gw_polled g fd)"
    by (intro ext) auto
  have g': "write_out env tw g = g\<lparr>gw_clients := cs,
      gw_polled := (\<lambda>fd. if fd \<in> tw - gw_towait g - mw then Some False else gw_polled g fd),
      gw_towait := mw\<rparr>"
    unfolding write_out_def w Let_def case_prod_conv pl by simp
  have "tw - gw_towait g - mw \<subseteq> ws_fds cs" using p(2) assms(2) by auto
  then have "polls cs (\<lambda>fd. if fd \<in> tw - gw_towait g - mw then Some False else gw_polled g fd)"
    by (rule polls_modify [OF p(1)])
  moreover have "mw \<subseteq> ws_fds cs" using k p(2) by blast
  ultimately show ?thesis by (simp add: g')
qed

lemma gw_round_inv:
  assumes "gw_inv g" and "from_poll g evs" and "gw_round env evs g = Inr g'"
  shows "gw_inv g'"
proof -
  from assms(1) have g: "polls (gw_clients g) (gw_polled g)" "gw_towait g \<subseteq> ws_fds (gw_clients g)"
    "distinct (gw_active g)" "topics_of (gw_active g) (gw_topics g)" by (simp_all add: gw_inv_def)
  from assms(3) obtain g0 g1 bt g2 g3 tw where
    r: "update_subs g = Inr g0" "fold_res (gw_event_step env) evs (g0, no_batch) = Inr (g1, bt)"
      "fold_res stop_client (gb_tostop bt) g1 = Inr g2"
      "fold_res (send_message env) (gb_tosend bt) (g2, gb_towrite bt) = Inr (g3, tw)"
      "g' = write_out env tw (foldl (\<lambda>g x. start_client env x g) g3 (gb_topoll bt))"
    by (auto simp: gw_round_def res_simps)
  note 0 = update_subs_topics [OF g(3,4) r(1)]
  have "gw_mid g0 (g0, no_batch)" using 0 g by (simp add: gw_mid_def no_batch_def)
  moreover have "Writable fd \<notin> set evs" "distinct (read_fds evs)" for fd
    using assms(2) g(1) by (auto simp: from_poll_def polls_def)
  ultimately have 1: "gw_mid g0 (g1, bt)" by (intro gw_events_mid [OF r(2)]) (auto simp: no_batch_def)
  then have p1: "polls (gw_clients g1) (gw_polled g1)" by (auto simp: gw_mid_def)
  note 2 = stop_clients_inv [OF r(3) p1]
  note 3 = send_messages_inv [OF r(4) conjunct1 [OF 2]]
  note 4 = start_clients_inv [OF conjunct1 [OF 3] refl, of env "gb_topoll bt"]
  have "tw \<subseteq> ws_fds (gw_clients g3)"
    using 1 2 3 ws_fds_same [of "gw_clients g3" "gw_clients g2"] by (auto simp: gw_mid_def)
  with 4 have "tw \<subseteq> ws_fds (gw_clients (foldl (\<lambda>g x. start_client env x g) g3 (gb_topoll bt)))" by blast
  note 5 = write_out_inv [OF conjunct1 [OF 4] this, of env, folded r(5)]
  have "gw_active g' = gw_active g0" "gw_topics g' = gw_topics g0"
    using 1 2 3 4 5 by (auto simp: gw_mid_def)
  with 0 5 show ?thesis unfolding gw_inv_def by metis
qed

lemma gw_reachable_inv: "gw_reachable g \<Longrightarrow> gw_inv g"
proof (induction rule: gw_reachable.induct)
  case start
  show ?case by (simp add: gw_inv_def init_gateway_def polls_def ws_fds_def topics_of_def)
next
  case (round g evs env g')
  then show ?case using gw_round_inv by blast
qed

section \<open>What a round leaves alone\<close>

definition touches :: "int \<Rightarrow> gw_event \<Rightarrow> bool" where
  "touches fd ev \<longleftrightarrow>
     (case ev of
        Sub_Ready msgs \<Rightarrow> True
      | Connection k addr \<Rightarrow> k = fd
      | Readable k inp \<Rightarrow> k = fd
      | Writable k \<Rightarrow> k = fd
      | Connection_Fails \<Rightarrow> False
      | Stray \<Rightarrow> False)"

definition quiet :: "int \<Rightarrow> 'w ws_client \<Rightarrow> 'w gateway \<times> gw_batch \<Rightarrow> bool" where
  "quiet fd c = (\<lambda>(g, bt). map_of (gw_clients g) fd = Some c \<and> (\<forall>(w, m) \<in> set (gb_tosend bt). w \<noteq> None \<and> w \<noteq> Some fd) \<and>
     fd \<notin> fst ` set (gb_topoll bt) \<and> fd \<notin> set (gb_tostop bt) \<and> fd \<notin> gb_towrite bt)"

lemma gw_event_step_quiet:
  assumes "gw_event_step env ev s = Inr s'" and "\<not> touches fd ev" and "quiet fd c s"
  shows "quiet fd c s'"
proof -
  obtain g bt g' bt' where s: "s = (g, bt)" "s' = (g', bt')" by (cases s; cases s')
  show ?thesis
  proof (cases ev)
    case (Readable k inp)
    from gw_event_step_readable [OF assms(1) [unfolded Readable s]] obtain c' r ms where
      "gw_clients g' = AList.update k c' (gw_clients g)" "gb_topoll bt' = gb_topoll bt"
      "gb_tosend bt' = gb_tosend bt @ map (\<lambda>m. (Some k, m)) ms"
      "gb_tostop bt' = gb_tostop bt @ [k] \<or> gb_tostop bt' = gb_tostop bt"
      "gb_towrite bt' = gb_towrite bt \<or> gb_towrite bt' = insert k (gb_towrite bt)"
      by (auto split: if_splits)
    with assms(2,3) show ?thesis by (auto simp: Readable touches_def quiet_def s update_conv')
  qed (use assms in \<open>auto simp: gw_event_step_def quiet_def touches_def s\<close>)
qed

lemma stop_clients_other:
  "fold_res stop_client xs g = Inr g' \<Longrightarrow> fd \<notin> set xs \<Longrightarrow> map_of (gw_clients g') fd = map_of (gw_clients g) fd"
proof (induction xs arbitrary: g)
  case (Cons k xs)
  then obtain g1 where 1: "stop_client k g = Inr g1" "fold_res stop_client xs g1 = Inr g'"
    by (auto simp: res_simps)
  with Cons.prems(2) have "map_of (gw_clients g1) fd = map_of (gw_clients g) fd"
    by (auto simp: stop_client_def ws_stop_def res_simps delete_conv' split: if_splits)
  with Cons.IH [OF 1(2)] Cons.prems(2) show ?case by simp
qed simp

lemma send_messages_other:
  "fold_res (send_message env) tms (g, tw) = Inr (g', tw') \<Longrightarrow> \<forall>(w, m) \<in> set tms. w \<noteq> None \<and> w \<noteq> Some fd \<Longrightarrow>
    fd \<notin> tw \<Longrightarrow> map_of (gw_clients g') fd = map_of (gw_clients g) fd \<and> fd \<notin> tw'"
proof (induction tms arbitrary: g tw)
  case (Cons tm tms)
  then obtain g1 tw1 k m where 1: "send_message env (Some k, m) (g, tw) = Inr (g1, tw1)" "tm = (Some k, m)" "k \<noteq> fd"
    "fold_res (send_message env) tms (g1, tw1) = Inr (g', tw')" by (fastforce simp: res_simps)
  from 1(1,3) Cons.prems(3) have "map_of (gw_clients g1) fd = map_of (gw_clients g) fd" "fd \<notin> tw1"
    by (auto simp: send_message_def ws_send_one_def res_simps update_conv' split: option.splits)
  with Cons.IH [OF 1(4)] Cons.prems(2) show ?case by simp
qed simp

lemma start_clients_other:
  "fd \<notin> fst ` set xs \<Longrightarrow> map_of (gw_clients (foldl (\<lambda>g x. start_client env x g) g xs)) fd = map_of (gw_clients g) fd"
  by (induction xs arbitrary: g) (auto simp: start_client_def ws_add_def update_conv' split_beta)

lemma map_of_keyed: "map_of (map (\<lambda>(k, c). (k, f k c)) cs) fd = map_option (f fd) (map_of cs fd)"
  by (induction cs) auto

lemma write_out_other:
  "fd \<notin> tw \<Longrightarrow> map_of (gw_clients (write_out env tw g)) fd = map_of (gw_clients g) fd"
  by (simp add: write_out_def ws_write_all_def Let_def map_of_keyed option.map_ident)

lemma gw_round_quiet:
  assumes "gw_round env evs g = Inr g'" and "map_of (gw_clients g) fd = Some c" and "\<forall>ev \<in> set evs. \<not> touches fd ev"
  shows "map_of (gw_clients g') fd = Some c"
proof -
  from assms(1) obtain g0 g1 bt g2 g3 tw where
    r: "update_subs g = Inr g0" "fold_res (gw_event_step env) evs (g0, no_batch) = Inr (g1, bt)"
      "fold_res stop_client (gb_tostop bt) g1 = Inr g2"
      "fold_res (send_message env) (gb_tosend bt) (g2, gb_towrite bt) = Inr (g3, tw)"
      "g' = write_out env tw (foldl (\<lambda>g x. start_client env x g) g3 (gb_topoll bt))"
    by (auto simp: gw_round_def res_simps)
  from r(1) have "gw_clients g0 = gw_clients g" by (auto simp: update_subs_def Let_def res_simps)
  with assms(2) have "quiet fd c (g0, no_batch)" by (simp add: quiet_def no_batch_def)
  then have "quiet fd c (g1, bt)"
    by (rule fold_res_invariant [OF r(2), where P = "quiet fd c"]) (metis assms(3) gw_event_step_quiet)
  then have q: "map_of (gw_clients g1) fd = Some c" "\<forall>(w, m) \<in> set (gb_tosend bt). w \<noteq> None \<and> w \<noteq> Some fd"
    "fd \<notin> fst ` set (gb_topoll bt)" "fd \<notin> set (gb_tostop bt)" "fd \<notin> gb_towrite bt"
    by (simp_all add: quiet_def)
  from send_messages_other [OF r(4) q(2,5)] stop_clients_other [OF r(3) q(4)]
    start_clients_other [OF q(3), of env g3] q(1)
  show ?thesis by (simp add: r(5) write_out_other)
qed

section \<open>Who gets a message\<close>

definition wants :: "pystr \<Rightarrow> 'w ws_client \<Rightarrow> bool" where
  "wants i c \<longleftrightarrow> VStr i \<in> set (wc_imeis c)"

text \<open>A client that wants the message and is ready gets it as one more frame; another stays as it is.\<close>

definition sent_to :: "'w gw_env \<Rightarrow> attrs \<Rightarrow> pystr \<Rightarrow> int \<times> 'w ws_client \<Rightarrow> int \<times> 'w ws_client \<Rightarrow> bool" where
  "sent_to env msg i = (\<lambda>(fd, c) (fd', c'). fd' = fd \<and>
     (if wants i c \<and> wc_ready c
      then \<exists>b w. we_send env (wc_ws c) (Ws_Message (we_dumps env msg)) = Inr (b, w) \<and>
        c' = c\<lparr>wc_ws := w, wc_data := wc_data c @ b\<rparr>
      else c' = c))"

definition wanting :: "pystr \<Rightarrow> 'w ws_clients \<Rightarrow> int set" where
  "wanting i cs = {fd. \<exists>c. (fd, c) \<in> set cs \<and> wants i c}"

lemma wanting_Cons: "wanting i ((fd, c) # cs) = (if wants i c then insert fd (wanting i cs) else wanting i cs)"
  by (auto simp: wanting_def)

text \<open>
  A frame can be made for a connection that is open. For one that is closed \<open>send\<close> of the engine
  raises, and as \<open>ready\<close> stays set, so may sending to a client that wants the message.
\<close>

definition sendable :: "'w gw_env \<Rightarrow> attrs \<Rightarrow> pystr \<Rightarrow> 'w ws_clients \<Rightarrow> bool" where
  "sendable env msg i cs \<longleftrightarrow> (\<forall>(fd, c) \<in> set cs. wants i c \<and> wc_ready c \<longrightarrow>
     returns (we_send env (wc_ws c) (Ws_Message (we_dumps env msg))))"

lemma ws_send_all_to:
  assumes "map_of msg (u ''imei'') = Some (VStr i)"
  shows "if sendable env msg i cs
    then \<exists>cs'. ws_send_all env msg cs = Inr (wanting i cs, cs') \<and> list_all2 (sent_to env msg i) cs cs'
    else \<not> returns (ws_send_all env msg cs)"
proof (induction cs)
  case Nil
  then show ?case by (simp add: wanting_def sendable_def)
next
  case (Cons x cs)
  obtain fd c where x: "x = (fd, c)" by (cases x)
  have w: "imei_in msg c = Inr (wants i c)" using assms(1) by (simp add: imei_in_def wants_def)
  have all: "sendable env msg i (x # cs) \<longleftrightarrow> (wants i c \<and> wc_ready c \<longrightarrow>
      returns (we_send env (wc_ws c) (Ws_Message (we_dumps env msg)))) \<and> sendable env msg i cs"
    by (auto simp: sendable_def x)
  let ?send = "we_send env (wc_ws c) (Ws_Message (we_dumps env msg))"
  show ?case
  proof (cases "wants i c \<and> wc_ready c \<longrightarrow> returns ?send")
    case False
    then obtain e where "wants i c" "wc_ready c" "?send = Inl e" by (cases ?send) (auto simp: returns_def)
    with False w all show ?thesis by (simp add: x returns_def ws_client_send_def ws_append_def)
  next
    case True
    then obtain c' where c': "(if wants i c then ws_client_send env msg c else Inr c) = Inr c'"
      "sent_to env msg i (fd, c) (fd, c')"
      using w by (cases "wants i c \<and> wc_ready c") (auto simp: sent_to_def ws_client_send_def ws_append_def returns_def)
    have step: "ws_send_all env msg (x # cs) = and_then (ws_send_all env msg cs) (\<lambda>(fds, cs').
        Inr (if wants i c then insert fd fds else fds, (fd, c') # cs'))"
      by (simp only: x ws_send_all.simps w and_then.simps c'(1))
    show ?thesis
    proof (cases "sendable env msg i cs")
      case True
      with Cons.IH obtain cs' where "ws_send_all env msg cs = Inr (wanting i cs, cs')"
        "list_all2 (sent_to env msg i) cs cs'" by auto
      with c'(2) have "ws_send_all env msg (x # cs) = Inr (wanting i (x # cs), (fd, c') # cs')"
        "list_all2 (sent_to env msg i) (x # cs) ((fd, c') # cs')"
        unfolding step by (simp_all add: x wanting_Cons)
      moreover have "sendable env msg i (x # cs)" using all True \<open>wants i c \<and> wc_ready c \<longrightarrow> returns ?send\<close> by blast
      ultimately show ?thesis by (simp only: if_True) blast
    next
      case False
      with Cons.IH have "\<not> returns (ws_send_all env msg cs)" by simp
      then have "\<not> returns (ws_send_all env msg (x # cs))"
        unfolding step by (cases "ws_send_all env msg cs") (simp_all add: returns_def)
      moreover have "\<not> sendable env msg i (x # cs)" using all False by blast
      ultimately show ?thesis by (simp only: if_False) blast
    qed
  qed
qed

lemma topics_of_set: "topics_of vs topics \<Longrightarrow> set topics = {t. \<exists>v \<in> set vs. val_topic v = Inr t}"
proof -
  assume "topics_of vs topics"
  then obtain ts where ts: "map_res val_topic vs = Inr ts" "mset ts = mset topics" by (auto simp: topics_of_def)
  then have "set topics = set ts" by (metis set_mset_mset)
  also have "\<dots> = {t. \<exists>v \<in> set vs. val_topic v = Inr t}"
    using map_res_map [OF ts(1)] by (auto simp: image_iff) (metis sum.sel(2))+
  finally show ?thesis .
qed

lemma rtopic_prefix:
  assumes "rept_packed \<lparr>p_imei = Some i, p_payload = body\<rparr> = Inr b" and "rtopic j = Inr t"
  shows "prefix t b \<longleftrightarrow> rtopic j = rtopic i"
proof -
  from assms(1) obtain bi rest where bi: "utf8_encode i = Inr bi" "b = pack16 bi @ rest"
    by (auto simp: rept_packed_def opt_field_def res_simps)
  from assms(2) obtain bj where bj: "utf8_encode j = Inr bj" "t = pack16 bj"
    by (auto simp: rtopic_def res_simps)
  have "prefix (pack16 bj) (pack16 bi @ rest) \<longleftrightarrow> pack16 bj = pack16 bi" by (rule pack16_prefix)
  with bi bj show ?thesis by (simp add: rtopic_def)
qed

lemma rtopic_fits: "fits16 i \<Longrightarrow> fits16 j \<Longrightarrow> rtopic j = rtopic i \<longleftrightarrow> j = i"
proof -
  assume i: "fits16 i" and j: "fits16 j"
  from fits16D [OF i] fits16D [OF j] obtain bi bj where "utf8_encode i = Inr bi" "utf8_encode j = Inr bj" by metis
  with pack16_eq_iff [OF this(2,1) j i] show ?thesis by (simp add: rtopic_def)
qed

text \<open>A report as the rectifier publishes it, and as the gateway reads it\<close>

lemma live_report:
  assumes "fits16 i" and "i \<noteq> replicate 16 48" and "ascii (re_dumps renv (report_json r))"
    and "we_loads env (re_dumps renv (report_json r)) = Inr (JObject (report_json r))"
    and "publish_report renv (Some i) r = Inr b"
  shows "\<exists>m. live_message env b = Inr m \<and> map_of m = (map_of (report_json r))(u ''imei'' \<mapsto> VStr i)"
proof -
  have w: "wire_imei (Some i) = Some i" using assms(2) by (simp add: wire_imei_def)
  have "\<And>j. Some i = Some j \<Longrightarrow> fits16 j" using assms(1) by simp
  from publish_report_ok [OF assms(3) this, where imei = "Some i"] assms(5)
  have "rept_decode b = Inr \<lparr>p_imei = Some i, p_payload = re_dumps renv (report_json r)\<rparr>"
    unfolding w by auto
  with assms(4) show ?thesis by (simp add: live_message_def opt_str_def update_conv')
qed

lemma report_delivered:
  assumes "gw_reachable g" and "update_subs g = Inr g0"
    and i: "fits16 i" "i \<noteq> replicate 16 48" and b: "publish_report renv (Some i) r = Inr b"
    and json: "ascii (re_dumps renv (report_json r))"
      "we_loads env (re_dumps renv (report_json r)) = Inr (JObject (report_json r))"
  shows "((\<exists>t \<in> set (gw_topics g0). prefix t b) \<longleftrightarrow>
      (\<exists>(fd, c) \<in> set (gw_clients g0). \<exists>j. VStr j \<in> set (wc_imeis c) \<and> rtopic j = rtopic i)) \<and>
    (\<exists>m. live_message env b = Inr m \<and> map_of m = (map_of (report_json r))(u ''imei'' \<mapsto> VStr i) \<and>
      (if sendable env m i (gw_clients g0)
       then \<exists>cs. ws_send_all env m (gw_clients g0) = Inr (wanting i (gw_clients g0), cs) \<and>
         list_all2 (sent_to env m i) (gw_clients g0) cs
       else \<not> returns (gw_round env [Sub_Ready [b]] g)))"
proof -
  from gw_reachable_inv [OF assms(1)] have "distinct (gw_active g)" "topics_of (gw_active g) (gw_topics g)"
    by (simp_all add: gw_inv_def)
  from update_subs_topics [OF this assms(2)] have g0: "topics_of (ws_subs (gw_clients g)) (gw_topics g0)"
    "gw_clients g0 = gw_clients g" by auto
  from b have p: "rept_packed \<lparr>p_imei = Some i, p_payload = re_dumps renv (report_json r)\<rparr> = Inr b"
    by (simp add: publish_report_def)
  have subs: "v \<in> set (ws_subs (gw_clients g)) \<longleftrightarrow> (\<exists>(fd, c) \<in> set (gw_clients g). v \<in> set (wc_imeis c))" for v
    by (force simp: ws_subs_def)
  from g0(1) have all: "\<forall>v \<in> set (ws_subs (gw_clients g)). returns (val_topic v)"
    using map_res_map by (fastforce simp: topics_of_def returns_def)
  have v: "(\<exists>t. val_topic v = Inr t \<and> prefix t b) \<longleftrightarrow> (\<exists>j. v = VStr j \<and> rtopic j = rtopic i)"
    if "v \<in> set (ws_subs (gw_clients g))" for v
    using bspec [OF all that] rtopic_prefix [OF p]
    by (cases v) (auto simp: val_topic_def returns_def)
  have "(\<exists>t \<in> set (gw_topics g0). prefix t b) \<longleftrightarrow>
      (\<exists>v \<in> set (ws_subs (gw_clients g)). \<exists>t. val_topic v = Inr t \<and> prefix t b)"
    using topics_of_set [OF g0(1)] by auto
  also have "\<dots> \<longleftrightarrow> (\<exists>v \<in> set (ws_subs (gw_clients g)). \<exists>j. v = VStr j \<and> rtopic j = rtopic i)" using v by blast
  also have "\<dots> \<longleftrightarrow> (\<exists>(fd, c) \<in> set (gw_clients g0). \<exists>j. VStr j \<in> set (wc_imeis c) \<and> rtopic j = rtopic i)"
    unfolding g0(2) using subs by fast
  finally have 1: "(\<exists>t \<in> set (gw_topics g0). prefix t b) \<longleftrightarrow>
      (\<exists>(fd, c) \<in> set (gw_clients g0). \<exists>j. VStr j \<in> set (wc_imeis c) \<and> rtopic j = rtopic i)" .
  from live_report [OF i json b] obtain m where m: "live_message env b = Inr m"
    "map_of m = (map_of (report_json r))(u ''imei'' \<mapsto> VStr i)" by blast
  then have "map_of m (u ''imei'') = Some (VStr i)" by simp
  note sent = ws_send_all_to [OF this, of env "gw_clients g0"]
  have "\<not> returns (gw_round env [Sub_Ready [b]] g)" if "\<not> returns (ws_send_all env m (gw_clients g0))"
    using that assms(2) m(1)
    by (auto simp: gw_round_def gw_event_step_def no_batch_def send_message_def returns_def res_simps)
  with 1 m sent show ?thesis by (auto split: if_splits)
qed

section \<open>Properties\<close>

text \<open>
  C31: In every state that rounds lead to, the poller watches exactly the connections, each under its
  own descriptor; the descriptors with data left are among them; the subscriptions are, one for one,
  the topics of the wanted IMEIs; and no descriptor is ever watched for writing, although the
  code means to wait for that where data is left.
\<close>

theorem gateway_invariant:
  assumes "gw_reachable g"
  shows "distinct (map fst (gw_clients g)) \<and> dom (gw_polled g) = set (map fst (gw_clients g)) \<and>
    (\<forall>(fd, c) \<in> set (gw_clients g). wc_fd c = fd) \<and> gw_towait g \<subseteq> set (map fst (gw_clients g)) \<and>
    (\<exists>ts. map_res val_topic (gw_active g) = Inr ts \<and> mset ts = mset (gw_topics g)) \<and>
    (\<forall>fd. gw_polled g fd \<noteq> Some True)"
  using gw_reachable_inv [OF assms] unfolding gw_inv_def polls_def topics_of_def ws_fds_def by blast

definition ex_gw_env :: "unit gw_env" where
  "ex_gw_env = \<lparr>we_init = (), we_receive = (\<lambda>w d. Inr ([Ws_Request], w)), we_send = (\<lambda>w m. Inr ([1, 2], w)),
     we_loads = (\<lambda>s. if s = u ''...'' then Inr (JObject (report_json (CoordReport ex_coord))) else Inl ValueError),
     we_dumps = (\<lambda>_. []), we_html = No_File, we_sock_send = (\<lambda>fd b. Some 1),
     ge_db = ex_db, ge_now = 1000, ge_time = 0, ge_datetime = ex_now, ge_pmods = [Zx303, Beesure],
     ge_repr = (\<lambda>_. []), ge_str = (\<lambda>_. [])\<rparr>"

definition ex_ws :: "unit ws_client" where
  "ex_ws = \<lparr>wc_fd = 7, wc_addr = ex_addr, wc_ws = (), wc_data = [2], wc_ready = True, wc_imeis = [], wc_out = [1]\<rparr>"

definition ex_gateway :: "unit gateway" where
  "ex_gateway = init_gateway\<lparr>gw_clients := [(7, ex_ws)], gw_polled := [7 \<mapsto> False], gw_towait := {7}\<rparr>"

lemma ex_gateway_reachable: "gw_reachable ex_gateway"
proof -
  let ?new = "ws_new ex_gw_env 7 ex_addr"
  let ?g1 = "init_gateway\<lparr>gw_clients := [(7, ?new)], gw_polled := [7 \<mapsto> False]\<rparr>"
  have 1: "gw_round ex_gw_env [Connection 7 ex_addr] init_gateway = Inr ?g1"
    by (simp add: gw_round_def update_subs_def init_gateway_def ws_subs_def gw_event_step_def no_batch_def
        start_client_def ws_add_def write_out_def ws_write_all_def fun_eq_iff)
  let ?g2 = "?g1\<lparr>gw_clients := [(7, ex_ws)], gw_towait := {7}\<rparr>"
  let ?c = "ex_ws\<lparr>wc_data := [1, 2], wc_out := []\<rparr>" and ?bt = "no_batch\<lparr>gb_towrite := {7}\<rparr>"
  let ?g = "?g1\<lparr>gw_clients := [(7, ?c)]\<rparr>"
  have e: "gw_event_step ex_gw_env (Readable 7 (In_Bytes [71])) (?g1, no_batch) = Inr (?g, ?bt)"
    by (simp add: gw_event_step_def ws_recv_def ws_new_def ex_gw_env_def ws_handle_def ws_append_def
        ex_ws_def no_batch_def)
  have "ws_write_all ex_gw_env {7} [(7, ?c)] = ({7}, [(7, ex_ws)])"
    by (auto simp: ws_write_all_def ws_write_def ex_gw_env_def ex_ws_def)
  then have w: "write_out ex_gw_env {7} ?g = ?g2"
    by (simp add: write_out_def init_gateway_def fun_eq_iff)
  have "update_subs ?g1 = Inr ?g1" by (simp add: update_subs_def ws_subs_def ws_new_def init_gateway_def)
  moreover have "gb_tostop ?bt = []" "gb_tosend ?bt = []" "gb_topoll ?bt = []" "gb_towrite ?bt = {7}"
    by (simp_all add: no_batch_def)
  ultimately have 2: "gw_round ex_gw_env [Readable 7 (In_Bytes [71])] ?g1 = Inr ?g2"
    using e w by (simp add: gw_round_def)
  have "from_poll init_gateway [Connection 7 ex_addr]" "from_poll ?g1 [Readable 7 (In_Bytes [71])]"
    by (simp_all add: from_poll_def read_fds_def)
  with 1 2 have "gw_reachable ?g2" by (meson gw_reachable.intros)
  moreover have "?g2 = ex_gateway" by (simp add: ex_gateway_def init_gateway_def)
  ultimately show ?thesis by simp
qed

lemma ex_gateway_round: "returns (gw_round ex_gw_env [] ex_gateway)"
  by (simp add: gw_round_def update_subs_def ex_gateway_def init_gateway_def ws_subs_def ex_ws_def
      returns_def no_batch_def)

lemma ex_gateway_client: "map_of (gw_clients ex_gateway) 7 = Some ex_ws"
  by (simp add: ex_gateway_def)

theorem gateway_invariant_witness:
  "map_of (gw_clients ex_gateway) 7 = Some ex_ws \<and> (\<forall>fd. gw_polled ex_gateway fd \<noteq> Some True)"
  using ex_gateway_client gateway_invariant [OF ex_gateway_reachable] by blast

text \<open>
  C32: Data that a socket did not take is not written when it could be. It stays as it is in every
  round in which the browser itself sends nothing and no report comes in, whatever the socket
  would take: the poller does not report that it can be written to.
\<close>

theorem unsent_data_waits:
  assumes "gw_reachable g" and "map_of (gw_clients g) fd = Some c"
    and "\<forall>ev \<in> set evs. \<not> touches fd ev" and "gw_round env evs g = Inr g'"
  shows "gw_polled g fd = Some False \<and> map_of (gw_clients g') fd = Some c"
proof -
  from gw_reachable_inv [OF assms(1)] have "polls (gw_clients g) (gw_polled g)" by (simp add: gw_inv_def)
  moreover from map_of_ws_fds [OF assms(2)] have "fd \<in> ws_fds (gw_clients g)" by simp
  ultimately obtain b where "gw_polled g fd = Some b" "b \<noteq> True" by (fastforce simp: polls_def)
  with gw_round_quiet [OF assms(4,2,3)] show ?thesis by simp
qed

theorem unsent_data_waits_witness:
  "\<exists>g'. gw_round ex_gw_env [] ex_gateway = Inr g' \<and> map_of (gw_clients g') 7 = Some ex_ws \<and> wc_data ex_ws = [2]"
proof -
  obtain g' where g': "gw_round ex_gw_env [] ex_gateway = Inr g'" using ex_gateway_round by (auto simp: returns_def)
  from unsent_data_waits [OF ex_gateway_reachable ex_gateway_client _ g'] g' show ?thesis by (simp add: ex_ws_def)
qed

text \<open>
  C33: A report reaches exactly those who asked for it. For a terminal of either module (whose IMEI is not
  the sixteen zeros that stand for none), ZeroMQ delivers what the rectifier publishes
  exactly when a connected browser asked for an IMEI with the same topic; among IMEIs that fit the
  field of the topic that is the terminal's own only. Of what is delivered every browser that
  asked for exactly this IMEI and is ready gets one frame more, with the report and the IMEI, all others
  are left alone, and the descriptors that are written to are those of the subscribers. This is so as
  long as the engine can make a frame for each of them, which it does for open connections only: when
  one of them is closed (\<open>ready\<close> stays set after a close), the round raises and the service ends. (It is
  asked that the subscriptions of the round can be made, that is, what browsers asked for are texts that can
  be encoded; and of JSON, that the text is ASCII and \<open>loads\<close> undoes \<open>dumps\<close>.)
\<close>

theorem report_reaches_subscribers:
  assumes "gw_reachable g" and "update_subs g = Inr g0"
    and i: "pm_own_imei pm i" "i \<noteq> replicate 16 48" and b: "publish_report renv (Some i) r = Inr b"
    and json: "ascii (re_dumps renv (report_json r))"
      "we_loads env (re_dumps renv (report_json r)) = Inr (JObject (report_json r))"
  shows "((\<exists>t \<in> set (gw_topics g0). prefix t b) \<longleftrightarrow>
      (\<exists>(fd, c) \<in> set (gw_clients g0). \<exists>j. VStr j \<in> set (wc_imeis c) \<and> rtopic j = rtopic i)) \<and>
    (\<forall>j. fits16 j \<longrightarrow> (rtopic j = rtopic i \<longleftrightarrow> j = i)) \<and>
    (\<exists>m. live_message env b = Inr m \<and> map_of m = (map_of (report_json r))(u ''imei'' \<mapsto> VStr i) \<and>
      (if \<forall>(fd, c) \<in> set (gw_clients g0). wants i c \<and> wc_ready c \<longrightarrow>
            returns (we_send env (wc_ws c) (Ws_Message (we_dumps env m)))
       then \<exists>cs. ws_send_all env m (gw_clients g0) = Inr (wanting i (gw_clients g0), cs) \<and>
         list_all2 (sent_to env m i) (gw_clients g0) cs
       else \<not> returns (gw_round env [Sub_Ready [b]] g)))"
proof -
  have f: "fits16 i" by (rule own_imei_fits [OF i(1)])
  with report_delivered [OF assms(1,2) f i(2) b json, unfolded sendable_def] rtopic_fits [OF f] show ?thesis by simp
qed

definition ex_sub_msg :: attrs where
  "ex_sub_msg = [(u ''type'', VStr (u ''subscribe'')), (u ''imei'', VList [VStr ex_zx_imei])]"

definition ex_sub_env :: "unit gw_env" where
  "ex_sub_env = ex_gw_env\<lparr>we_receive := (\<lambda>w d. Inr ([Ws_Text []], w)),
     we_loads := (\<lambda>s. if s = [] then Inr (JObject ex_sub_msg) else Inl ValueError)\<rparr>"

definition ex_sub :: "unit ws_client" where
  "ex_sub = ex_ws\<lparr>wc_imeis := [VStr ex_zx_imei]\<rparr>"

definition ex_subscribed :: "unit gateway" where
  "ex_subscribed = ex_gateway\<lparr>gw_clients := [(7, ex_sub)], gw_towait := {}\<rparr>"

lemma ex_subscribed_reachable: "gw_reachable ex_subscribed"
proof -
  let ?bt = "no_batch\<lparr>gb_towrite := {7}\<rparr>" and ?g = "ex_gateway\<lparr>gw_clients := [(7, ex_sub)]\<rparr>"
  have sub: "is_subscribe ex_sub_msg" "map_of ex_sub_msg (u ''imei'') = Some (VList [VStr ex_zx_imei])"
    "map_of ex_sub_msg (u ''backlog'') = None"
    by (simp_all add: is_subscribe_def ex_sub_msg_def)
  have "backlog ex_sub_env (VStr ex_zx_imei) (VInt 5) = Inr []"
    by (simp add: backlog_def sql_key_def sql_int_def ex_sub_env_def ex_gw_env_def fetch_def sql_limit_def ex_db_def
        ex_zx_imei_def)
  with sub have bm: "browser_message ex_sub_env ex_sub_msg = Inr ([], None)"
    by (simp add: browser_message_def or_default_def)
  have "ws_recv ex_sub_env (In_Bytes [83]) ex_ws = Inr (Some [ex_sub_msg], ex_sub)"
    using sub by (simp add: ws_recv_def ex_sub_env_def ws_handle_def py_set_def ex_sub_def ex_ws_def)
  with bm have e: "gw_event_step ex_sub_env (Readable 7 (In_Bytes [83])) (ex_gateway, no_batch) = Inr (?g, ?bt)"
    by (simp add: gw_event_step_def ex_gateway_client browser_messages_def)
      (simp add: ex_gateway_def init_gateway_def no_batch_def)
  have w: "write_out ex_sub_env {7} ?g = ex_subscribed"
    by (simp add: write_out_def ws_write_all_def ex_subscribed_def ex_gateway_def init_gateway_def fun_eq_iff)
  have "update_subs ex_gateway = Inr ex_gateway"
    by (simp add: update_subs_def ws_subs_def ex_gateway_def ex_ws_def init_gateway_def)
  moreover have "gb_tostop ?bt = []" "gb_tosend ?bt = []" "gb_topoll ?bt = []" "gb_towrite ?bt = {7}"
    by (simp_all add: no_batch_def)
  ultimately have "gw_round ex_sub_env [Readable 7 (In_Bytes [83])] ex_gateway = Inr ex_subscribed"
    using e w by (simp add: gw_round_def)
  moreover have "from_poll ex_gateway [Readable 7 (In_Bytes [83])]" by (simp add: from_poll_def read_fds_def)
  ultimately show ?thesis using ex_gateway_reachable by (blast intro: gw_reachable.intros)
qed

theorem report_reaches_subscribers_witness:
  "\<exists>b g0 t m cs. publish_report ex_env (Some ex_zx_imei) (CoordReport ex_coord) = Inr b \<and>
    update_subs ex_subscribed = Inr g0 \<and> t \<in> set (gw_topics g0) \<and> prefix t b \<and>
    live_message ex_gw_env b = Inr m \<and> ws_send_all ex_gw_env m [(7, ex_sub)] = Inr ({7}, cs) \<and>
    list_all2 (sent_to ex_gw_env m ex_zx_imei) [(7, ex_sub)] cs"
proof -
  have cl: "gw_clients ex_subscribed = [(7, ex_sub)]" by (simp add: ex_subscribed_def)
  have f: "fits16 ex_zx_imei" by (rule zx_own_fits [OF ex_zx_imei_own])
  have nz: "ex_zx_imei \<noteq> replicate 16 48" by (simp add: ex_zx_imei_def Cons_replicate_eq)
  have "wire_imei (Some ex_zx_imei) = Some ex_zx_imei" using nz by (simp add: wire_imei_def)
  then obtain b where b: "publish_report ex_env (Some ex_zx_imei) (CoordReport ex_coord) = Inr b"
    using publish_report_ok [of ex_env "CoordReport ex_coord" "Some ex_zx_imei"] ex_env_simps(3) f
    by auto
  obtain bs where "utf8_encode ex_zx_imei = Inr bs" using fits16D [OF f] by blast
  then have "returns (update_subs ex_subscribed)"
    by (simp add: rtopic_def update_subs_def Let_def ws_subs_def ex_subscribed_def ex_gateway_def init_gateway_def ex_sub_def
        val_topic_def returns_def)
  then obtain g0 where g0: "update_subs ex_subscribed = Inr g0" by (auto simp: returns_def)
  then have cl0: "gw_clients g0 = [(7, ex_sub)]" by (auto simp: update_subs_def Let_def res_simps cl)
  have w: "wanting ex_zx_imei [(7, ex_sub)] = {7}" by (auto simp: wanting_def wants_def ex_sub_def)
  have loads: "we_loads ex_gw_env (re_dumps ex_env (report_json (CoordReport ex_coord))) =
      Inr (JObject (report_json (CoordReport ex_coord)))" by (simp add: ex_gw_env_def ex_env_def)
  have opened: "\<forall>(fd, c) \<in> set [(7, ex_sub)]. wants ex_zx_imei c \<and> wc_ready c \<longrightarrow>
      returns (we_send ex_gw_env (wc_ws c) (Ws_Message (we_dumps ex_gw_env m)))" for m
    by (simp add: ex_gw_env_def returns_def)
  have "pm_own_imei Zx303 ex_zx_imei" using ex_zx_imei_own by simp
  note r = report_reaches_subscribers [OF ex_subscribed_reachable g0 this nz b ex_env_simps(3) loads,
      unfolded cl0 w if_P [OF opened]]
  have "\<exists>(fd, c) \<in> set [(7, ex_sub)]. \<exists>j. VStr j \<in> set (wc_imeis c) \<and> rtopic j = rtopic ex_zx_imei"
    by (simp add: ex_sub_def)
  with conjunct1 [OF r] have "\<exists>t \<in> set (gw_topics g0). prefix t b" by (rule iffD2)
  moreover from conjunct2 [OF conjunct2 [OF r]] obtain m cs where "live_message ex_gw_env b = Inr m"
    "ws_send_all ex_gw_env m [(7, ex_sub)] = Inr ({7}, cs)"
    "list_all2 (sent_to ex_gw_env m ex_zx_imei) [(7, ex_sub)] cs" by blast
  ultimately show ?thesis using b g0 by blast
qed

text \<open>
  A position is told twice, in two forms. Of one report, the message that a subscriber gets when
  it comes in has the time under \<open>devtime\<close>; the one that a new subscriber gets from the store has it
  under \<open>timestamp\<close> and no \<open>devtime\<close>. In everything else, the IMEI and the type included, they agree.
\<close>

theorem backlog_renames_time:
  assumes "plain_coord r" and "zx_own_imei i" and "i \<noteq> replicate 16 48"
    and "ascii (re_dumps renv (report_json (CoordReport r)))"
    and "st_loads senv (re_dumps renv (report_json (CoordReport r))) = Inr (JObject (report_json (CoordReport r)))"
    and "we_loads env (re_dumps renv (report_json (CoordReport r))) = Inr (JObject (report_json (CoordReport r)))"
    and "\<forall>q \<in> set (reports d). rr_imei q = SText i \<longrightarrow> devtime_key q < cr_devtime r"
  shows "\<exists>b d' m w. publish_report renv (Some i) (CoordReport r) = Inr b \<and> store_rept senv b d = Inr d' \<and>
    live_message env b = Inr m \<and> backlog (env\<lparr>ge_db := d'\<rparr>) (VStr i) (VInt 1) = Inr [w] \<and>
    map_of m (u ''devtime'') = Some (VStr (cr_devtime r)) \<and> map_of m (u ''timestamp'') = None \<and>
    map_of w = (map_of m)(u ''devtime'' := None, u ''timestamp'' \<mapsto> VStr (cr_devtime r))"
proof -
  let ?o = "report_json (CoordReport r)"
  from stored_location [OF assms(1) zx_own_fits [OF assms(2)] assms(3) _ assms(4,5,7), of 1] obtain b d' dic where
    b: "publish_report renv (Some i) (CoordReport r) = Inr b" "store_rept senv b d = Inr d'"
    and f: "fetch i 1 d' = fetch i 0 d @ [dic]"
    and dic: "map_of dic = (map_of ?o)(u ''type'' := None, u ''imei'' \<mapsto> VStr i)" by auto
  from live_report [OF zx_own_fits [OF assms(2)] assms(3,4,6) b(1)] obtain m where
    m: "live_message env b = Inr m" "map_of m = (map_of ?o)(u ''imei'' \<mapsto> VStr i)" by blast
  have "fetch i 0 d = []" by (simp add: fetch_def sql_limit_def)
  moreover obtain w where w: "backlog_message dic = Inr w" "map_of w =
      (map_of dic)(u ''type'' \<mapsto> VStr (u ''location''), u ''devtime'' := None, u ''timestamp'' \<mapsto> VStr (cr_devtime r))"
    using dic by (auto simp: backlog_message_def update_conv' map_of_without fun_eq_iff)
  ultimately have "backlog (env\<lparr>ge_db := d'\<rparr>) (VStr i) (VInt 1) = Inr [w]"
    using f by (simp add: backlog_def sql_key_def sql_int_def)
  moreover have "map_of w = (map_of m)(u ''devtime'' := None, u ''timestamp'' \<mapsto> VStr (cr_devtime r))"
    unfolding w(2) m(2) dic by (rule ext) simp
  moreover have "map_of m (u ''devtime'') = Some (VStr (cr_devtime r))" "map_of m (u ''timestamp'') = None"
    by (simp_all add: m(2))
  ultimately show ?thesis using b m(1) by blast
qed

theorem backlog_renames_time_witness:
  "\<exists>b d' m w. publish_report ex_env (Some ex_zx_imei) (CoordReport ex_coord) = Inr b \<and>
    store_rept ex_st_env b ex_db = Inr d' \<and> live_message ex_gw_env b = Inr m \<and>
    backlog (ex_gw_env\<lparr>ge_db := d'\<rparr>) (VStr ex_zx_imei) (VInt 1) = Inr [w] \<and>
    map_of w (u ''devtime'') = None \<and> map_of w (u ''timestamp'') = map_of m (u ''devtime'')"
proof -
  let ?o = "report_json (CoordReport ex_coord)"
  have "plain_coord ex_coord" by (simp add: plain_coord_def plain_number_def ex_coord_def)
  moreover have "ex_zx_imei \<noteq> replicate 16 48" by (simp add: ex_zx_imei_def Cons_replicate_eq)
  moreover have "st_loads ex_st_env (re_dumps ex_env ?o) = Inr (JObject ?o)"
    "we_loads ex_gw_env (re_dumps ex_env ?o) = Inr (JObject ?o)"
    by (simp_all add: ex_st_env_def ex_gw_env_def ex_env_def)
  moreover have "\<forall>q \<in> set (reports ex_db). rr_imei q = SText ex_zx_imei \<longrightarrow> devtime_key q < cr_devtime ex_coord"
    by (simp add: ex_db_def ex_zx_imei_def)
  ultimately show ?thesis
    using backlog_renames_time [OF _ ex_zx_imei_own _ ex_env_simps(3), of ex_coord ex_st_env ex_gw_env ex_db]
    by fastforce
qed

text \<open>
  One browser can end the service for all. A text message that is no JSON, JSON that is no
  object, a subscription without IMEIs, and data that is neither a websocket's nor an HTTP request
  raise out of the loop.
\<close>

theorem browser_stops_gateway:
  assumes "update_subs g = Inr g0" and c: "map_of (gw_clients g) fd = Some c" and data: "data \<noteq> []"
  shows "(we_receive env (wc_ws c) (Some data) = Inr ([Ws_Text body], s) \<longrightarrow>
      (case we_loads env body of
         Inl e \<Rightarrow> gw_round env [Readable fd (In_Bytes data)] g = Inl e
       | Inr (JOther v) \<Rightarrow> gw_round env [Readable fd (In_Bytes data)] g = Inl AttributeError
       | Inr (JObject msg) \<Rightarrow> is_subscribe msg \<and> map_of msg (u ''imei'') = None \<longrightarrow>
           gw_round env [Readable fd (In_Bytes data)] g = Inl TypeError)) \<and>
    (we_receive env (wc_ws c) (Some data) = Inl RemoteProtocolError \<longrightarrow>
      http_reply (we_html env) data \<in> {Inl ValueError, Inl UnicodeDecodeError} \<longrightarrow>
      gw_round env [Readable fd (In_Bytes data)] g = Inl RemoteProtocolError)"
proof -
  from assms(1) have g0: "gw_clients g0 = gw_clients g" by (auto simp: update_subs_def Let_def res_simps)
  have raised: "gw_round env [Readable fd (In_Bytes data)] g = Inl e" if "ws_recv env (In_Bytes data) c = Inl e" for e
    using that assms(1) c by (simp add: gw_round_def gw_event_step_def g0)
  have "case we_loads env body of
         Inl e \<Rightarrow> gw_round env [Readable fd (In_Bytes data)] g = Inl e
       | Inr (JOther v) \<Rightarrow> gw_round env [Readable fd (In_Bytes data)] g = Inl AttributeError
       | Inr (JObject msg) \<Rightarrow> is_subscribe msg \<and> map_of msg (u ''imei'') = None \<longrightarrow>
           gw_round env [Readable fd (In_Bytes data)] g = Inl TypeError"
    if r: "we_receive env (wc_ws c) (Some data) = Inr ([Ws_Text body], s)"
  proof (cases "we_loads env body")
    case (Inl e)
    with r data have "ws_recv env (In_Bytes data) c = Inl e" by (simp add: ws_recv_def ws_handle_def)
    with raised Inl show ?thesis by simp
  next
    case (Inr j)
    show ?thesis
    proof (cases j)
      case (JOther v)
      with r data Inr have "ws_recv env (In_Bytes data) c = Inl AttributeError" by (simp add: ws_recv_def ws_handle_def)
      with raised Inr JOther show ?thesis by simp
    next
      case (JObject msg)
      have "gw_round env [Readable fd (In_Bytes data)] g = Inl TypeError"
        if m: "is_subscribe msg" "map_of msg (u ''imei'') = None"
      proof -
        from r data Inr JObject m have
          "ws_recv env (In_Bytes data) c = Inr (Some [msg], c\<lparr>wc_ws := s, wc_imeis := []\<rparr>)"
          by (simp add: ws_recv_def ws_handle_def)
        moreover have "browser_message env msg = Inl TypeError"
          using m by (simp add: browser_message_def or_default_def)
        ultimately show ?thesis
          using assms(1) c by (simp add: gw_round_def gw_event_step_def g0 browser_messages_def)
      qed
      with Inr JObject show ?thesis by simp
    qed
  qed
  moreover have "gw_round env [Readable fd (In_Bytes data)] g = Inl RemoteProtocolError"
    if "we_receive env (wc_ws c) (Some data) = Inl RemoteProtocolError"
      "http_reply (we_html env) data \<in> {Inl ValueError, Inl UnicodeDecodeError}"
    using that data by (intro raised) (auto simp: ws_recv_def try_http_def)
  ultimately show ?thesis by blast
qed

theorem browser_stops_gateway_witness:
  "gw_round (ex_gw_env\<lparr>we_receive := (\<lambda>w d. Inr ([Ws_Text (u ''hello'')], w))\<rparr>)
    [Readable 7 (In_Bytes [1])] ex_gateway = Inl ValueError"
proof -
  have "update_subs ex_gateway = Inr ex_gateway"
    by (simp add: update_subs_def ws_subs_def ex_gateway_def ex_ws_def init_gateway_def)
  from browser_stops_gateway [OF this ex_gateway_client, of "[1]"
      "ex_gw_env\<lparr>we_receive := (\<lambda>w d. Inr ([Ws_Text (u ''hello'')], w))\<rparr>" "u ''hello''" "()"]
  show ?thesis by (simp add: ex_gw_env_def)
qed

text \<open>
  A browser that closes its websocket can end the service too. The close is answered, after which the
  engine makes no more messages for this connection (\<open>LocalProtocolError\<close>, as the package documents);
  but the client stays ready and subscribed until its socket is closed, and a report for it in the
  same round, or before the socket is closed, raises out of the loop.
\<close>

theorem closed_subscriber_stops_gateway:
  assumes "update_subs g = Inr g0" and c: "map_of (gw_clients g) fd = Some c" "wc_ready c" "wants i c"
    and data: "data \<noteq> []" "we_receive env (wc_ws c) (Some data) = Inr ([Ws_Close], w)"
    and engine: "we_send env w (Ws_Response Ws_Close) = Inr (frame, w')"
      "\<And>txt. we_send env w' (Ws_Message txt) = Inl LocalProtocolError"
    and report: "live_message env b = Inr m" "map_of m (u ''imei'') = Some (VStr i)"
  shows "\<not> returns (gw_round env [Readable fd (In_Bytes data), Sub_Ready [b]] g)"
proof -
  from assms(1) have g0: "gw_clients g0 = gw_clients g" by (auto simp: update_subs_def Let_def res_simps)
  let ?c = "c\<lparr>wc_ws := w', wc_data := wc_data c @ frame\<rparr>"
  let ?cs = "AList.update fd ?c (gw_clients g)"
  have recv: "ws_recv env (In_Bytes data) c = Inr (Some [], ?c)"
    using data engine(1) by (simp add: ws_recv_def ws_handle_def ws_append_def)
  have "map_of ?cs fd = Some ?c" by (simp add: update_conv')
  then have "(fd, ?c) \<in> set ?cs" by (rule map_of_SomeD)
  moreover have "wants i ?c" "wc_ready ?c" "\<not> returns (we_send env (wc_ws ?c) (Ws_Message (we_dumps env m)))"
    using c(2,3) engine(2) by (simp_all add: wants_def returns_def)
  ultimately have "\<not> sendable env m i ?cs" unfolding sendable_def by blast
  with ws_send_all_to [OF report(2), of env ?cs] have "\<not> returns (ws_send_all env m ?cs)" by simp
  then show ?thesis
    using assms(1) c(1) recv report(1)
    by (auto simp: gw_round_def gw_event_step_def g0 no_batch_def send_message_def returns_def res_simps)
qed

text \<open>An engine with the states of a connection: open, or not\<close>

definition ex_close_env :: "bool gw_env" where
  "ex_close_env = \<lparr>we_init = False, we_receive = (\<lambda>w d. Inr (if d = Some [136] then [Ws_Close] else [Ws_Request], w)),
     we_send = (\<lambda>w out. case out of Ws_Accept \<Rightarrow> Inr ([1], True) | Ws_Response ev \<Rightarrow> Inr ([2], w \<and> ev \<noteq> Ws_Close)
       | Ws_Message txt \<Rightarrow> if w then Inr ([3], w) else Inl LocalProtocolError),
     we_loads = (\<lambda>s. Inr (JObject [])), we_dumps = (\<lambda>_. []), we_html = No_File, we_sock_send = (\<lambda>fd b. Some (length b)),
     ge_db = ex_db, ge_now = 1000, ge_time = 0, ge_datetime = ex_now, ge_pmods = [Zx303, Beesure],
     ge_repr = (\<lambda>_. []), ge_str = (\<lambda>_. [])\<rparr>"

definition ex_open_ws :: "bool ws_client" where
  "ex_open_ws = \<lparr>wc_fd = 7, wc_addr = ex_addr, wc_ws = True, wc_data = [],
     wc_ready = True, wc_imeis = [VStr ex_zx_imei], wc_out = []\<rparr>"

definition ex_close_gateway :: "bool gateway" where
  "ex_close_gateway = init_gateway\<lparr>gw_clients := [(7, ex_open_ws)]\<rparr>"

theorem closed_subscriber_stops_gateway_witness:
  "\<exists>b. rept_packed \<lparr>p_imei = Some ex_zx_imei, p_payload = []\<rparr> = Inr b \<and>
    \<not> returns (gw_round ex_close_env [Readable 7 (In_Bytes [136]), Sub_Ready [b]] ex_close_gateway)"
proof -
  have f: "fits16 ex_zx_imei" by (rule zx_own_fits [OF ex_zx_imei_own])
  have "wf_rept \<lparr>p_imei = Some ex_zx_imei, p_payload = []\<rparr>"
    using f by (simp add: wf_rept_def returns_def utf8_encode_ascii ascii_def wf_opt_def ex_zx_imei_def Cons_replicate_eq)
  from rept.round [OF this] obtain b where b: "rept_packed \<lparr>p_imei = Some ex_zx_imei, p_payload = []\<rparr> = Inr b"
    "rept_decode b = Inr \<lparr>p_imei = Some ex_zx_imei, p_payload = []\<rparr>" by auto
  then have m: "live_message ex_close_env b = Inr [(u ''imei'', VStr ex_zx_imei)]"
    by (simp add: live_message_def ex_close_env_def opt_str_def)
  obtain bs where "utf8_encode ex_zx_imei = Inr bs" using fits16D [OF f] by blast
  then have "returns (update_subs ex_close_gateway)"
    by (simp add: rtopic_def update_subs_def Let_def ws_subs_def ex_close_gateway_def ex_open_ws_def init_gateway_def val_topic_def returns_def)
  then obtain g0 where g0: "update_subs ex_close_gateway = Inr g0" by (auto simp: returns_def)
  have "\<not> returns (gw_round ex_close_env [Readable 7 (In_Bytes [136]), Sub_Ready [b]] ex_close_gateway)"
    by (rule closed_subscriber_stops_gateway [OF g0 _ _ _ _ _ _ _ m, where c = ex_open_ws and w = True
          and w' = False and frame = "[2]"])
      (simp_all add: ex_close_gateway_def ex_close_env_def ex_open_ws_def wants_def)
  with b(1) show ?thesis by blast
qed

end
