(* ===== verification/Commands.thy ===== *)
theory Commands
  imports Browsers
begin

text \<open>
  What becomes of a browser's command: from the gateway, over the module that is on record for the
  terminal, to the collector.
\<close>

section \<open>Packets of commands\<close>

lemma PMODNAME_inj: "PMODNAME p = PMODNAME q \<Longrightarrow> p = q"
  by (cases p; cases q) simp_all

lemma pmod_by_name_own: "pmod_by_name pmods (PMODNAME p) = (if p \<in> set pmods then Some p else None)"
  by (induction pmods) (auto simp: pmod_by_name_def dest: PMODNAME_inj)

lemma bs_packed_length:
  assumes "bs_packed c data = Inr q"
  shows "length (bs_text c data) \<le> length q"
  using utf8_encode_length [of "u ''[LT*0000000000*'' @ format_04X (length (bs_text c data)) @ [42] @ bs_text c data @ [93]" q]
    assms by (simp add: bs_packed_def Let_def)

lemma bs_packed_header:
  assumes "bs_packed c data = Inr q" and "length q < 65536"
  shows "bs_header q"
proof -
  have n: "length (bs_text c data) < 65536" using bs_packed_length [OF assms(1)] assms(2) by simp
  with assms(1) obtain t where "q = mk_header (b8 ''LT'') (b8 ''0000000000'')
      (map byte_of (format_04X (length (bs_text c data)))) @ t @ [93]" by (auto simp: bs_packed_Inr)
  with LT_header(1) [OF n] show ?thesis by simp
qed

lemma command_sendable:
  assumes "common_make_response rep pmods (PMODNAME pm) c i kw = Inr (Some t)"
    and "pout_packed now t = Inr packet" and "length packet < 65536"
  shows "pm_sendable pm packet"
proof -
  from assms(1) have "pm_make_response rep pm c i kw = Inr (Some t)"
    by (auto simp: common_make_response_def pmod_by_name_own split: if_splits)
  with assms(2,3) show ?thesis
    by (cases pm) (auto simp: res_simps zx_good_def zx_packed_Inr Let_def intro: bs_packed_header)
qed

lemma some_result: "\<exists>s. cmdresult im t = cmdresult im s"
  by (rule exI) (rule refl)

section \<open>Packets that cannot be framed\<close>

lemma not_header_unframable: "\<not> bs_header q \<Longrightarrow> bs_enframe q im = Inl AssertionError"
  using bs_search_0 [of q]
  by (auto simp: bs_enframe_def bs_framestart_def Let_def split: option.split nat.split)

lemma hexX_nat_long: "16 ^ k \<le> n \<Longrightarrow> k < length (hexX_nat n)"
proof (induction k arbitrary: n)
  case 0
  then show ?case by (subst hexX_nat.simps) simp
next
  case (Suc k)
  then have "16 ^ k \<le> n div 16" by (simp add: less_eq_div_iff_mult_less_eq)
  moreover have "(1 :: nat) \<le> 16 ^ k" by simp
  then have "\<not> n < 16" using Suc.prems unfolding power_Suc by linarith
  ultimately show ?case using Suc.IH [of "n div 16"] by (subst hexX_nat.simps) simp
qed

lemma long_packet_no_header:
  assumes "ascii data" and "65536 \<le> length (bs_text c data)"
  shows "\<exists>q. bs_packed c data = Inr q \<and> \<not> bs_header q"
proof -
  let ?t = "bs_text c data"
  let ?f = "format_04X (length ?t)" and ?h = "u ''[LT*0000000000*''"
  have "4 < length (hexX_nat (length ?t))" using hexX_nat_long [of 4 "length ?t"] assms(2) by simp
  then have len: "4 < length ?f" by (simp add: format_04X_def)
  then have "?f ! 4 \<in> set ?f" by simp
  from format_04X_digits [OF this] obtain d where d: "?f ! 4 = hexdigit_upper d" "d < 16" by blast
  have "ascii ?f"
    unfolding ascii_def using format_04X_digits [of _ "length ?t"] by (fastforce simp: hexdigit_upper_def)
  moreover have "ascii ?t" using assms(1) by (simp add: ascii_bs_text)
  ultimately have "ascii (?h @ ?f @ [42] @ ?t @ [93])" by (auto simp: ascii_def)
  from utf8_encode_ascii [OF this] have q: "bs_packed c data = Inr (map byte_of (?h @ ?f @ [42] @ ?t @ [93]))"
    by (simp only: bs_packed_def Let_def)
  have "map byte_of (?h @ ?f @ [42] @ ?t @ [93]) ! 19 = byte_of (?f ! 4)"
    using len by (simp add: nth_append)
  moreover have "byte_of (?f ! 4) \<noteq> 42"
  proof
    assume "byte_of (?f ! 4) = 42"
    then have "unat (byte_of (?f ! 4)) = 42" by simp
    with d show False by (simp add: hexdigit_upper_def split: if_splits)
  qed
  ultimately have "\<not> bs_header (map byte_of (?h @ ?f @ [42] @ ?t @ [93]))" unfolding bs_header_def by metis
  with q show ?thesis by blast
qed

lemma utf16_hex_ascii: "ascii s \<Longrightarrow> \<exists>h. utf16_hex s = Inr h \<and> length h = 4 * length s \<and> ascii h"
proof -
  assume s: "ascii s"
  then have "map_res utf16_char s = Inr (map (\<lambda>c. [byte_of (c div 256), byte_of (c mod 256)]) s)"
    by (induction s) (auto simp: ascii_def utf16_char_def)
  moreover have "length (concat (map (\<lambda>c. [byte_of (c div 256), byte_of (c mod 256)]) s)) = 2 * length s"
    by (induction s) auto
  ultimately show ?thesis using hex_bytes_ascii by (auto simp: utf16_hex_def ascii_def)
qed

section \<open>Properties\<close>

text \<open>
  C34: A command is answered with a result for the same IMEI. When a message is pushed, and the module
  on record is the one of the terminal, the collector gets a response for this IMEI whose packet, if it
  is shorter than 64K, the module can frame.
\<close>

theorem command_framable:
  assumes "sendcmd env msg = Inr (res, out)"
  shows "map_of res (u ''type'') = Some (VStr (u ''cmdresult'')) \<and>
    map_of res (u ''imei'') = Some (or_default msg (u ''imei'') VNone) \<and>
    (\<forall>b i pm. out = Some b \<and> map_of msg (u ''imei'') = Some (VStr i) \<and> i \<noteq> replicate 16 48 \<and> pm_own_imei pm i \<and>
      fetchpmod (ge_now env) i (ge_db env) = Some (PMODNAME pm) \<longrightarrow>
      (\<exists>m. resp_decode b = Inr m \<and> r_imei m = Some i \<and> (length (r_packet m) < 65536 \<longrightarrow> resp_ok m)))"
proof -
  let ?im = "or_default msg (u ''imei'') VNone"
  have "\<exists>s. res = cmdresult ?im s"
    by (cases ?im)
      (use assms in \<open>auto simp: sendcmd_def Let_def res_simps some_result split: option.splits if_splits\<close>)
  moreover have "\<exists>m. resp_decode b = Inr m \<and> r_imei m = Some i \<and> (length (r_packet m) < 65536 \<longrightarrow> resp_ok m)"
    if "out = Some b" "map_of msg (u ''imei'') = Some (VStr i)" and nz: "i \<noteq> replicate 16 48"
      and own: "pm_own_imei pm i" and rec: "fetchpmod (ge_now env) i (ge_db env) = Some (PMODNAME pm)" for b i pm
  proof -
    have im: "?im = VStr i" using that(2) by (simp add: or_default_def)
    have "sql_key env (VStr i) = Inr (Some i)" by (simp add: sql_key_def)
    with assms that(1) rec im obtain c kw t packet where
      t: "common_make_response (ge_repr env) (ge_pmods env) (PMODNAME pm) c (ge_str env (VStr i)) kw = Inr (Some t)"
        "pout_packed (ge_datetime env) t = Inr packet"
        "resp_packed \<lparr>r_imei = Some i, r_when = Some (ge_time env), r_packet = packet\<rparr> = Inr b"
      by (auto simp: sendcmd_def Let_def gw_response_def res_simps split: option.splits if_splits pyval.splits)
    have "wf_resp \<lparr>r_imei = Some i, r_when = Some (ge_time env), r_packet = packet\<rparr>"
      using own_imei_fits [OF own] nz by (simp add: wf_resp_def wf_opt_def)
    from resp.round [OF this] t(3) have
      "resp_decode b = Inr \<lparr>r_imei = Some i, r_when = Some (ge_time env), r_packet = packet\<rparr>"
      by (simp add: norm_resp_def when_bits_def)
    with sendable_resp_ok [OF own command_sendable [OF t(1,2)]] show ?thesis by simp
  qed
  ultimately show ?thesis by (auto simp: cmdresult_def)
qed

definition ex_cmd_env :: "unit gw_env" where
  "ex_cmd_env = ex_gw_env\<lparr>ge_db := ex_db\<lparr>pmodmap := [(ex_imei, PMODNAME Beesure, 1000)]\<rparr>\<rparr>"

lemma ex_cmd_env_pmod: "fetchpmod (ge_now ex_cmd_env) ex_imei (ge_db ex_cmd_env) = Some (PMODNAME Beesure)"
  by (simp add: ex_cmd_env_def ex_gw_env_def fetchpmod_def)

lemma ex_imei_own: "pm_own_imei Beesure ex_imei" "ex_imei \<noteq> replicate 16 48" "fits16 ex_imei"
  by (simp_all add: ex_imei_def imei_digits_def Cons_replicate_eq fits16_ascii ascii_def)

lemma resp_packed_returns: "fits16 i \<Longrightarrow> \<exists>b. resp_packed \<lparr>r_imei = Some i, r_when = w, r_packet = p\<rparr> = Inr b"
  by (auto simp: resp_packed_def elim!: fits16D)

theorem command_framable_witness:
  "\<exists>res b m. sendcmd ex_cmd_env [(u ''imei'', VStr ex_imei), (u ''type'', VStr (u ''refresh''))] = Inr (res, Some b) \<and>
    map_of res (u ''type'') = Some (VStr (u ''cmdresult'')) \<and> resp_decode b = Inr m \<and> r_imei m = Some ex_imei"
proof -
  let ?msg = "[(u ''imei'', VStr ex_imei), (u ''type'', VStr (u ''refresh''))]"
  have pm: "pmod_by_name (ge_pmods ex_cmd_env) (PMODNAME Beesure) = Some Beesure"
    by (simp add: pmod_by_name_own ex_cmd_env_def ex_gw_env_def del: PMODNAME.simps)
  obtain q where q: "bs_packed MONITOR [] = Inr q"
    using bs_packed_returns [of "[]" MONITOR] by (auto simp: ascii_def bs_text_def)
  obtain b where b: "resp_packed \<lparr>r_imei = Some ex_imei, r_when = Some (ge_time ex_cmd_env), r_packet = q\<rparr> = Inr b"
    using resp_packed_returns [OF ex_imei_own(3)] by blast
  have "sql_key ex_cmd_env (VStr ex_imei) = Inr (Some ex_imei)" by (simp add: sql_key_def)
  with pm q b ex_cmd_env_pmod obtain res where r: "sendcmd ex_cmd_env ?msg = Inr (res, Some b)"
    by (simp add: sendcmd_def Let_def or_default_def without_def gw_response_def common_make_response_def
        bs_make_response_def init_kwargs_def del: PMODNAME.simps)
  note c = command_framable [OF r]
  have "\<exists>m. resp_decode b = Inr m \<and> r_imei m = Some ex_imei \<and> (length (r_packet m) < 65536 \<longrightarrow> resp_ok m)"
    using ex_imei_own ex_cmd_env_pmod
    by (intro c [THEN conjunct2, THEN conjunct2, rule_format, of b ex_imei Beesure]) simp
  with r conjunct1 [OF c] show ?thesis by blast
qed

text \<open>
  A browser's command can end the collector. Where the module on record for a beesure terminal is
  the other one (the collector's copies of responses put it there), \<open>poweroff\<close> makes a packet that the
  terminal's module cannot frame; where it is the right one, a \<open>message\<close> of 16382 or more
  characters makes one whose length has five digits. Either, pushed while the terminal is
  connected, raises \<open>AssertionError\<close> out of the collector's loop.
\<close>

theorem command_stops_collector:
  assumes "server_inv sv" and "sessions_of (s_clients sv) fd = Some (a, Some i)"
    and "imei_digits i" and "set (ge_pmods env) = {Zx303, Beesure}"
  shows "(fetchpmod (ge_now env) i (ge_db env) = Some (PMODNAME Zx303) \<longrightarrow>
      (\<exists>res b. sendcmd env [(u ''imei'', VStr i), (u ''type'', VStr (u ''poweroff''))] = Inr (res, Some b) \<and>
         iteration conf [Zpull [b]] sv = Inl AssertionError)) \<and>
    (fetchpmod (ge_now env) i (ge_db env) = Some (PMODNAME Beesure) \<longrightarrow> ascii s \<longrightarrow> 16382 \<le> length s \<longrightarrow>
      (\<exists>res b. sendcmd env [(u ''imei'', VStr i), (u ''type'', VStr (u ''message'')), (u ''txt'', VStr s)] =
           Inr (res, Some b) \<and>
         iteration conf [Zpull [b]] sv = Inl AssertionError))"
proof -
  have own: "pm_own_imei Beesure i" using assms(3) by simp
  then have f: "fits16 i" by (rule own_imei_fits)
  have nz: "i \<noteq> replicate 16 48" using assms(3) by (auto simp: imei_digits_def)
  have key: "sql_key env (VStr i) = Inr (Some i)" by (simp add: sql_key_def)
  have pm: "pmod_by_name (ge_pmods env) (PMODNAME p) = Some p" for p
    using assms(4) by (cases p) (simp_all add: pmod_by_name_own del: PMODNAME.simps)
  have kill: "iteration conf [Zpull [b]] sv = Inl AssertionError"
    if b: "resp_packed \<lparr>r_imei = Some i, r_when = Some (ge_time env), r_packet = q\<rparr> = Inr b"
      and q: "\<not> bs_header q" for q b
  proof -
    have "wf_resp \<lparr>r_imei = Some i, r_when = Some (ge_time env), r_packet = q\<rparr>"
      using f nz by (simp add: wf_resp_def wf_opt_def)
    from resp.round [OF this] b have
      "resp_decode b = Inr \<lparr>r_imei = Some i, r_when = Some (ge_time env), r_packet = q\<rparr>"
      by (simp add: norm_resp_def when_bits_def)
    from unframable_response [OF assms(1) this _ assms(2) own] not_header_unframable [OF q]
    show ?thesis by simp
  qed
  have "\<exists>res b. sendcmd env [(u ''imei'', VStr i), (u ''type'', VStr (u ''poweroff''))] = Inr (res, Some b) \<and>
      iteration conf [Zpull [b]] sv = Inl AssertionError"
    if rec: "fetchpmod (ge_now env) i (ge_db env) = Some (PMODNAME Zx303)"
  proof -
    obtain q where q: "zx_packed None HIBERNATION [] = Inr q" "length q = 2"
      using zx_packed_Inr [of None HIBERNATION "[]"] by (auto simp: Let_def)
    then have "\<not> bs_header q" by (simp add: bs_header_def)
    moreover obtain b where b: "resp_packed \<lparr>r_imei = Some i, r_when = Some (ge_time env), r_packet = q\<rparr> = Inr b"
      using resp_packed_returns [OF f] by blast
    moreover obtain res where "sendcmd env [(u ''imei'', VStr i), (u ''type'', VStr (u ''poweroff''))] = Inr (res, Some b)"
      using pm [of Zx303] q b rec key
      by (simp add: sendcmd_def Let_def or_default_def without_def gw_response_def common_make_response_def
          zx_make_response_def init_kwargs_def del: PMODNAME.simps)
    ultimately show ?thesis using kill by blast
  qed
  moreover have "\<exists>res b. sendcmd env [(u ''imei'', VStr i), (u ''type'', VStr (u ''message'')), (u ''txt'', VStr s)] =
      Inr (res, Some b) \<and> iteration conf [Zpull [b]] sv = Inl AssertionError"
    if rec: "fetchpmod (ge_now env) i (ge_db env) = Some (PMODNAME Beesure)" and s: "ascii s" "16382 \<le> length s"
  proof -
    from utf16_hex_ascii [OF s(1)] obtain h where h: "utf16_hex s = Inr h" "length h = 4 * length s" "ascii h" by blast
    then have "65536 \<le> length (bs_text MESSAGE h)" using s(2) by (auto simp: bs_text_def)
    from long_packet_no_header [OF h(3) this] obtain q where q: "bs_packed MESSAGE h = Inr q" "\<not> bs_header q" by blast
    obtain b where b: "resp_packed \<lparr>r_imei = Some i, r_when = Some (ge_time env), r_packet = q\<rparr> = Inr b"
      using resp_packed_returns [OF f] by blast
    moreover obtain res where "sendcmd env [(u ''imei'', VStr i), (u ''type'', VStr (u ''message'')), (u ''txt'', VStr s)] =
        Inr (res, Some b)"
      using pm [of Beesure] q(1) h(1) b rec key
      by (simp add: sendcmd_def Let_def or_default_def without_def gw_response_def common_make_response_def
          bs_make_response_def init_kwargs_def str_attr_def attr_def del: PMODNAME.simps)
    ultimately show ?thesis using kill q(2) by blast
  qed
  ultimately show ?thesis by blast
qed

theorem command_stops_collector_witness:
  "\<exists>res b. sendcmd ex_cmd_env [(u ''imei'', VStr ex_imei), (u ''type'', VStr (u ''message'')),
      (u ''txt'', VStr (replicate 20000 65))] = Inr (res, Some b) \<and>
    iteration ex_config [Zpull [b]] ex_server = Inl AssertionError"
proof -
  have "sessions_of (s_clients ex_server) 7 = Some (ex_addr, Some ex_imei)"
    by (simp add: sessions_of_def ex_server_def ex_clients_def)
  moreover have "imei_digits ex_imei" using ex_imei_own(1) by simp
  moreover have "set (ge_pmods ex_cmd_env) = {Zx303, Beesure}" by (simp add: ex_cmd_env_def ex_gw_env_def)
  moreover have "ascii (replicate 20000 65)" "16382 \<le> length (replicate 20000 (65 :: nat))"
    by (simp_all add: ascii_def)
  ultimately show ?thesis using command_stops_collector [OF ex_server_inv] ex_cmd_env_pmod by blast
qed

end
