(* ===== verification/Pipeline.thy ===== *)
theory Pipeline
  imports Browsers
begin

text \<open>
  The way of a report through the services: what the collector publishes of a packet, the rectifier
  is subscribed to, and what it publishes of it, the gateway shows. An example terminal and browser.
\<close>

lemma map_res_Inr_mem: "map_res f xs = Inr ys \<Longrightarrow> x \<in> set xs \<Longrightarrow> \<exists>y \<in> set ys. f x = Inr y"
  by (induction xs arbitrary: ys) (auto simp: res_simps)

lemma zx_parsed_name:
  assumes "zx_parse_message tz p In = Inr m" and "zo_cause m = None"
  shows "zx_proto_of_message p = Inr (zx_proto_name (zo_class m))"
proof -
  have "\<not> length p < 2" using assms(1) by (auto simp: zx_parse_total split: if_splits)
  then obtain l c ys where p: "p = l # c # ys" using two_bytes [of p] by auto
  with assms show ?thesis
    by (auto simp: zx_parse_two zx_unknown_def zx_proto_of_message_def pyget_def
        split: option.splits sum.splits)
qed

lemma zx_rectified_class_parsed:
  assumes "zx_parse_message tz p In = Inr m" and "zx_has_rectified (zo_class m)"
  shows "zo_cause m = None"
proof -
  have "\<not> length p < 2" using assms(1) by (auto simp: zx_parse_total split: if_splits)
  then obtain l c ys where p: "p = l # c # ys" using two_bytes [of p] by auto
  with assms show ?thesis by (auto simp: zx_parse_two zx_unknown_def split: option.splits sum.splits)
qed

lemma rectified_exposed: "zx_rectified m = Inr r \<Longrightarrow> zx_has_rectified (zo_class m)"
  by (auto simp: zx_rectified_def split: if_splits)

lemma exposed_zx_name: "zx_has_rectified c \<Longrightarrow> zx_proto_name c \<in> fst ` set (pm_exposed_protos Zx303)"
  using iffD2 [OF exposed_zx, of Zx303 c "zx_RESPOND c = EXT"] by (intro image_eqI) (auto simp del: pm_exposed_protos.simps)

lemma subscribed_to_name:
  assumes "pm \<in> set (re_pmods env)" and "n \<in> fst ` set (pm_exposed_protos pm)" and "rectifier_topics env = Inr ts"
  shows "\<exists>t \<in> set ts. topic n True None = Inr t"
proof -
  have "n \<in> set (rev (remdups (rev (map fst (common_exposed_protos (re_pmods env))))))"
    using assms(1,2) by (force simp: common_exposed_protos_def)
  with map_res_Inr_mem [OF assms(3) [unfolded rectifier_topics_def]] show ?thesis by blast
qed

lemma rectifier_subscribed:
  assumes "received_ok (pm, imei, peer, p)" and "publish_in t (pm, imei, peer, p) = Inr msg"
    and "pm_proto_of_message pm p = Inr n" and "n \<in> fst ` set (pm_exposed_protos pm)"
    and "pm \<in> set (re_pmods env)" and "rectifier_topics env = Inr ts"
  shows "\<exists>t \<in> set ts. prefix t msg"
proof -
  note fits = exposed_fits [OF assms(4)]
  from pm_broadcast_packed [OF assms(1-3) fits] obtain m where
    m: "wf_bcast m" "bcast_packed m = Inr msg" "b_is_incoming m" "b_proto m = n" by blast
  from subscribed_to_name [OF assms(5,4,6)] obtain t where "t \<in> set ts" "topic n True None = Inr t" by blast
  with topic_prefix [OF m(1,2) fits, of None True] m(3,4) show ?thesis by auto
qed

lemma rectify_report:
  assumes r: "received_ok (pm, Some i, peer, p)" and msg: "publish_in t (pm, Some i, peer, p) = Inr msg"
    and n: "pm_proto_of_message pm p = Inr n" "n \<in> fst ` set (pm_exposed_protos pm)"
    and m: "pm_parse_message (re_tz env) pm p In = Inr m" "pm_rectified m = Inr rep" "\<forall>h. rep \<noteq> HintReport h"
    and env: "pm \<in> set (re_pmods env)" "re_fromtimestamp env (Some t) = Inr ()"
      "ascii (re_dumps env (report_json rep))" and i: "i \<noteq> replicate 16 48"
  shows "\<exists>b. rectify env msg s = Inr ([Publish b], s) \<and> publish_report env (Some i) rep = Inr b"
proof -
  have w: "wire_imei (Some i) = Some i" using i by (simp add: wire_imei_def)
  have "fits16 j" if "Some i = Some j" for j using own_imei_fits [OF received_own [OF r that]] .
  from publish_report_ok [OF env(3) this, where imei = "Some i"] obtain b where
    b: "publish_report env (Some i) rep = Inr b" unfolding w by auto
  have "rectify env msg s = (case rep of HintReport h \<Rightarrow> Inr (answer_hint env (pm_bcast pm n (Some i) t peer p) m h s)
       | _ \<Rightarrow> and_then (publish_report env (Some i) rep) (\<lambda>b. Inr ([Publish b], s)))"
    using rectify_pm [OF r msg n(1) exposed_fits [OF n(2)] env(1,2)] unfolding m(1) w by (simp add: m(2))
  also have "\<dots> = Inr ([Publish b], s)" using m(3) b by (cases rep) simp_all
  finally show ?thesis using b by blast
qed

section \<open>An example terminal\<close>

definition ex_zx_clients :: clients where
  "ex_zx_clients =
     \<lparr>heap = [\<lparr>c_fd = 7, c_open = True, c_addr = ex_addr, c_pmod = Some Zx303,
                c_stream = Some (Zx_Stream zx_Stream), c_imei = Some ex_zx_imei\<rparr>],
      by_fd = [7 \<mapsto> 0], by_imei = [ex_zx_imei \<mapsto> 0]\<rparr>"

lemma ex_zx_clients_inv: "clients_inv ex_zx_clients"
  using ex_zx_imei_own ex_addr_wf
  by (auto simp: clients_inv_def ex_zx_clients_def client_wf_def split: if_splits)

definition ex_zx_server :: server where
  "ex_zx_server = \<lparr>s_clients = ex_zx_clients, pollingfds = {7}, registered = {7}, last_pmod = Some Zx303,
     published = [], sent = []\<rparr>"

lemma ex_zx_server_inv: "server_inv ex_zx_server"
  using ex_zx_clients_inv
  by (auto simp: server_inv_def ex_zx_server_def pmod_bound_def fds_def ex_zx_clients_def)

text \<open>A STATUS message\<close>

definition ex_status_packet :: bytes where
  "ex_status_packet = [6, 0x13, 80, 3, 2, 25, 7]"

lemma ex_status_parse:
  "\<exists>m. zx_parse_message tz ex_status_packet In = Inr m \<and> zo_cause m = None \<and>
     zx_rectified m = Inr (StatusReport \<lparr>sr_battery_percentage = 80\<rparr>)"
proof -
  have "zx_CLASSES 0x13 = Some STATUS" by (simp add: zx_CLASSES_PROTO)
  then show ?thesis
    by (simp add: ex_status_packet_def zx_parse_two zx_decode_def status_in_decode_def zx_rectified_def)
qed

lemma ex_zx_recv:
  "\<exists>cs. clients_recv tz pmods 7 (Recv_Bytes (XX @ ex_status_packet @ ZX_Stream.CRLF)) ex_zx_clients =
     Inr (Some [(Zx303, Some ex_zx_imei, ex_addr, ex_status_packet)], cs)"
proof -
  have "zx_framable ex_status_packet" by (simp add: zx_framable_def ex_status_packet_def All_less_Suc)
  then have "zx_recv zx_Stream (XX @ ex_status_packet @ ZX_Stream.CRLF) = ([Packet ex_status_packet], zx_Stream)"
    by (rule zx_recv_one) (simp add: ex_status_packet_def)
  then show ?thesis 
    by (simp add: clients_recv_def client_recv_def ex_zx_clients_def clients_login_def set_obj_def)
qed

section \<open>An example browser\<close>

definition ex_status_env :: "unit gw_env" where
  "ex_status_env = ex_gw_env\<lparr>we_loads := (\<lambda>s. if s = u ''...''
     then Inr (JObject (report_json (StatusReport \<lparr>sr_battery_percentage = 80\<rparr>))) else Inl ValueError)\<rparr>"

lemma ex_status_env_simps:
  "we_loads ex_status_env (re_dumps ex_env d) = Inr (JObject (report_json (StatusReport \<lparr>sr_battery_percentage = 80\<rparr>)))"
  "returns (we_send ex_status_env w (Ws_Message msg))"
  by (simp_all add: ex_status_env_def ex_gw_env_def ex_env_def returns_def)

lemma ex_zx_imei_nonzero: "ex_zx_imei \<noteq> replicate 16 48"
  by (simp add: ex_zx_imei_def Cons_replicate_eq)

lemma ex_subscribed_update: "\<exists>g0. update_subs ex_subscribed = Inr g0 \<and> gw_clients g0 = [(7, ex_sub)]"
proof -
  obtain b where b: "utf8_encode ex_zx_imei = Inr b" using fits16D [OF zx_own_fits [OF ex_zx_imei_own]] by blast
  then show ?thesis
    by (simp add: update_subs_def Let_def ws_subs_def ex_subscribed_def ex_gateway_def init_gateway_def ex_sub_def
        val_topic_def rtopic_def)
qed

lemma exposed_encodable:
  assumes "n \<in> set (map fst (pm_exposed_protos pm))"
  shows "returns (utf8_encode n)"
proof (cases pm)
  case Zx303
  with assms obtain c where "n = zx_proto_name c" by (auto simp: zx_exposed_protos_def)
  with fits16D [OF zx_name_fits [of c]] show ?thesis by (auto simp: returns_def)
next
  case Beesure
  with assms obtain c where "n = BS_PREFIX @ bs_PROTO c"
    by (auto simp: bs_exposed_protos_def bs_proto_name_full)
  then have "ascii n" by (cases c) (simp_all add: ascii_def BS_PREFIX_def)
  then show ?thesis by (simp add: returns_def utf8_encode_ascii)
qed

lemma rectifier_topics_returns: "returns (rectifier_topics env)"
proof -
  have "topic n True None = Inr (projr (topic n True None))"
    if "n \<in> set (rev (remdups (rev (map fst (common_exposed_protos (re_pmods env))))))" for n
  proof -
    from that obtain pm where "n \<in> set (map fst (pm_exposed_protos pm))"
      by (auto simp: common_exposed_protos_def)
    from exposed_encodable [OF this] show ?thesis by (auto simp: topic_def returns_def)
  qed
  then have "rectifier_topics env = Inr (map (\<lambda>n. projr (topic n True None))
      (rev (remdups (rev (map fst (common_exposed_protos (re_pmods env)))))))"
    unfolding rectifier_topics_def by (rule map_res_total)
  then show ?thesis by (simp add: returns_def)
qed

end
