(* ===== verification/Termconfig.thy ===== *)
theory Termconfig
  imports Published
begin

text \<open>
  The service that sends terminals their settings (\<open>loctrkd/termconfig.py\<close>): the values of a section
  of the configuration file, and one round of the loop, from a broadcast of the collector to the
  response. A configuration is the list of the items of each section, as \<open>configparser\<close> gives them.
\<close>

section \<open>Values of the configuration\<close>

text \<open>A quoted value loses its quotes; an empty one has no first character.\<close>

definition conf_value :: "pystr \<Rightarrow> pyval res" where
  "conf_value el =
     (case py_int_auto el of
        Inr i \<Rightarrow> Inr (VInt i)
      | Inl e \<Rightarrow>
          (case el of
             [] \<Rightarrow> Inl IndexError
           | c # _ \<Rightarrow> Inr (VStr (if c = 34 \<and> last el = 34 then strip 34 el else el))))"

definition conf_values :: "pystr \<Rightarrow> pyval res" where
  "conf_values val =
     (let vals = split_on 10 val;
          vals1 = (if length vals > 1 \<and> hd vals = [] then tl vals else vals)
      in and_then (map_res conf_value vals1) (\<lambda>lst.
           if \<not> (list_all is_int lst \<or> list_all is_str lst) then Inl ValueError
           else if length lst = 1 then Inr (hd lst)
           else Inr (VList lst)))"

definition normconf :: "(pystr \<times> pystr) list \<Rightarrow> attrs res" where
  "normconf section = map_res (\<lambda>(key, val). and_then (conf_values val) (\<lambda>v. Inr (key, v))) section"

section \<open>One round\<close>

record tc_env =
  tc_sections :: "pystr \<rightharpoonup> (pystr \<times> pystr) list"
  tc_fromtimestamp :: "64 word option \<Rightarrow> unit res"
  tc_tz :: "datetime \<Rightarrow> datetime"
  tc_repr :: "pyval \<Rightarrow> pystr"
  tc_now :: datetime

definition tc_config :: "tc_env \<Rightarrow> pystr option \<Rightarrow> attrs res" where
  "tc_config env imei =
     (case (case imei of None \<Rightarrow> None | Some i \<Rightarrow> tc_sections env i) of
        Some items \<Rightarrow> normconf items
      | None \<Rightarrow> (case tc_sections env (u ''termconfig'') of
          Some items \<Rightarrow> normconf items
        | None \<Rightarrow> Inr []))"

definition setup_keys :: "pystr list" where
  "setup_keys = [u ''uploadintervalseconds'', u ''binaryswitch'', u ''alarms'', u ''dndtimeswitch'',
     u ''dndtimes'', u ''gpstimeswitch'', u ''gpstimestart'', u ''gpstimestop'', u ''phonenumbers'']"

definition tc_kwargs :: "zx_class \<Rightarrow> attrs \<Rightarrow> attrs" where
  "tc_kwargs c conf =
     (if c = STATUS then
        [(u ''upload_interval'',
          case map_of conf (u ''statusintervalminutes'') of Some v \<Rightarrow> v | None \<Rightarrow> VInt 25)]
      else if c = SETUP then
        concat (map (\<lambda>key. case map_of conf key of Some v \<Rightarrow> [(key, v)] | None \<Rightarrow> []) setup_keys)
      else [])"

text \<open>
  A class that does not expect a response is only logged, and answered all the same. The result is
  what is pushed to the collector.
\<close>

definition tc_round :: "tc_env \<Rightarrow> bytes \<Rightarrow> bytes res" where
  "tc_round env msg =
     and_then (bcast_decode msg) (\<lambda>z.
     and_then (zx_parse_message (tc_tz env) (b_packet z) In) (\<lambda>m.
     and_then (tc_fromtimestamp env (b_when z)) (\<lambda>_.
     and_then (tc_config env (b_imei z)) (\<lambda>conf.
     and_then (zx_Out_packed (tc_repr env) (tc_now env) (zo_class m) (tc_kwargs (zo_class m) conf)) (\<lambda>packet.
       resp_packed \<lparr>r_imei = b_imei z, r_when = b_when z, r_packet = packet\<rparr>)))))"

section \<open>On a broadcast of a zx303 terminal\<close>

lemma tc_round_zx:
  assumes "received_ok (Zx303, imei, peer, p)" and "publish_in t (Zx303, imei, peer, p) = Inr msg"
    and "tc_fromtimestamp env (Some t) = Inr ()" and "zx_parse_message (tc_tz env) p In = Inr m"
  shows "tc_round env msg =
    and_then (tc_config env (wire_imei imei)) (\<lambda>conf.
    and_then (zx_Out_packed (tc_repr env) (tc_now env) (zo_class m) (tc_kwargs (zo_class m) conf)) (\<lambda>packet.
      resp_packed \<lparr>r_imei = wire_imei imei, r_when = Some t, r_packet = packet\<rparr>))"
proof -
  obtain n where n: "zx_proto_of_message p = Inr n"
    using assms(2) by (auto simp: publish_in_def res_simps)
  show ?thesis using zx_broadcast [OF assms(1,2) n] assms(3,4) by (simp add: tc_round_def)
qed

lemma zx_cause_unknown:
  assumes "zx_parse_message tz p In = Inr m" and "zo_cause m \<noteq> None"
  shows "zo_class m = zx_class.UNKNOWN"
proof -
  from assms(1) have "\<not> length p < 2" by (auto simp: zx_parse_message_def split: list.splits)
  then obtain l c ys where "p = l # c # ys" using two_bytes [of p] by auto
  with assms show ?thesis
    by (auto simp: zx_parse_two zx_unknown_def split: option.splits sum.splits)
qed

fun conf_typed :: "pyval \<Rightarrow> bool" where
  "conf_typed (VInt i) = True"
| "conf_typed (VStr s) = True"
| "conf_typed (VList vs) = (length vs \<noteq> 1 \<and> (list_all is_int vs \<or> list_all is_str vs))"
| "conf_typed v = False"

section \<open>Properties\<close>

text \<open>
  C30: The values a section gives are typed: under every key of the section, in their order,
  there is an integer, a text, or a list of one of the two with other than one element.
\<close>

theorem normconf_typed:
  assumes "normconf items = Inr conf"
  shows "map fst conf = map fst items \<and> (\<forall>(k, v) \<in> set conf. conf_typed v)"
proof -
  have el: "conf_value e = Inr v \<Longrightarrow> (\<exists>i. v = VInt i) \<or> (\<exists>s. v = VStr s)" for e v
    by (auto simp: conf_value_def split: sum.splits list.splits)
  have vals_ok: "conf_typed v"
    if "conf_values val = Inr v" for val v
  proof -
    from that obtain vs lst where lst: "map_res conf_value vs = Inr lst"
      "list_all is_int lst \<or> list_all is_str lst" "v = (if length lst = 1 then hd lst else VList lst)"
      by (auto simp: conf_values_def Let_def res_simps split: if_splits)
    show ?thesis
    proof (cases "length lst = 1")
      case True
      then obtain x where x: "lst = [x]" by (cases lst) auto
      with lst(1) obtain e where "conf_value e = Inr x"
        by (cases vs) (auto simp: res_simps)
      with el [OF this] lst(3) x show ?thesis by auto
    next
      case False
      with lst(2,3) show ?thesis by simp
    qed
  qed
  from assms show ?thesis
  proof (induction items arbitrary: conf)
    case (Cons it items)
    obtain k val where it: "it = (k, val)" by (cases it)
    from Cons.prems obtain v conf' where
      c: "conf_values val = Inr v" "normconf items = Inr conf'" "conf = (k, v) # conf'"
      by (auto simp: it normconf_def res_simps)
    with Cons.IH [OF c(2)] vals_ok [OF c(1)] show ?case by (simp add: it)
  qed (simp add: normconf_def)
qed

theorem normconf_typed_witness:
  "\<exists>conf. normconf [(u ''alarms'', u ''SUN0000''), (u ''dnd'', [10, 49, 10, 50])] = Inr conf \<and>
    map fst conf = [u ''alarms'', u ''dnd''] \<and> conf ! 1 = (u ''dnd'', VList [VInt 1, VInt 2])"
proof -
  let ?items = "[(u ''alarms'', u ''SUN0000''), (u ''dnd'', [10, 49, 10, 50])]"
  have "py_int_auto [49] = Inr 1" "py_int_auto [50] = Inr 2" "py_int_auto (u ''SUN0000'') = Inl ValueError"
    by (simp_all add: py_int_auto_def int_digits_auto_def split_sign_def strip_space_def py_space_def
        unhexdigit_def)
  then obtain conf where conf: "normconf ?items = Inr conf" "conf ! 1 = (u ''dnd'', VList [VInt 1, VInt 2])"
    by (simp add: normconf_def conf_values_def conf_value_def)
  from normconf_typed [OF conf(1)] conf show ?thesis by simp
qed

text \<open>
  What termconfig pushes to the collector, the collector can send: the response decodes to the
  IMEI of the terminal, and its packet is one that the terminal's module can frame, whatever the
  configuration and the message.
\<close>

theorem termconfig_answers_framable:
  assumes r: "received_ok (Zx303, imei, peer, p)" and "publish_in t (Zx303, imei, peer, p) = Inr msg"
    and "tc_fromtimestamp env (Some t) = Inr ()" and "tc_round env msg = Inr b"
  shows "\<exists>m. resp_decode b = Inr m \<and> resp_ok m \<and> r_imei m = imei"
proof -
  have "\<not> length p < 2" using assms(2) by (auto simp: publish_in_def zx_proto_of_message_def res_simps)
  then obtain l c ys where "p = l # c # ys" using two_bytes [of p] by auto
  then obtain m where "zx_parse_message (tc_tz env) p In = Inr m" by (simp add: zx_parse_two)
  from assms(4) tc_round_zx [OF assms(1-3) this] obtain conf packet where
    "zx_Out_packed (tc_repr env) (tc_now env) (zo_class m) (tc_kwargs (zo_class m) conf) = Inr packet"
    "resp_packed \<lparr>r_imei = wire_imei imei, r_when = Some t, r_packet = packet\<rparr> = Inr b"
    by (auto simp: res_simps)
  moreover have "\<And>i. imei = Some i \<Longrightarrow> zx_own_imei i" using r by (auto simp: received_ok_def)
  ultimately show ?thesis using zx_response_ok [of imei t packet b] zx_Out_packed_good by blast
qed

definition ex_tc_env :: tc_env where
  "ex_tc_env = \<lparr>tc_sections = Map.empty, tc_fromtimestamp = (\<lambda>_. Inr ()), tc_tz = id, tc_repr = (\<lambda>_. []),
     tc_now = ex_now\<rparr>"

definition ex_status :: bytes where
  "ex_status = [6, 0x13, 80, 3, 2, 25, 7]"

lemma ex_tc_env_simps: "tc_fromtimestamp ex_tc_env t = Inr ()" "tc_config ex_tc_env imei = Inr []"
  by (simp_all add: ex_tc_env_def tc_config_def split: option.split)

theorem termconfig_answers_framable_witness:
  "\<exists>msg b m. publish_in 0 (Zx303, Some ex_zx_imei, ex_addr, ex_status) = Inr msg \<and>
    tc_round ex_tc_env msg = Inr b \<and> resp_decode b = Inr m \<and> resp_ok m \<and> r_imei m = Some ex_zx_imei"
proof -
  have "zx_framable ex_status" by (simp add: zx_framable_def ex_status_def All_less_Suc)
  then have r: "received_ok (Zx303, Some ex_zx_imei, ex_addr, ex_status)"
    by (rule zx_received) (simp_all add: ex_addr_wf ex_status_def ex_zx_imei_own)
  obtain msg where msg: "publish_in 0 (Zx303, Some ex_zx_imei, ex_addr, ex_status) = Inr msg"
    using zx_published [OF r] by (auto simp: ex_status_def)
  have "zx_CLASSES 0x13 = Some STATUS" by (simp add: zx_CLASSES_PROTO)
  then obtain m where m: "zx_parse_message (tc_tz ex_tc_env) ex_status In = Inr m" "zo_class m = STATUS"
    by (simp add: ex_status_def zx_parse_two zx_decode_def status_in_decode_def)
  obtain packet where packet: "zx_Out_packed (tc_repr ex_tc_env) (tc_now ex_tc_env) STATUS
      (tc_kwargs STATUS []) = Inr packet"
    by (auto simp: tc_kwargs_def zx_Out_packed_def init_kwargs_def zx_packed_def pack_uint_def
        pack_attr_def attr_def)
  obtain b where b: "resp_packed \<lparr>r_imei = wire_imei (Some ex_zx_imei), r_when = Some 0, r_packet = packet\<rparr> = Inr b"
    by (auto simp: wire_imei_def ex_zx_imei_def resp_packed_def utf8_encode_ascii ascii_def Cons_replicate_eq)
  have "tc_round ex_tc_env msg = Inr b"
    using tc_round_zx [OF r msg ex_tc_env_simps(1) m(1)] m(2) packet b by (simp add: ex_tc_env_simps)
  with termconfig_answers_framable [OF r msg ex_tc_env_simps(1) this] msg show ?thesis by blast
qed

text \<open>
  Two messages that any terminal can send end the service: one of a subscribed kind that is cut
  short is parsed into UNKNOWN, whose number fits no byte, and packing its answer raises; so does
  packing the answer to one that comes before the login, when the IMEI is not known.
\<close>

theorem termconfig_stops:
  assumes "received_ok (Zx303, imei, peer, p)" and "publish_in t (Zx303, imei, peer, p) = Inr msg"
    and "tc_fromtimestamp env (Some t) = Inr ()" and m: "zx_parse_message (tc_tz env) p In = Inr m"
    and conf: "tc_config env (wire_imei imei) = Inr conf"
  shows "(zo_cause m \<noteq> None \<longrightarrow> tc_round env msg = Inl StructError) \<and>
    (imei = None \<longrightarrow> \<not> returns (tc_round env msg))"
proof -
  note round = tc_round_zx [OF assms(1-4)]
  have "tc_round env msg = Inl StructError" if "zo_cause m \<noteq> None"
  proof -
    have "zo_class m = zx_class.UNKNOWN" by (rule zx_cause_unknown [OF m that])
    then show ?thesis
      by (simp add: round conf tc_kwargs_def zx_Out_packed_def init_kwargs_def zx_packed_def pack_uint_def)
  qed
  moreover have "\<not> returns (tc_round env msg)" if "imei = None"
    using that by (auto simp: round returns_def res_simps wire_imei_def resp_packed_def)
  ultimately show ?thesis by blast
qed

lemma ex_bad_status_received: "imei \<in> {None, Some ex_zx_imei} \<Longrightarrow>
    received_ok (Zx303, imei, ex_addr, ex_bad_status)"
  by (rule zx_received [OF ex_framable(1)]) (auto simp: ex_addr_wf ex_bad_status_def ex_zx_imei_own)

theorem termconfig_stops_witness:
  "\<exists>msg. publish_in 0 (Zx303, Some ex_zx_imei, ex_addr, ex_bad_status) = Inr msg \<and>
    tc_round ex_tc_env msg = Inl StructError"
proof -
  have r: "received_ok (Zx303, Some ex_zx_imei, ex_addr, ex_bad_status)"
    by (simp add: ex_bad_status_received)
  obtain msg where msg: "publish_in 0 (Zx303, Some ex_zx_imei, ex_addr, ex_bad_status) = Inr msg"
    using zx_published [OF r] by (auto simp: ex_bad_status_def)
  from termconfig_stops [OF r msg ex_tc_env_simps(1) ex_bad_status_parse ex_tc_env_simps(2)] msg show ?thesis
    by (auto simp: zx_unknown_def)
qed

end
