(* ===== verification/Services.thy ===== *)
theory Services
  imports Commands Pipeline Termconfig
begin

text \<open>
  How the services are put together: the first lines of each \<open>runserver\<close> (\<open>collector.py\<close>,
  \<open>rectifier.py\<close>, \<open>termconfig.py\<close>, \<open>storage.py\<close>, \<open>wsgateway.py\<close>, \<open>watch.py\<close>) and of \<open>main\<close> in
  \<open>__main__.py\<close>, which read the configuration and open sockets, and the last ones, which close them.
  What a service does to its sockets is a list of operations; executing it gives the sockets that are
  open, what they are bound and connected to, and the modes of the files that stand for them.
\<close>

unbundle bit_operations_syntax

section \<open>The configuration\<close>

text \<open>
  A section is what \<open>configparser\<close> gives for it, defaults and interpolation included. A fallback
  stands for a missing section or option, not for a wrong value.
\<close>

type_synonym conf_file = "pystr \<rightharpoonup> (pystr \<rightharpoonup> pystr)"

definition conf_get :: "conf_file \<Rightarrow> pystr \<Rightarrow> pystr \<Rightarrow> pystr res" where
  "conf_get conf sec opt =
     (case conf sec of
        None \<Rightarrow> Inl NoSectionError
      | Some s \<Rightarrow> (case s opt of None \<Rightarrow> Inl NoOptionError | Some v \<Rightarrow> Inr v))"

definition conf_getint :: "conf_file \<Rightarrow> pystr \<Rightarrow> pystr \<Rightarrow> int res" where
  "conf_getint conf sec opt = and_then (conf_get conf sec opt) py_int"

definition with_fallback :: "'a \<Rightarrow> 'a res \<Rightarrow> 'a res" where
  "with_fallback d r = (case r of Inl e \<Rightarrow> if e = NoSectionError \<or> e = NoOptionError then Inr d else Inl e | Inr v \<Rightarrow> Inr v)"

definition conf_boolean :: "pystr \<Rightarrow> bool res" where
  "conf_boolean v =
     (if ascii_lower v \<in> {u ''1'', u ''yes'', u ''true'', u ''on''} then Inr True
      else if ascii_lower v \<in> {u ''0'', u ''no'', u ''false'', u ''off''} then Inr False
      else Inl ValueError)"

definition conf_getboolean :: "conf_file \<Rightarrow> pystr \<Rightarrow> pystr \<Rightarrow> bool \<Rightarrow> bool res" where
  "conf_getboolean conf sec opt fallback =
     with_fallback fallback (and_then (conf_get conf sec opt) conf_boolean)"

section \<open>Operations on sockets\<close>

text \<open>
  A socket is named by the variable that holds it. \<open>Listen\<close> is a TCP socket bound to a port,
  \<open>Destroy\<close> the end of the ZeroMQ context, which closes the sockets made in it.
\<close>

datatype zkind = PUB | SUB | PUSH | PULL

datatype sock_op =
    Open string zkind
  | Umask int
  | Umask_Back
  | Bind string pystr
  | Connect string pystr
  | Subscribe string bytes
  | Listen string int
  | Poll string
  | Close string
  | Destroy

record sockets =
  so_zmq :: "(string \<times> zkind) list"
  so_tcp :: "(string \<times> int) list"
  so_umask :: int
  so_oldmask :: int
  so_bound :: "(zkind \<times> pystr \<times> int) list"
  so_connected :: "(zkind \<times> pystr) list"
  so_subscribed :: "(string \<times> bytes) list"
  so_polled :: "string list"

definition no_sockets :: "int \<Rightarrow> sockets" where
  "no_sockets um = \<lparr>so_zmq = [], so_tcp = [], so_umask = um, so_oldmask = um, so_bound = [],
     so_connected = [], so_subscribed = [], so_polled = []\<rparr>"

text \<open>A file that \<open>bind\<close> makes has all permissions but those of the mask.\<close>

definition file_mode :: "int \<Rightarrow> int" where
  "file_mode um = 0x1FF AND NOT um"

fun sock_step :: "sock_op \<Rightarrow> sockets \<Rightarrow> sockets" where
  "sock_step (Open n k) s = s\<lparr>so_zmq := (n, k) # so_zmq s\<rparr>"
| "sock_step (Umask m) s = s\<lparr>so_oldmask := so_umask s, so_umask := m\<rparr>"
| "sock_step Umask_Back s = s\<lparr>so_umask := so_oldmask s\<rparr>"
| "sock_step (Bind n url) s =
     (case map_of (so_zmq s) n of
        None \<Rightarrow> s
      | Some k \<Rightarrow> s\<lparr>so_bound := so_bound s @ [(k, url, file_mode (so_umask s))]\<rparr>)"
| "sock_step (Connect n url) s =
     (case map_of (so_zmq s) n of None \<Rightarrow> s | Some k \<Rightarrow> s\<lparr>so_connected := so_connected s @ [(k, url)]\<rparr>)"
| "sock_step (Subscribe n t) s = s\<lparr>so_subscribed := so_subscribed s @ [(n, t)]\<rparr>"
| "sock_step (Listen n port) s = s\<lparr>so_tcp := (n, port) # so_tcp s\<rparr>"
| "sock_step (Poll n) s = s\<lparr>so_polled := so_polled s @ [n]\<rparr>"
| "sock_step (Close n) s = s\<lparr>so_zmq := filter (\<lambda>(m, k). m \<noteq> n) (so_zmq s), so_tcp := filter (\<lambda>(m, p). m \<noteq> n) (so_tcp s)\<rparr>"
| "sock_step Destroy s = s\<lparr>so_zmq := []\<rparr>"

definition sock_run :: "int \<Rightarrow> sock_op list \<Rightarrow> sockets" where
  "sock_run um ops = foldl (\<lambda>s op. sock_step op s) (no_sockets um) ops"

section \<open>The services\<close>

definition collector_setup :: "conf_file \<Rightarrow> sock_op list res" where
  "collector_setup conf =
     and_then (conf_get conf (u ''collector'') (u ''publishurl'')) (\<lambda>pub.
     and_then (conf_get conf (u ''collector'') (u ''listenurl'')) (\<lambda>lis.
     and_then (conf_getint conf (u ''collector'') (u ''port'')) (\<lambda>port.
       Inr [Open ''zpub'' PUB, Open ''zpull'' PULL, Umask 0x4F, Bind ''zpub'' pub, Bind ''zpull'' lis,
            Umask_Back, Listen ''tcpl'' port, Poll ''zpull'', Poll ''tcpl''])))"

definition collector_shutdown :: "sock_op list" where
  "collector_shutdown = [Close ''zpub'', Close ''zpull'', Destroy, Close ''tcpl'']"

text \<open>\<open>backend\<close> imports the module of that name and runs its \<open>init\<close>.\<close>

definition rectifier_setup :: "(pystr \<Rightarrow> unit res) \<Rightarrow> 'b rect_env \<Rightarrow> conf_file \<Rightarrow> sock_op list res" where
  "rectifier_setup backend env conf =
     and_then (conf_get conf (u ''rectifier'') (u ''lookaside'')) (\<lambda>name.
     and_then (backend name) (\<lambda>_.
     and_then (conf_get conf (u ''collector'') (u ''publishurl'')) (\<lambda>pub.
     and_then (rectifier_topics env) (\<lambda>topics.
     and_then (conf_get conf (u ''collector'') (u ''listenurl'')) (\<lambda>lis.
     and_then (conf_get conf (u ''rectifier'') (u ''publishurl'')) (\<lambda>rect.
       Inr ([Open ''zsub'' SUB, Connect ''zsub'' pub] @ map (Subscribe ''zsub'') topics @
            [Open ''zpush'' PUSH, Connect ''zpush'' lis, Open ''zpub'' PUB, Umask 0x4F, Bind ''zpub'' rect,
             Umask_Back])))))))"

definition rectifier_shutdown :: "sock_op list" where
  "rectifier_shutdown = [Close ''zsub'', Close ''zpub'', Close ''zpush'', Destroy]"

definition termconfig_topics :: "bytes list res" where
  "termconfig_topics =
     map_res (\<lambda>c. topic (zx_proto_name c) True None) [STATUS, SETUP, POSITION_UPLOAD_INTERVAL]"

definition termconfig_setup :: "conf_file \<Rightarrow> sock_op list res" where
  "termconfig_setup conf =
     and_then (conf_get conf (u ''collector'') (u ''publishurl'')) (\<lambda>pub.
     and_then termconfig_topics (\<lambda>topics.
     and_then (conf_get conf (u ''collector'') (u ''listenurl'')) (\<lambda>lis.
       Inr ([Open ''zsub'' SUB, Connect ''zsub'' pub] @ map (Subscribe ''zsub'') topics @
            [Open ''zpush'' PUSH, Connect ''zpush'' lis]))))"

definition termconfig_shutdown :: "sock_op list" where
  "termconfig_shutdown = [Close ''zsub'', Close ''zpush'', Destroy]"

text \<open>\<open>dbinit\<close> is \<open>evstore.initdb\<close>, which opens the database. The first component tells whether raw events are kept.\<close>

definition storage_setup :: "(pystr \<Rightarrow> unit res) \<Rightarrow> conf_file \<Rightarrow> (bool \<times> sock_op list) res" where
  "storage_setup dbinit conf =
     and_then (conf_getboolean conf (u ''storage'') (u ''events'') False) (\<lambda>stowevents.
     and_then (conf_get conf (u ''storage'') (u ''dbfn'')) (\<lambda>dbname.
     and_then (dbinit dbname) (\<lambda>_.
     and_then (conf_get conf (u ''collector'') (u ''publishurl'')) (\<lambda>pub.
     and_then (conf_get conf (u ''rectifier'') (u ''publishurl'')) (\<lambda>rect.
       Inr (stowevents,
         [Open ''zraw'' SUB, Connect ''zraw'' pub, Subscribe ''zraw'' [], Open ''zrep'' SUB,
          Connect ''zrep'' rect, Subscribe ''zrep'' [], Poll ''zraw'', Poll ''zrep'']))))))"

definition storage_shutdown :: "sock_op list" where
  "storage_shutdown = [Close ''zrep'', Close ''zraw'', Destroy]"

text \<open>The first component is the file that is shown to a browser that asks for no websocket.\<close>

definition gateway_setup :: "(pystr \<Rightarrow> unit res) \<Rightarrow> conf_file \<Rightarrow> (pystr option \<times> sock_op list) res" where
  "gateway_setup dbinit conf =
     and_then (conf_get conf (u ''storage'') (u ''dbfn'')) (\<lambda>dbname.
     and_then (dbinit dbname) (\<lambda>_.
     and_then (with_fallback None (and_then (conf_get conf (u ''wsgateway'') (u ''htmlfile'')) (\<lambda>f. Inr (Some f)))) (\<lambda>htmlfile.
     and_then (conf_get conf (u ''rectifier'') (u ''publishurl'')) (\<lambda>rect.
     and_then (conf_get conf (u ''collector'') (u ''listenurl'')) (\<lambda>lis.
     and_then (conf_getint conf (u ''wsgateway'') (u ''port'')) (\<lambda>port.
       Inr (htmlfile,
         [Open ''zsub'' SUB, Connect ''zsub'' rect, Open ''zpush'' PUSH, Connect ''zpush'' lis,
          Listen ''tcpl'' port, Poll ''zsub'', Poll ''tcpl''])))))))"

definition gateway_shutdown :: "sock_op list" where
  "gateway_shutdown = [Close ''zsub'', Destroy, Close ''tcpl'']"

text \<open>\<open>watch.py\<close>, which closes nothing, and \<open>__main__.py\<close>\<close>

definition watch_setup :: "conf_file \<Rightarrow> sock_op list res" where
  "watch_setup conf =
     and_then (conf_get conf (u ''collector'') (u ''publishurl'')) (\<lambda>pub.
     and_then (conf_get conf (u ''rectifier'') (u ''publishurl'')) (\<lambda>rect.
       Inr [Open ''zraw'' SUB, Connect ''zraw'' pub, Subscribe ''zraw'' [], Open ''zrep'' SUB,
            Connect ''zrep'' rect, Subscribe ''zrep'' [], Poll ''zraw'', Poll ''zrep'']))"

definition command_setup :: "conf_file \<Rightarrow> sock_op list res" where
  "command_setup conf =
     and_then (conf_get conf (u ''collector'') (u ''listenurl'')) (\<lambda>lis.
       Inr [Open ''zpush'' PUSH, Connect ''zpush'' lis])"

text \<open>All of them with one configuration: name, what is done first, what is done last\<close>

definition deployment ::
  "(pystr \<Rightarrow> unit res) \<Rightarrow> (pystr \<Rightarrow> unit res) \<Rightarrow> 'b rect_env \<Rightarrow> conf_file \<Rightarrow> (string \<times> sock_op list \<times> sock_op list) list res" where
  "deployment backend dbinit env conf =
     and_then (collector_setup conf) (\<lambda>c.
     and_then (rectifier_setup backend env conf) (\<lambda>r.
     and_then (termconfig_setup conf) (\<lambda>t.
     and_then (storage_setup dbinit conf) (\<lambda>(_, s).
     and_then (gateway_setup dbinit conf) (\<lambda>(_, g).
     and_then (watch_setup conf) (\<lambda>w.
     and_then (command_setup conf) (\<lambda>m.
       Inr [(''collector'', c, collector_shutdown), (''rectifier'', r, rectifier_shutdown),
            (''termconfig'', t, termconfig_shutdown), (''storage'', s, storage_shutdown),
            (''wsgateway'', g, gateway_shutdown), (''watch'', w, []), (''loctrkd'', m, [])])))))))"

section \<open>What sockets a service has\<close>

lemma foldl_Subscribe: "foldl (\<lambda>s op. sock_step op s) s (map (Subscribe n) ts) =
    s\<lparr>so_subscribed := so_subscribed s @ map (Pair n) ts\<rparr>"
  by (induction ts arbitrary: s) simp_all

lemmas setup_defs = collector_setup_def rectifier_setup_def termconfig_setup_def storage_setup_def
  gateway_setup_def watch_setup_def command_setup_def
lemmas shutdown_defs = collector_shutdown_def rectifier_shutdown_def termconfig_shutdown_def
  storage_shutdown_def gateway_shutdown_def
lemmas run_simps = sock_run_def no_sockets_def foldl_Subscribe

lemma collector_file_mode [simp]: "file_mode 0x4F = 0x1B0"
  by (simp add: file_mode_def)

text \<open>The URLs of the configuration, which every service reads for itself\<close>

definition url_of :: "conf_file \<Rightarrow> string \<Rightarrow> string \<Rightarrow> pystr" where
  "url_of conf sec opt = (case conf_get conf (u sec) (u opt) of Inr v \<Rightarrow> v | Inl e \<Rightarrow> [])"

lemma deployment_sockets:
  assumes "deployment backend dbinit env conf = Inr ss"
  obtains c r t s g w m where "ss = [(''collector'', c, collector_shutdown), (''rectifier'', r, rectifier_shutdown),
      (''termconfig'', t, termconfig_shutdown), (''storage'', s, storage_shutdown),
      (''wsgateway'', g, gateway_shutdown), (''watch'', w, []), (''loctrkd'', m, [])]"
    and "collector_setup conf = Inr c" "rectifier_setup backend env conf = Inr r" "termconfig_setup conf = Inr t"
      "\<exists>e. storage_setup dbinit conf = Inr (e, s)" "\<exists>h. gateway_setup dbinit conf = Inr (h, g)"
      "watch_setup conf = Inr w" "command_setup conf = Inr m"
  using assms by (auto simp: deployment_def res_simps)

text \<open>What each service binds and connects\<close>

fun ends :: "sockets \<Rightarrow> (zkind \<times> pystr \<times> int) list \<times> (zkind \<times> pystr) list" where
  "ends s = (so_bound s, so_connected s)"

lemma service_ends:
  fixes conf :: conf_file
  defines "P \<equiv> url_of conf ''collector'' ''publishurl''" and "L \<equiv> url_of conf ''collector'' ''listenurl''"
    and "R \<equiv> url_of conf ''rectifier'' ''publishurl''"
  shows "collector_setup conf = Inr ops \<Longrightarrow> ends (sock_run um ops) = ([(PUB, P, 0x1B0), (PULL, L, 0x1B0)], [])"
    and "rectifier_setup backend env conf = Inr ops \<Longrightarrow> ends (sock_run um ops) = ([(PUB, R, 0x1B0)], [(SUB, P), (PUSH, L)])"
    and "termconfig_setup conf = Inr ops \<Longrightarrow> ends (sock_run um ops) = ([], [(SUB, P), (PUSH, L)])"
    and "storage_setup dbinit conf = Inr (e, ops) \<Longrightarrow> ends (sock_run um ops) = ([], [(SUB, P), (SUB, R)])"
    and "gateway_setup dbinit conf = Inr (h, ops) \<Longrightarrow> ends (sock_run um ops) = ([], [(SUB, R), (PUSH, L)])"
    and "watch_setup conf = Inr ops \<Longrightarrow> ends (sock_run um ops) = ([], [(SUB, P), (SUB, R)])"
    and "command_setup conf = Inr ops \<Longrightarrow> ends (sock_run um ops) = ([], [(PUSH, L)])"
  by (auto simp: setup_defs res_simps run_simps url_of_def P_def L_def R_def)

text \<open>What is open after the last lines, and the mask\<close>

definition tidy :: "int \<Rightarrow> sock_op list \<times> sock_op list \<Rightarrow> bool" where
  "tidy um = (\<lambda>(ops, down). let s = sock_run um (ops @ down) in
     so_zmq s = [] \<and> so_tcp s = [] \<and> so_umask s = um)"

lemma service_tidy:
  "collector_setup conf = Inr ops \<Longrightarrow> tidy um (ops, collector_shutdown)"
  "rectifier_setup backend env conf = Inr ops \<Longrightarrow> tidy um (ops, rectifier_shutdown)"
  "termconfig_setup conf = Inr ops \<Longrightarrow> tidy um (ops, termconfig_shutdown)"
  "storage_setup dbinit conf = Inr (e, ops) \<Longrightarrow> tidy um (ops, storage_shutdown)"
  "gateway_setup dbinit conf = Inr (h, ops) \<Longrightarrow> tidy um (ops, gateway_shutdown)"
  by (auto simp: setup_defs shutdown_defs res_simps run_simps tidy_def Let_def)

fun partner :: "zkind \<Rightarrow> zkind" where
  "partner PUB = SUB"
| "partner SUB = PUB"
| "partner PUSH = PULL"
| "partner PULL = PUSH"

section \<open>The way of a setting\<close>

text \<open>What the collector pulls for a zx303 terminal that is connected, it sends there.\<close>

lemma response_delivered:
  assumes inv: "server_inv sv" and fd: "sessions_of (s_clients sv) fd = Some (a, Some i)" and own: "zx_own_imei i"
    and m: "resp_decode b = Inr m" "resp_ok m" "r_imei m = Some i"
  shows "\<exists>sv'. iteration conf [Zpull [b]] sv = Inr sv' \<and> sent sv' = sent sv @ [(fd, XX @ r_packet m @ ZX_Stream.CRLF)]"
proof -
  have cl: "clients_inv (s_clients sv)" "pmod_bound sv" using inv by (simp_all add: server_inv_def)
  from fd obtain r where r: "by_imei (s_clients sv) i = Some r" "c_fd (obj (s_clients sv) r) = fd"
    by (auto simp: sessions_imei [OF cl(1)])
  from bound_login [OF cl r(1)] obtain lp where lp: "last_pmod sv = Some lp" ..
  from send_response_ok [OF cl m(2)] obtain sv1 where sv1: "send_response m sv = Inr sv1" by blast
  with send_response_sent [OF cl(1) m(3) r(1) lp] obtain pm n e msg where
    e: "pm_own_imei pm i" "pm_enframe pm (r_packet m) (Some i) = Inr e"
      "sv1 = sv\<lparr>sent := sent sv @ [(fd, e)], published := published sv @ [msg]\<rparr>"
    by (auto simp: res_simps r(2) eq_commute [of "Inr sv1"])
  have "pm = Zx303" using e(1) own pm_own_imei_unique [of pm i Zx303] by simp
  with e(2,3) have "sent sv1 = sent sv @ [(fd, XX @ r_packet m @ ZX_Stream.CRLF)]" by (auto simp: zx_enframe_def)
  moreover have "iteration conf [Zpull [b]] sv = Inr (update_polling [] sv1)"
    using sv1 m(1) by (simp add: iteration_def handle_event_def empty_batch_def)
  ultimately show ?thesis by (simp add: update_polling_def Let_def)
qed

lemma termconfig_topics_returns: "returns termconfig_topics"
proof -
  have "\<exists>t. topic (zx_proto_name c) True None = Inr t" for c
    using fits16D [OF zx_name_fits [of c]] by (fastforce simp: topic_def)
  then obtain t where "\<And>c. topic (zx_proto_name c) True None = Inr (t c)" by metis
  then show ?thesis by (simp add: termconfig_topics_def)
qed

lemma termconfig_subscribed:
  assumes "received_ok (Zx303, imei, peer, p)" and "publish_in t (Zx303, imei, peer, p) = Inr msg"
    and "zx_proto_of_message p = Inr (zx_proto_name c)" and ts: "termconfig_topics = Inr ts"
  shows "(\<exists>t \<in> set ts. prefix t msg) \<longleftrightarrow> c \<in> {STATUS, SETUP, POSITION_UPLOAD_INTERVAL}"
proof -
  from zx_broadcast_packed [OF assms(1-3)] obtain m where
    m: "wf_bcast m" "bcast_packed m = Inr msg" "b_is_incoming m" "b_proto m = zx_proto_name c" by blast
  have t: "\<exists>t. topic (zx_proto_name d) True None = Inr t \<and> (prefix t msg \<longleftrightarrow> d = c)" for d
    using topic_prefix [OF m(1,2) zx_name_fits, of None d True] m(3,4) inj_eq [OF zx_proto_name_inj] by auto
  from t [of STATUS] t [of SETUP] t [of POSITION_UPLOAD_INTERVAL] ts show ?thesis
    by (auto simp: termconfig_topics_def)
qed

section \<open>Properties\<close>

text \<open>
  C16: The services find each other. With one configuration for all, each socket that a service connects
  has at the other end a socket of the matching kind that a service binds there, and each socket that is
  bound is connected to by some service; so no message is sent to nobody's address. The files
  that stand for the bound sockets can be used by their owner and group only. A service that is told
  to stop closes what it opened, whether or not it names each socket, and has put the mask back.
\<close>

theorem services_wired:
  assumes "deployment backend dbinit env conf = Inr ss"
  shows "(\<forall>(n, ops, down) \<in> set ss. \<forall>(k, url) \<in> set (so_connected (sock_run um ops)).
      \<exists>(n', ops', down') \<in> set ss. (partner k, url, 0x1B0) \<in> set (so_bound (sock_run um ops'))) \<and>
    (\<forall>(n, ops, down) \<in> set ss. \<forall>(k, url, mode) \<in> set (so_bound (sock_run um ops)).
      mode = 0x1B0 \<and> (\<exists>(n', ops', down') \<in> set ss. (partner k, url) \<in> set (so_connected (sock_run um ops')))) \<and>
    (\<forall>(n, ops, down) \<in> set ss. n \<notin> {''watch'', ''loctrkd''} \<longrightarrow> tidy um (ops, down))"
proof -
  from assms obtain c r t s g w m e h where ss: "ss = [(''collector'', c, collector_shutdown),
      (''rectifier'', r, rectifier_shutdown), (''termconfig'', t, termconfig_shutdown),
      (''storage'', s, storage_shutdown), (''wsgateway'', g, gateway_shutdown), (''watch'', w, []), (''loctrkd'', m, [])]"
    and setups: "collector_setup conf = Inr c" "rectifier_setup backend env conf = Inr r"
      "termconfig_setup conf = Inr t" "storage_setup dbinit conf = Inr (e, s)"
      "gateway_setup dbinit conf = Inr (h, g)" "watch_setup conf = Inr w" "command_setup conf = Inr m"
    by (rule deployment_sockets) blast
  note ends = service_ends(1) [OF setups(1), of um] service_ends(2) [OF setups(2), of um]
    service_ends(3) [OF setups(3), of um] service_ends(4) [OF setups(4), of um]
    service_ends(5) [OF setups(5), of um] service_ends(6) [OF setups(6), of um]
    service_ends(7) [OF setups(7), of um]
  note tidy = service_tidy(1) [OF setups(1), of um] service_tidy(2) [OF setups(2), of um]
    service_tidy(3) [OF setups(3), of um] service_tidy(4) [OF setups(4), of um]
    service_tidy(5) [OF setups(5), of um]
  have "\<forall>(n, ops, down) \<in> set ss. \<forall>(k, url) \<in> set (so_connected (sock_run um ops)).
      \<exists>(n', ops', down') \<in> set ss. (partner k, url, 0x1B0) \<in> set (so_bound (sock_run um ops'))"
    using ends by (simp add: ss)
  moreover have "\<forall>(n, ops, down) \<in> set ss. \<forall>(k, url, mode) \<in> set (so_bound (sock_run um ops)).
      mode = 0x1B0 \<and> (\<exists>(n', ops', down') \<in> set ss. (partner k, url) \<in> set (so_connected (sock_run um ops')))"
    using ends by (simp add: ss)
  moreover have "\<forall>(n, ops, down) \<in> set ss. n \<notin> {''watch'', ''loctrkd''} \<longrightarrow> tidy um (ops, down)"
    using tidy by (simp add: ss)
  ultimately show ?thesis by blast
qed

text \<open>The configuration that the Debian package installs, as far as the services need it\<close>

definition debian_conf :: conf_file where
  "debian_conf = map_of
     [(u ''collector'', map_of [(u ''port'', u ''4303''), (u ''publishurl'', u ''ipc:///var/lib/loctrkd/collected''),
        (u ''listenurl'', u ''ipc:///var/lib/loctrkd/responses'')]),
      (u ''wsgateway'', map_of [(u ''port'', u ''5049''), (u ''htmlfile'', u ''/var/lib/loctrkd/index.html'')]),
      (u ''storage'', map_of [(u ''dbfn'', u ''/var/lib/loctrkd/trkloc.sqlite''), (u ''events'', u ''yes'')]),
      (u ''rectifier'', map_of [(u ''lookaside'', u ''opencellid''),
        (u ''publishurl'', u ''ipc:///var/lib/loctrkd/rectified'')])]"

lemma debian_conf_get:
  "conf_getint debian_conf (u ''collector'') (u ''port'') = Inr 4303"
  "conf_getint debian_conf (u ''wsgateway'') (u ''port'') = Inr 5049"
  "conf_getboolean debian_conf (u ''storage'') (u ''events'') False = Inr True"
  by (simp_all add: conf_getint_def conf_getboolean_def conf_get_def debian_conf_def with_fallback_def
      conf_boolean_def ascii_lower_def py_int_def split_sign_def strip_space_def py_space_def unhexdigit_def)

lemma debian_conf_texts:
  "conf_get debian_conf (u ''collector'') (u ''publishurl'') = Inr (u ''ipc:///var/lib/loctrkd/collected'')"
  "conf_get debian_conf (u ''collector'') (u ''listenurl'') = Inr (u ''ipc:///var/lib/loctrkd/responses'')"
  "conf_get debian_conf (u ''rectifier'') (u ''publishurl'') = Inr (u ''ipc:///var/lib/loctrkd/rectified'')"
  "conf_get debian_conf (u ''rectifier'') (u ''lookaside'') = Inr (u ''opencellid'')"
  "conf_get debian_conf (u ''storage'') (u ''dbfn'') = Inr (u ''/var/lib/loctrkd/trkloc.sqlite'')"
  "conf_get debian_conf (u ''wsgateway'') (u ''htmlfile'') = Inr (u ''/var/lib/loctrkd/index.html'')"
  by (simp_all add: conf_get_def debian_conf_def)

theorem services_wired_witness:
  "\<exists>ss. deployment (\<lambda>_. Inr ()) (\<lambda>_. Inr ()) ex_env debian_conf = Inr ss \<and> length ss = 7 \<and>
    (\<forall>(n, ops, down) \<in> set ss. \<forall>(k, url) \<in> set (so_connected (sock_run 0x12 ops)).
      \<exists>(n', ops', down') \<in> set ss. (partner k, url, 0x1B0) \<in> set (so_bound (sock_run 0x12 ops')))"
proof -
  obtain t1 t2 where t: "rectifier_topics ex_env = Inr t1" "termconfig_topics = Inr t2"
    using rectifier_topics_returns termconfig_topics_returns unfolding returns_def by blast
  have "returns (deployment (\<lambda>_. Inr ()) (\<lambda>_. Inr ()) ex_env debian_conf)"
    by (simp add: deployment_def setup_defs t debian_conf_get [simplified] debian_conf_texts [simplified]
        with_fallback_def)
  then obtain ss where ss: "deployment (\<lambda>_. Inr ()) (\<lambda>_. Inr ()) ex_env debian_conf = Inr ss"
    unfolding returns_def ..
  then have "length ss = 7" by (rule deployment_sockets) simp
  with ss conjunct1 [OF services_wired [OF ss, where um = "0x12"]] show ?thesis by blast
qed

text \<open>
  C4: A terminal gets its settings. Let a zx303 terminal that has logged in send a message for which
  termconfig answers: the collector publishes it; termconfig is subscribed to it, and to messages of no
  other class; its answer, made of the section for this terminal, is pushed to the collector; and whenever
  that pulls it, on whatever connection the terminal is by then, exactly the framed answer is sent on
  this connection and nothing on any other.
\<close>

theorem settings_reach_terminal:
  assumes terminal: "server_inv sv" "valid_datetime now"
      "clients_recv (cf_tz conf) (cf_pmods conf) sk data (s_clients sv) = Inr (Some rs, cs)"
      "(Zx303, Some i, peer, p) \<in> set rs" "i \<noteq> replicate 16 48"
    and parsed: "zx_parse_message (tc_tz env) p In = Inr m" "zo_cause m = None"
    and settings: "termconfig_topics = Inr topics" "tc_fromtimestamp env (Some t) = Inr ()"
      "tc_config env (Some i) = Inr tconf"
      "zx_Out_packed (tc_repr env) (tc_now env) (zo_class m) (tc_kwargs (zo_class m) tconf) = Inr packet"
    and later: "server_inv sv2" "sessions_of (s_clients sv2) fd = Some (a, Some i)"
  shows "\<exists>sv' bt' msg b sv3.
    handle_event conf (Client_In sk data t now) (sv, empty_batch) = Inr (sv', bt') \<and> msg \<in> set (published sv') \<and>
    ((\<exists>topic \<in> set topics. prefix topic msg) \<longleftrightarrow> zo_class m \<in> {STATUS, SETUP, POSITION_UPLOAD_INTERVAL}) \<and>
    tc_round env msg = Inr b \<and> iteration conf [Zpull [b]] sv2 = Inr sv3 \<and>
    sent sv3 = sent sv2 @ [(fd, XX @ packet @ ZX_Stream.CRLF)]"
proof -
  from handle_event_published [OF terminal(1-3)] obtain sv' bt' msgs where
    h: "handle_event conf (Client_In sk data t now) (sv, empty_batch) = Inr (sv', bt')"
      "map_res (publish_in t) rs = Inr msgs" "published sv' = published sv @ msgs" by blast
  from map_res_Inr_mem [OF h(2) terminal(4)] obtain msg where
    msg: "msg \<in> set msgs" "publish_in t (Zx303, Some i, peer, p) = Inr msg" by blast
  have "clients_inv (s_clients sv)" using terminal(1) by (simp add: server_inv_def)
  with clients_recv_received [OF _ terminal(3)] terminal(4)
  have ok: "received_ok (Zx303, Some i, peer, p)" by blast
  have own: "zx_own_imei i" using received_own [OF ok] by simp
  have w: "wire_imei (Some i) = Some i" using terminal(5) by (simp add: wire_imei_def)
  from resp_packed_returns [OF zx_own_fits [OF own]] obtain b where
    b: "resp_packed \<lparr>r_imei = wire_imei (Some i), r_when = Some t, r_packet = packet\<rparr> = Inr b" using w by auto
  with tc_round_zx [OF ok msg(2) settings(2) parsed(1)] settings(3,4) w
  have round: "tc_round env msg = Inr b" by simp
  from zx_response_ok [OF b _ zx_Out_packed_good [OF settings(4)]] own obtain r where
    r: "resp_decode b = Inr r" "resp_ok r" "r_imei r = Some i" "r_packet r = packet" by auto
  from response_delivered [OF later own r(1-3), of conf] obtain sv3 where
    "iteration conf [Zpull [b]] sv2 = Inr sv3" "sent sv3 = sent sv2 @ [(fd, XX @ packet @ ZX_Stream.CRLF)]"
    using r(4) by auto
  with h msg(1) round termconfig_subscribed [OF ok msg(2) zx_parsed_name [OF parsed] settings(1)]
  show ?thesis by auto
qed

theorem settings_reach_terminal_witness:
  "\<exists>sv' bt' msg b sv3.
    handle_event ex_config (Client_In 7 (Recv_Bytes (XX @ ex_status_packet @ ZX_Stream.CRLF)) 0 ex_now)
      (ex_zx_server, empty_batch) = Inr (sv', bt') \<and> msg \<in> set (published sv') \<and>
    tc_round ex_tc_env msg = Inr b \<and> iteration ex_config [Zpull [b]] ex_zx_server = Inr sv3 \<and>
    sent sv3 = [(7, XX @ [2, 0x13, 25] @ ZX_Stream.CRLF)]"
proof -
  obtain cs where recv: "clients_recv (cf_tz ex_config) (cf_pmods ex_config) 7
      (Recv_Bytes (XX @ ex_status_packet @ ZX_Stream.CRLF)) (s_clients ex_zx_server) =
      Inr (Some [(Zx303, Some ex_zx_imei, ex_addr, ex_status_packet)], cs)"
    using ex_zx_recv by (auto simp: ex_zx_server_def)
  have "zx_CLASSES 0x13 = Some STATUS" by (simp add: zx_CLASSES_PROTO)
  then obtain m where m: "zx_parse_message (tc_tz ex_tc_env) ex_status_packet In = Inr m" "zo_cause m = None"
    "zo_class m = STATUS"
    by (simp add: ex_status_packet_def zx_parse_two zx_decode_def status_in_decode_def)
  have packet: "zx_Out_packed (tc_repr ex_tc_env) (tc_now ex_tc_env) (zo_class m) (tc_kwargs (zo_class m) []) =
      Inr [2, 0x13, 25]"
    by (simp add: m(3) tc_kwargs_def zx_Out_packed_def init_kwargs_def zx_packed_def pack_uint_def
        pack_attr_def attr_def)
  obtain topics where topics: "termconfig_topics = Inr topics"
    using termconfig_topics_returns unfolding returns_def ..
  have s: "sessions_of (s_clients ex_zx_server) 7 = Some (ex_addr, Some ex_zx_imei)"
    by (simp add: ex_zx_server_def ex_zx_clients_def sessions_of_def)
  have x: "(Zx303, Some ex_zx_imei, ex_addr, ex_status_packet) \<in>
      set [(Zx303, Some ex_zx_imei, ex_addr, ex_status_packet)]" by simp
  have "sent ex_zx_server = []" by (simp add: ex_zx_server_def)
  with settings_reach_terminal [OF ex_zx_server_inv ex_now_valid recv x ex_zx_imei_nonzero m(1,2) topics
      ex_tc_env_simps(1) ex_tc_env_simps(2) packet ex_zx_server_inv s, of 0]
  show ?thesis by auto
qed

end
