(* ===== verification/Cmdline.thy ===== *)
theory Cmdline
  imports Pipeline Commands "HOL-Library.Product_Lexorder"
begin

text \<open>
  The programs started by hand: sending a command to a terminal (\<open>loctrkd/__main__.py\<close>), listing the
  stored events (\<open>loctrkd/qry.py\<close>), watching (\<open>loctrkd/watch.py\<close>) and making a track of the events
  (\<open>loctrkd/mkgpx.py\<close>). What is printed is a list of lines. The clock, the conversion of a time stamp and
  \<open>repr\<close> are parameters.
\<close>

section \<open>Sending a command\<close>

record cl_env =
  cl_pmods :: "pmod list"
  cl_repr :: "pyval \<Rightarrow> pystr"
  cl_time :: "64 word"
  cl_now :: datetime

text \<open>An argument must have exactly one equals sign; of two with the same name the later counts.\<close>

definition key_value :: "pystr \<Rightarrow> (pystr \<times> pyval) res" where
  "key_value arg = (case split_on 61 arg of [k, v] \<Rightarrow> Inr (k, VStr v) | _ \<Rightarrow> Inl ValueError)"

definition cl_kwargs :: "pystr list \<Rightarrow> attrs res" where
  "cl_kwargs args =
     and_then (map_res key_value args) (\<lambda>kvs.
       let kwargs = foldl (\<lambda>d (k, v). AList.update k v d) [] kvs
       in fold_res (\<lambda>arg d. and_then (key_value arg) (\<lambda>(k, v). Inr (AList.update k v d))) args kwargs)"

text \<open>\<open>cls.Out(**kwargs).packed\<close> of the class that the prefix selects, if it selects one\<close>

definition cl_packet :: "cl_env \<Rightarrow> pmod \<Rightarrow> pystr \<Rightarrow> pystr list \<Rightarrow> bytes res" where
  "cl_packet env pm cmd args =
     (case pm of
        Zx303 \<Rightarrow>
          and_then (zx_class_by_prefix cmd) (\<lambda>cls. case cls of
            Inr lst \<Rightarrow> Inl ValueError
          | Inl c \<Rightarrow> and_then (cl_kwargs args) (zx_Out_packed (cl_repr env) (cl_now env) c))
      | Beesure \<Rightarrow>
          and_then (bs_class_by_prefix cmd) (\<lambda>cls. case cls of
            Inr lst \<Rightarrow> Inl ValueError
          | Inl c \<Rightarrow> and_then (cl_kwargs args) (bs_Out_packed (cl_repr env) c)))"

text \<open>What is pushed to the collector\<close>

definition cl_main :: "cl_env \<Rightarrow> pystr list \<Rightarrow> bytes res" where
  "cl_main env args =
     (if length args < 2 then Inl ValueError
      else
        (let imei = args ! 0; cmd = args ! 1 in
         case pmod_for_proto (cl_pmods env) cmd of
           None \<Rightarrow> Inl NotImplementedError
         | Some pm \<Rightarrow>
             and_then (cl_packet env pm cmd (drop 2 args)) (\<lambda>packet.
               resp_packed \<lparr>r_imei = Some imei, r_when = Some (cl_time env), r_packet = packet\<rparr>)))"

section \<open>Listing the events\<close>

text \<open>
  The formatted time stamp and the attributes of objects are parameters: the content that is written to
  the file given with \<open>-o\<close>, if the object has the attribute.
\<close>

datatype shown = Unparseable pystr | Parsed pobj

record qry_env =
  qy_tz :: "datetime \<Rightarrow> datetime"
  qy_iso :: "sqlval \<Rightarrow> pystr res"
  qy_getattr :: "shown \<Rightarrow> pystr \<Rightarrow> bytes res option"

type_synonym qry_line = "pystr \<times> sqlval \<times> sqlval \<times> shown"

definition qry_rows :: "pystr list \<Rightarrow> db \<Rightarrow> event_row list" where
  "qry_rows args d =
     (case args of
        [] \<Rightarrow> events d
      | proto # _ \<Rightarrow> filter (\<lambda>r. ev_proto r = SText proto) (events d))"

definition of_blob :: "sqlval \<Rightarrow> bytes res" where
  "of_blob v = (case v of SBlob b \<Rightarrow> Inr b | _ \<Rightarrow> Inl AttributeError)"

text \<open>Every module that handles the name parses the packet; the last one counts.\<close>

definition qry_message :: "qry_env \<Rightarrow> pmod list \<Rightarrow> event_row \<Rightarrow> shown res" where
  "qry_message env pmods row =
     and_then (of_blob (ev_packet row)) (\<lambda>packet.
     and_then (case ev_proto row of SText proto \<Rightarrow> Inr proto | _ \<Rightarrow> Inl AttributeError) (\<lambda>proto.
       fold_res (\<lambda>pm msg.
           if pm_proto_handled pm proto then
             and_then (pm_parse_message (qy_tz env) pm packet (if ev_is_incoming row \<in> {SNull, SInt 0} then Out else In))
               (\<lambda>m. Inr (Parsed m))
           else Inr msg)
         pmods (Unparseable (u ''Unparseable('' @ hex_bytes packet @ u '')''))))"

text \<open>The lines, the content of the file, and what was raised\<close>

fun qry_loop :: "qry_env \<Rightarrow> pmod list \<Rightarrow> (pystr \<times> pystr) option \<Rightarrow> bytes option \<Rightarrow> event_row list \<Rightarrow>
    qry_line list \<times> bytes option \<times> py_exn option" where
  "qry_loop env pmods out file [] = ([], file, None)"
| "qry_loop env pmods out file (row # rows) =
     (case qry_message env pmods row of
        Inl e \<Rightarrow> ([], file, Some e)
      | Inr msg \<Rightarrow>
          (case qy_iso env (ev_tstamp row) of
             Inl e \<Rightarrow> ([], file, Some e)
           | Inr tm \<Rightarrow>
               let line = (tm, ev_imei row, ev_peeraddr row, msg) in
               case (case out of None \<Rightarrow> None | Some (fn, name) \<Rightarrow> if fn = [] then None else qy_getattr env msg name) of
                 Some (Inl e) \<Rightarrow> ([line], Some [], Some e)
               | Some (Inr content) \<Rightarrow>
                   (case qry_loop env pmods out (Some content) rows of (ls, r) \<Rightarrow> (line # ls, r))
               | None \<Rightarrow> (case qry_loop env pmods out file rows of (ls, r) \<Rightarrow> (line # ls, r))))"

text \<open>\<open>optval\<close> is the argument of \<open>-o\<close>; it needs the name of an attribute as second argument.\<close>

definition qry_main :: "qry_env \<Rightarrow> pystr \<Rightarrow> pystr option \<Rightarrow> pystr list \<Rightarrow> db \<Rightarrow>
    qry_line list \<times> bytes option \<times> py_exn option" where
  "qry_main env protocols optval args d =
     (case init_protocols protocols of
        Inl e \<Rightarrow> ([], None, Some e)
      | Inr pmods \<Rightarrow>
          let out = (case optval of Some fn \<Rightarrow> if 1 < length args then Some (fn, args ! 1) else None | None \<Rightarrow> None)
          in qry_loop env pmods out None (qry_rows args d))"

section \<open>Watching\<close>

text \<open>What \<open>loctrkd/watch.py\<close> prints of a broadcast and of a report\<close>

datatype watch_line = Seen bool pystr "pystr option" | Message pobj | Rectified report | Reported rept | What_Socket

fun has_rectified :: "pobj \<Rightarrow> bool" where
  "has_rectified (Zx_Obj m) = zx_has_rectified (zo_class m)"
| "has_rectified (Bs_Obj m) = bs_loc_class (bo_class m)"

definition watch_bcast :: "(datetime \<Rightarrow> datetime) \<Rightarrow> pmod list \<Rightarrow> bytes \<Rightarrow> watch_line list \<times> py_exn option" where
  "watch_bcast tz pmods msg =
     (case bcast_decode msg of
        Inl e \<Rightarrow> ([], Some e)
      | Inr z \<Rightarrow>
          let seen = Seen (b_is_incoming z) (b_proto z) (b_imei z) in
          case pmod_for_proto pmods (b_proto z) of
            None \<Rightarrow> ([seen], None)
          | Some pm \<Rightarrow>
              (case pm_parse_message tz pm (b_packet z) (if b_is_incoming z then In else Out) of
                 Inl e \<Rightarrow> ([seen], Some e)
               | Inr m \<Rightarrow>
                   if b_is_incoming z \<and> has_rectified m then
                     (case pm_rectified m of
                        Inl e \<Rightarrow> ([seen, Message m], Some e)
                      | Inr r \<Rightarrow> ([seen, Message m, Rectified r], None))
                   else ([seen, Message m], None)))"

definition watch_rept :: "bytes \<Rightarrow> watch_line list \<times> py_exn option" where
  "watch_rept msg = (case rept_decode msg of Inl e \<Rightarrow> ([], Some e) | Inr r \<Rightarrow> ([Reported r], None))"

text \<open>
  One after the other, up to the first that raises: the messages of a socket, read until there are no
  more, and the sockets that \<open>poll\<close> names, again and again
\<close>

fun watch_seq :: "('a \<Rightarrow> watch_line list \<times> py_exn option) \<Rightarrow> 'a list \<Rightarrow> watch_line list \<times> py_exn option" where
  "watch_seq f [] = ([], None)"
| "watch_seq f (x # xs) =
     (case f x of
        (ls, Some e) \<Rightarrow> (ls, Some e)
      | (ls, None) \<Rightarrow> let (ls', e) = watch_seq f xs in (ls @ ls', e))"

definition watch_event ::
  "(datetime \<Rightarrow> datetime) \<Rightarrow> pmod list \<Rightarrow> st_event \<Rightarrow> watch_line list \<times> py_exn option" where
  "watch_event tz pmods ev =
     (case ev of
        Raw msgs \<Rightarrow> watch_seq (watch_bcast tz pmods) msgs
      | Reports msgs \<Rightarrow> watch_seq watch_rept msgs
      | Unknown_Socket \<Rightarrow> ([What_Socket], None))"

definition watch_loop ::
  "(datetime \<Rightarrow> datetime) \<Rightarrow> pmod list \<Rightarrow> st_event list \<Rightarrow> watch_line list \<times> py_exn option" where
  "watch_loop tz pmods evs = watch_seq (watch_event tz pmods) evs"

section \<open>Making a track\<close>

record gpx_env =
  gx_pmods :: "pmod list"
  gx_tz :: "datetime \<Rightarrow> datetime"
  gx_time :: "sqlval \<Rightarrow> (datetime \<times> nat) res"
  gx_float :: "pyfloat \<Rightarrow> pystr"

text \<open>The order of SQLite: \<open>NULL\<close>, numbers, text by code points, blobs\<close>

fun tstamp_key :: "sqlval \<Rightarrow> nat \<times> rat \<times> nat list" where
  "tstamp_key SNull = (0, 0, [])"
| "tstamp_key (SInt i) = (2, of_int i, [])"
| "tstamp_key (SReal (Fin q)) = (2, q, [])"
| "tstamp_key (SReal (Inf neg)) = (if neg then 1 else 3, 0, [])"
| "tstamp_key (SReal NaN) = (0, 0, [])"
| "tstamp_key (SText s) = (4, 0, s)"
| "tstamp_key (SBlob bs) = (5, 0, map unat bs)"

definition gpx_events :: "pystr \<Rightarrow> db \<Rightarrow> event_row list" where
  "gpx_events imei d =
     sort_key (\<lambda>r. tstamp_key (ev_tstamp r))
       (filter (\<lambda>r. ev_imei r = SText imei \<and> ev_is_incoming r = SInt 1 \<and>
          (ev_proto r = SText (u ''BS:UD'') \<or> ev_proto r = SText (u ''BS:UD2''))) (events d))"

text \<open>\<open>isoformat\<close> of a time in UTC: no fraction is written where there is none.\<close>

definition isoformat :: "datetime \<Rightarrow> nat \<Rightarrow> pystr" where
  "isoformat d us =
     pad_dec 4 (dt_year d) @ [45] @ pad_dec 2 (dt_month d) @ [45] @ pad_dec 2 (dt_day d) @ [84] @
     pad_dec 2 (dt_hour d) @ [58] @ pad_dec 2 (dt_minute d) @ [58] @ pad_dec 2 (dt_second d) @
     (if us = 0 then [] else 46 # pad_dec 6 (int us)) @ u ''+00:00''"

text \<open>\<open>isotime[: isotime.rfind(".")] + "Z"\<close>: \<open>rfind\<close> gives \<open>-1\<close> where there is no dot.\<close>

definition before_rfind :: "nat \<Rightarrow> pystr \<Rightarrow> pystr" where
  "before_rfind c s = (if c \<in> set s then rev (tl (dropWhile (\<lambda>x. x \<noteq> c) (rev s))) else butlast s)"

definition gpx_time :: "datetime \<Rightarrow> nat \<Rightarrow> pystr" where
  "gpx_time d us = before_rfind 46 (isoformat d us) @ u ''Z''"

definition gpx_head :: pystr where
  "gpx_head =
     u ''<?xml version=\"1.0\"?>'' @ [10] @ u ''    <gpx version=\"1.1\"'' @ [10] @
     u ''    creator=\"loctrkd\"'' @ [10] @ u ''    xmlns=\"http://www.topografix.com/GPX/1/1\">'' @ [10] @
     u ''      <name>Location Data</name>'' @ [10] @ u ''      <trk>'' @ [10] @
     u ''        <name>Location Data</name>'' @ [10] @ u ''        <trkseg>'' @ [10] @ u ''    ''"

definition gpx_foot :: pystr where
  "gpx_foot = u ''    </trkseg>'' @ [10] @ u ''      </trk>'' @ [10] @ u ''    </gpx>''"

definition trkpt :: "gpx_env \<Rightarrow> pyfloat \<Rightarrow> pyfloat \<Rightarrow> pystr \<Rightarrow> pystr" where
  "trkpt env lat lon isotime =
     u ''      <trkpt lat=\"'' @ gx_float env lat @ u ''\" lon=\"'' @ gx_float env lon @ u ''\">'' @ [10] @
     u ''              <time>'' @ isotime @ u ''</time>'' @ [10] @ u ''          </trkpt>''"

text \<open>
  One event: the message is kept for the next one, which uses it when no module handles its name.
\<close>

definition gpx_message :: "gpx_env \<Rightarrow> pobj option \<Rightarrow> event_row \<Rightarrow> pobj res" where
  "gpx_message env prev row =
     (case ev_proto row of
        SText proto \<Rightarrow>
          (case pmod_for_proto (gx_pmods env) proto of
             Some pm \<Rightarrow>
               (case ev_packet row of SBlob packet \<Rightarrow> pm_parse_message (gx_tz env) pm packet In | _ \<Rightarrow> Inl TypeError)
           | None \<Rightarrow> (case prev of Some msg \<Rightarrow> Inr msg | None \<Rightarrow> Inl UnboundLocalError))
      | _ \<Rightarrow> Inl AttributeError)"

definition lat_lon :: "pobj \<Rightarrow> (pyfloat \<times> pyfloat) res" where
  "lat_lon msg =
     (case msg of
        Zx_Obj m \<Rightarrow>
          (case zo_body m of Gps_Body g \<Rightarrow> Inr (Fin (g_latitude g), Fin (g_longitude g)) | _ \<Rightarrow> Inl AttributeError)
      | Bs_Obj m \<Rightarrow>
          (case bo_body m of Loc_Attrs l \<Rightarrow> Inr (ld_latitude l, ld_longitude l) | _ \<Rightarrow> Inl AttributeError))"

fun gpx_points :: "gpx_env \<Rightarrow> pobj option \<Rightarrow> event_row list \<Rightarrow> pystr list \<times> py_exn option" where
  "gpx_points env prev [] = ([], None)"
| "gpx_points env prev (row # rows) =
     (case gpx_message env prev row of
        Inl e \<Rightarrow> ([], Some e)
      | Inr msg \<Rightarrow>
          (case lat_lon msg of
             Inl e \<Rightarrow> ([], Some e)
           | Inr (lat, lon) \<Rightarrow>
               (case gx_time env (ev_tstamp row) of
                  Inl e \<Rightarrow> ([], Some e)
                | Inr (d, us) \<Rightarrow>
                    (case gpx_points env (Some msg) rows of
                       (pts, e) \<Rightarrow> (trkpt env lat lon (gpx_time d us) # pts, e)))))"

definition gpx_main :: "gpx_env \<Rightarrow> pystr list \<Rightarrow> db \<Rightarrow> pystr list \<times> py_exn option" where
  "gpx_main env args d =
     (case args of
        [] \<Rightarrow> ([], Some IndexError)
      | imei # _ \<Rightarrow>
          (case gpx_points env None (gpx_events imei d) of
             (pts, None) \<Rightarrow> (gpx_head # pts @ [gpx_foot], None)
           | (pts, Some e) \<Rightarrow> (gpx_head # pts, Some e)))"

section \<open>Tracks\<close>

lemma before_rfind_append:
  assumes "c \<notin> set t"
  shows "before_rfind c (s @ c # t) = s"
proof -
  have "dropWhile (\<lambda>x. x \<noteq> c) (rev t @ c # rev s) = c # rev s"
    using assms by (subst dropWhile_append2) auto
  then show ?thesis by (simp add: before_rfind_def)
qed

lemma pad_dec_digits: "c \<in> set (pad_dec k i) \<Longrightarrow> 48 \<le> c \<and> c \<le> 57"
  using dec_nat_digits by (auto simp: pad_dec_def Let_def)

lemma no_dot: "46 \<notin> set (pad_dec k i)"
  using pad_dec_digits [of 46 k i] by auto

definition iso_seconds :: "datetime \<Rightarrow> pystr" where
  "iso_seconds d =
     pad_dec 4 (dt_year d) @ [45] @ pad_dec 2 (dt_month d) @ [45] @ pad_dec 2 (dt_day d) @ [84] @
     pad_dec 2 (dt_hour d) @ [58] @ pad_dec 2 (dt_minute d) @ [58] @ pad_dec 2 (dt_second d)"

lemma gpx_time_eq: "gpx_time d us = iso_seconds d @ (if us = 0 then u ''+00:0Z'' else u ''Z'')"
proof (cases "us = 0")
  case True
  have "isoformat d us = iso_seconds d @ u ''+00:00''" using True by (simp add: isoformat_def iso_seconds_def)
  moreover have "46 \<notin> set (iso_seconds d @ u ''+00:00'')" by (simp add: iso_seconds_def no_dot)
  ultimately show ?thesis using True by (simp add: gpx_time_def before_rfind_def butlast_append)
next
  case False
  then have "isoformat d us = iso_seconds d @ 46 # (pad_dec 6 (int us) @ u ''+00:00'')"
    by (simp add: isoformat_def iso_seconds_def)
  with before_rfind_append [of 46 "pad_dec 6 (int us) @ u ''+00:00''" "iso_seconds d"] False show ?thesis
    by (simp add: gpx_time_def no_dot)
qed

text \<open>The track point of an event\<close>

definition gpx_point :: "gpx_env \<Rightarrow> event_row \<Rightarrow> pystr \<Rightarrow> bool" where
  "gpx_point env row pt \<longleftrightarrow> (\<exists>packet m l d us. ev_packet row = SBlob packet \<and> bs_parse_message packet In = Inr m \<and>
     bo_body m = Loc_Attrs l \<and> gx_time env (ev_tstamp row) = Inr (d, us) \<and>
     pt = trkpt env (ld_latitude l) (ld_longitude l) (iso_seconds d @ (if us = 0 then u ''+00:0Z'' else u ''Z'')))"

lemma pmod_for_own:
  assumes "\<And>q. pm_proto_handled q n \<longleftrightarrow> q = p" and "p \<in> set pmods"
  shows "pmod_for_proto pmods n = Some p"
  using assms(2) by (induction pmods) (auto simp: pmod_for_proto_def assms(1))

lemma pmod_for_BS:
  assumes "Beesure \<in> set pmods" and "n = u ''BS:UD'' \<or> n = u ''BS:UD2''"
  shows "pmod_for_proto pmods n = Some Beesure"
proof -
  have "pm_proto_handled q n \<longleftrightarrow> q = Beesure" for q
    using assms(2) by (cases q) (auto simp: zx_proto_handled_def bs_proto_handled_def ZX_PREFIX_def BS_PREFIX_def)
  from pmod_for_own [OF this assms(1)] show ?thesis .
qed

definition gpx_row :: "event_row \<Rightarrow> bool" where
  "gpx_row r \<longleftrightarrow> ev_proto r = SText (u ''BS:UD'') \<or> ev_proto r = SText (u ''BS:UD2'')"

lemma gpx_message_row:
  assumes "Beesure \<in> set (gx_pmods env)" and "gpx_row row"
  shows "gpx_message env prev row = (case ev_packet row of SBlob packet \<Rightarrow>
      and_then (bs_parse_message packet In) (\<lambda>m. Inr (Bs_Obj m)) | _ \<Rightarrow> Inl TypeError)"
proof -
  obtain n where n: "ev_proto row = SText n" "n = u ''BS:UD'' \<or> n = u ''BS:UD2''"
    using assms(2) by (auto simp: gpx_row_def)
  with pmod_for_BS [OF assms(1) n(2)] show ?thesis by (simp add: gpx_message_def split: sqlval.split)
qed

lemma gpx_points_spec:
  assumes "Beesure \<in> set (gx_pmods env)" and "\<forall>r \<in> set rows. gpx_row r"
    and "gpx_points env prev rows = (pts, raised)"
  shows "\<exists>done rest. rows = done @ rest \<and> list_all2 (gpx_point env) done pts \<and>
    (case raised of None \<Rightarrow> rest = [] | Some e \<Rightarrow> rest \<noteq> [] \<and> (\<nexists>pt. gpx_point env (hd rest) pt))"
  using assms(2,3)
proof (induction rows arbitrary: prev pts)
  case (Cons row rows)
  have "gpx_row row" using Cons.prems(1) by simp
  note msg = gpx_message_row [OF assms(1) this]
  show ?case
  proof (cases "\<exists>pt. gpx_point env row pt")
    case True
    then obtain packet m l d us where p: "ev_packet row = SBlob packet" "bs_parse_message packet In = Inr m"
      "bo_body m = Loc_Attrs l" "gx_time env (ev_tstamp row) = Inr (d, us)" by (auto simp: gpx_point_def)
    let ?pt = "trkpt env (ld_latitude l) (ld_longitude l) (gpx_time d us)"
    have pt: "gpx_point env row ?pt" using p by (simp add: gpx_point_def gpx_time_eq)
    obtain pts1 where 1: "gpx_points env (Some (Bs_Obj m)) rows = (pts1, raised)" "pts = ?pt # pts1"
      using Cons.prems(2) p by (auto simp: msg lat_lon_def split: prod.splits)
    from Cons.IH [OF _ 1(1)] Cons.prems(1) obtain ok rest where
      "rows = ok @ rest" "list_all2 (gpx_point env) ok pts1"
      "case raised of None \<Rightarrow> rest = [] | Some e \<Rightarrow> rest \<noteq> [] \<and> (\<nexists>pt. gpx_point env (hd rest) pt)" by auto
    with pt 1(2) show ?thesis by (intro exI [of _ "row # ok"] exI [of _ rest]) simp
  next
    case False
    then have "\<exists>e. gpx_points env prev (row # rows) = ([], Some e)"
      by (auto simp: msg lat_lon_def gpx_point_def res_simps split: sqlval.splits sum.splits bs_body.splits)
    with Cons.prems(2) False show ?thesis by (intro exI [of _ "[]"] exI [of _ "row # rows"]) auto
  qed
qed auto

text \<open>So the track does not depend on the message that was kept, and ends at the first event that is no position.\<close>

lemma gpx_points_prev:
  "Beesure \<in> set (gx_pmods env) \<Longrightarrow> \<forall>r \<in> set rows. gpx_row r \<Longrightarrow> gpx_points env prev rows = gpx_points env None rows"
  by (cases rows) (simp_all add: gpx_message_row)

lemma gpx_points_point:
  assumes "Beesure \<in> set (gx_pmods env)" and "gpx_row row" and "\<forall>r \<in> set rows. gpx_row r" and "gpx_point env row pt"
  shows "gpx_points env prev (row # rows) = (case gpx_points env None rows of (pts, e) \<Rightarrow> (pt # pts, e))"
proof -
  have "gpx_points env (Some m) rows = gpx_points env None rows" for m by (rule gpx_points_prev [OF assms(1,3)])
  with assms(2,4) show ?thesis
    by (auto simp: gpx_message_row [OF assms(1)] gpx_point_def lat_lon_def gpx_time_eq)
qed

lemma gpx_points_stop:
  assumes "Beesure \<in> set (gx_pmods env)" and "gpx_row row" and "\<nexists>pt. gpx_point env row pt"
  shows "gpx_points env prev (row # rows) = gpx_points env None [row]"
  using assms(2,3)
  by (auto simp: gpx_message_row [OF assms(1)] gpx_point_def lat_lon_def res_simps
      split: sqlval.splits sum.splits bs_body.splits)

lemma gpx_points_append:
  assumes "Beesure \<in> set (gx_pmods env)" and "\<forall>r \<in> set early. gpx_row r"
  shows "if \<forall>r \<in> set early. \<exists>pt. gpx_point env r pt
    then \<exists>as. list_all2 (gpx_point env) early as \<and> (\<forall>rest. (\<forall>r \<in> set rest. gpx_row r) \<longrightarrow>
      gpx_points env None (early @ rest) = (case gpx_points env None rest of (pts, e) \<Rightarrow> (as @ pts, e)))
    else \<forall>rest. (\<forall>r \<in> set rest. gpx_row r) \<longrightarrow> gpx_points env None (early @ rest) = gpx_points env None early"
  using assms(2)
proof (induction early)
  case (Cons r early)
  then have r: "gpx_row r" "\<forall>r \<in> set early. gpx_row r" by simp_all
  show ?case
  proof (cases "\<exists>pt. gpx_point env r pt")
    case True
    then obtain pt where pt: "gpx_point env r pt" by blast
    have step: "gpx_points env None ((r # early) @ rest) =
        (case gpx_points env None (early @ rest) of (pts, e) \<Rightarrow> (pt # pts, e))"
      if "\<forall>r \<in> set rest. gpx_row r" for rest
      using gpx_points_point [OF assms(1) r(1) _ pt, of "early @ rest"] r(2) that by auto
    show ?thesis
    proof (cases "\<forall>r \<in> set early. \<exists>pt. gpx_point env r pt")
      case True
      with Cons.IH r(2) obtain as where as: "list_all2 (gpx_point env) early as"
        "\<And>rest. \<forall>r \<in> set rest. gpx_row r \<Longrightarrow>
          gpx_points env None (early @ rest) = (case gpx_points env None rest of (pts, e) \<Rightarrow> (as @ pts, e))" by auto
      have "gpx_points env None ((r # early) @ rest) =
          (case gpx_points env None rest of (pts, e) \<Rightarrow> ((pt # as) @ pts, e))" if "\<forall>r \<in> set rest. gpx_row r" for rest
        unfolding step [OF that] as(2) [OF that] by (simp split: prod.split)
      moreover have "list_all2 (gpx_point env) (r # early) (pt # as)" using pt as(1) by simp
      ultimately have "\<exists>as. list_all2 (gpx_point env) (r # early) as \<and> (\<forall>rest. (\<forall>r \<in> set rest. gpx_row r) \<longrightarrow>
          gpx_points env None ((r # early) @ rest) = (case gpx_points env None rest of (pts, e) \<Rightarrow> (as @ pts, e)))"
        by blast
      with True pt show ?thesis by auto
    next
      case False
      with Cons.IH r(2) have "gpx_points env None (early @ rest) = gpx_points env None early"
        if "\<forall>r \<in> set rest. gpx_row r" for rest using that by auto
      with step step [of "[]"] have "\<forall>rest. (\<forall>r \<in> set rest. gpx_row r) \<longrightarrow>
          gpx_points env None ((r # early) @ rest) = gpx_points env None (r # early)" by simp
      with False show ?thesis by auto
    qed
  next
    case False
    have "gpx_points env None (r # rows) = gpx_points env None [r]" for rows
      by (rule gpx_points_stop [OF assms(1) r(1) False])
    then have "gpx_points env None ((r # early) @ rest) = gpx_points env None (r # early)" for rest
      by (metis append_Cons)
    with False show ?thesis by (auto simp del: gpx_points.simps)
  qed
qed simp

section \<open>From the terminal to the track\<close>

lemma broadcast_logged_in:
  assumes "received_ok (pm, Some i, peer, p)" and "publish_in t (pm, Some i, peer, p) = Inr msg"
    and "pm_proto_of_message pm p = Inr n" "fits16 n" and "i \<noteq> replicate 16 48"
  shows "bcast_decode msg = Inr \<lparr>b_is_incoming = True, b_proto = n, b_pmod = Some (PMODNAME pm), b_imei = Some i,
    b_when = Some t, b_peeraddr = Some (norm_peer (Some peer)), b_packet = p\<rparr>"
  using pm_broadcast [OF assms(1-4)] assms(5) by (simp add: pm_bcast_def wire_imei_def)

lemma store_raw_incoming:
  assumes "bcast_decode msg = Inr z" and "b_is_incoming z" and "b_imei z = Some i" and "b_pmod z = Some pm"
    and "b_when z = Some t" and "st_events env" and "st_fromtimestamp env (Some t) = Inr ()"
    and "float_of_bits t = Fin q"
  shows "store_raw env msg d = (let d1 = stowpmod (st_now env) i pm d in
    Inr (d1\<lparr>events := events d1 @ [\<lparr>ev_tstamp = SReal (Fin q), ev_imei = SText i,
      ev_peeraddr = SText (st_str_peer env (b_peeraddr z)), ev_is_incoming = SInt 1,
      ev_proto = SText (b_proto z), ev_packet = SBlob (b_packet z)\<rparr>]\<rparr>))"
proof -
  have "when_bits (b_when z) = t" using assms(5) by (simp add: when_bits_def)
  then show ?thesis
    by (simp add: store_raw_def Let_def assms opt_str_def stow_def or_default_def)
qed

text \<open>Sorting is stable: a row added last comes after the rows with a key that is not greater.\<close>

lemma sort_key_snoc:
  "sort_key f (xs @ [x]) = filter (\<lambda>y. f y \<le> f x) (sort_key f xs) @ x # filter (\<lambda>y. \<not> f y \<le> f x) (sort_key f xs)"
  (is "_ = ?ys")
proof (rule properties_for_sort_key)
  have "mset (sort_key f xs) = mset (filter (\<lambda>y. f y \<le> f x) (sort_key f xs)) +
      mset (filter (\<lambda>y. \<not> f y \<le> f x) (sort_key f xs))" by (rule mset_split)
  then show "mset ?ys = mset (xs @ [x])" by simp
  have stable: "filter (\<lambda>y. f k = f y) (sort_key f xs) = filter (\<lambda>y. f k = f y) xs" for k
    using sort_key_stable [of f "f k" xs] by (simp add: eq_commute [of "f k"])
  show "filter (\<lambda>y. f k = f y) ?ys = filter (\<lambda>y. f k = f y) (xs @ [x])" for k
  proof (cases "f k \<le> f x")
    case True
    then have "filter (\<lambda>y. f k = f y \<and> f y \<le> f x) (sort_key f xs) = filter (\<lambda>y. f k = f y) (sort_key f xs)"
      "filter (\<lambda>y. f k = f y \<and> \<not> f y \<le> f x) (sort_key f xs) = []"
      by (auto intro: filter_cong simp: filter_empty_conv)
    then show ?thesis by (simp add: stable conj_commute)
  next
    case False
    then have "filter (\<lambda>y. f k = f y \<and> \<not> f y \<le> f x) (sort_key f xs) = filter (\<lambda>y. f k = f y) (sort_key f xs)"
      "filter (\<lambda>y. f k = f y \<and> f y \<le> f x) (sort_key f xs) = []" "f k \<noteq> f x"
      by (auto intro: filter_cong simp: filter_empty_conv)
    then show ?thesis by (simp add: stable conj_commute)
  qed
  have "sorted (map f (sort_key f xs))" by simp
  then have "sorted (map f (filter P (sort_key f xs)))" for P by (rule sorted_filter)
  then show "sorted (map f ?ys)" by (auto simp: sorted_append)
qed

lemma sorted_key_split:
  "sorted (map f xs) \<Longrightarrow> xs = filter (\<lambda>y. f y \<le> k) xs @ filter (\<lambda>y. \<not> f y \<le> k) xs"
proof (induction xs)
  case (Cons x xs)
  show ?case
  proof (cases "f x \<le> k")
    case False
    with Cons.prems have "\<forall>y \<in> set xs. \<not> f y \<le> k" by auto
    then have "filter (\<lambda>y. f y \<le> k) xs = []" "filter (\<lambda>y. \<not> f y \<le> k) xs = xs"
      by (auto simp: filter_empty_conv filter_id_conv)
    with False show ?thesis by simp
  qed (use Cons in simp)
qed simp

lemma gpx_events_sorted_split:
  "gpx_events i d = filter (\<lambda>r. tstamp_key (ev_tstamp r) \<le> k) (gpx_events i d) @
     filter (\<lambda>r. \<not> tstamp_key (ev_tstamp r) \<le> k) (gpx_events i d)"
  by (rule sorted_key_split) (simp add: gpx_events_def)

lemma gpx_events_snoc:
  fixes d :: db
  assumes "ev_imei row = SText i" and "ev_is_incoming row = SInt 1" and "gpx_row row"
  shows "gpx_events i (d\<lparr>events := events d @ [row]\<rparr>) =
    (let P = (\<lambda>r. tstamp_key (ev_tstamp r) \<le> tstamp_key (ev_tstamp row))
     in filter P (gpx_events i d) @ row # filter (\<lambda>r. \<not> P r) (gpx_events i d))"
  using assms(3) assms(1,2) unfolding gpx_row_def by (auto simp: gpx_events_def sort_key_snoc)

lemma gpx_events_other: "ev_imei row \<noteq> SText j \<Longrightarrow> gpx_events j (d\<lparr>events := events d @ [row]\<rparr>) = gpx_events j d"
  by (simp add: gpx_events_def)

lemma gpx_events_stowpmod [simp]: "gpx_events i (stowpmod now j p d) = gpx_events i d"
  by (simp add: gpx_events_def stowpmod_def)

section \<open>Properties\<close>

text \<open>
  C3: The positions that a Beesure terminal sends are in its track. Storage (where events are kept) stores the
  broadcast of each, and the track that \<open>mkgpx\<close> prints afterwards has one point more, with the position
  that the packet is parsed to and the time of the broadcast (a time that \<open>datetime\<close> takes), after the points of the
  events that are not later;
  the tracks of the other terminals are what they were. If an earlier event is no position, however, the
  track ends before it and is what it was. (This holds for the messages \<open>UD\<close> and \<open>UD2\<close>, which \<open>mkgpx\<close> selects;
  an alarm, \<open>AL\<close>, is left out of the track even when it has a position. The IMEI is not the sixteen zeros that
  stand for none; a time at a full second is garbled.)
\<close>

theorem positions_tracked:
  assumes r: "received_ok (Beesure, Some i, peer, p)" and msg: "publish_in t (Beesure, Some i, peer, p) = Inr msg"
    and name: "bs_proto_of_message p = u ''BS:UD'' \<or> bs_proto_of_message p = u ''BS:UD2''"
    and i: "i \<noteq> replicate 16 48" and t: "float_of_bits t = Fin q"
    and env: "st_events env" "st_fromtimestamp env (Some t) = Inr ()"
    and parsed: "bs_parse_message p In = Inr m" "bo_body m = Loc_Attrs l"
    and genv: "Beesure \<in> set (gx_pmods genv)" "gx_time genv (SReal (Fin q)) = Inr (tm, us)"
    and before: "gpx_main genv (i # args) d = (out, raised)"
  shows "\<exists>d'. store_raw env msg d = Inr d' \<and>
    (\<forall>j. j \<noteq> i \<longrightarrow> gpx_main genv (j # args) d' = gpx_main genv (j # args) d) \<and>
    (let early = filter (\<lambda>r. tstamp_key (ev_tstamp r) \<le> (2, q, [])) (gpx_events i d);
         pt = trkpt genv (ld_latitude l) (ld_longitude l)
           (iso_seconds tm @ (if us = 0 then u ''+00:0Z'' else u ''Z''))
     in if \<forall>r \<in> set early. \<exists>pt'. gpx_point genv r pt'
       then \<exists>as bs. list_all2 (gpx_point genv) early as \<and> out = gpx_head # as @ bs \<and>
         gpx_main genv (i # args) d' = (gpx_head # as @ pt # bs, raised)
       else gpx_main genv (i # args) d' = (out, raised))"
proof -
  let ?n = "bs_proto_of_message p" and ?d = "stowpmod (st_now env) i (PMODNAME Beesure) d"
  have "fits16 ?n" using name by (auto intro!: fits16_ascii simp: ascii_def)
  from broadcast_logged_in [OF r msg _ this i] have z: "bcast_decode msg = Inr \<lparr>b_is_incoming = True, b_proto = ?n,
      b_pmod = Some (PMODNAME Beesure), b_imei = Some i, b_when = Some t,
      b_peeraddr = Some (norm_peer (Some peer)), b_packet = p\<rparr>" by simp
  define row where "row = \<lparr>ev_tstamp = SReal (Fin q), ev_imei = SText i,
      ev_peeraddr = SText (st_str_peer env (Some (norm_peer (Some peer)))),
      ev_is_incoming = SInt 1, ev_proto = SText ?n, ev_packet = SBlob p\<rparr>"
  let ?pt = "trkpt genv (ld_latitude l) (ld_longitude l) (iso_seconds tm @ (if us = 0 then u ''+00:0Z'' else u ''Z''))"
  let ?d' = "?d\<lparr>events := events ?d @ [row]\<rparr>"
  let ?P = "\<lambda>r. tstamp_key (ev_tstamp r) \<le> (2, q, [])"
  let ?early = "filter ?P (gpx_events i d)" and ?late = "filter (\<lambda>r. \<not> ?P r) (gpx_events i d)"
  have "store_raw env msg d = Inr ?d'"
    unfolding row_def
    by (rule store_raw_incoming [OF z, unfolded Let_def bcast.select_convs, OF TrueI refl refl refl env t])
  moreover have "gpx_main genv (j # args) ?d' = gpx_main genv (j # args) d" if "j \<noteq> i" for j
    using gpx_events_other [of row j ?d] that by (simp add: gpx_main_def row_def)
  moreover have row: "gpx_row row" "gpx_point genv row ?pt"
    using name parsed genv(2) by (auto simp: row_def gpx_row_def gpx_point_def)
  have rows: "\<forall>r \<in> set (gpx_events i d). gpx_row r" by (auto simp: gpx_events_def gpx_row_def)
  have after: "gpx_events i ?d' = ?early @ row # ?late"
    using gpx_events_snoc [OF _ _ row(1), of i ?d] by (simp add: row_def Let_def)
  have now: "gpx_events i d = ?early @ ?late"
    using gpx_events_sorted_split [of i d "(2, q, [])"] .
  have g: "\<forall>r \<in> set ?early. gpx_row r" "\<forall>r \<in> set ?late. gpx_row r" "\<forall>r \<in> set (row # ?late). gpx_row r"
    using rows row(1) by simp_all
  note app = gpx_points_append [OF genv(1) g(1)]
  have "if \<forall>r \<in> set ?early. \<exists>pt'. gpx_point genv r pt'
       then \<exists>as bs. list_all2 (gpx_point genv) ?early as \<and> out = gpx_head # as @ bs \<and>
         gpx_main genv (i # args) ?d' = (gpx_head # as @ ?pt # bs, raised)
       else gpx_main genv (i # args) ?d' = (out, raised)"
  proof (cases "\<forall>r \<in> set ?early. \<exists>pt'. gpx_point genv r pt'")
    case True
    with app obtain as where as: "list_all2 (gpx_point genv) ?early as"
      "\<And>rest. \<forall>r \<in> set rest. gpx_row r \<Longrightarrow>
        gpx_points genv None (?early @ rest) = (case gpx_points genv None rest of (pts, e) \<Rightarrow> (as @ pts, e))" by metis
    obtain pts e where late: "gpx_points genv None ?late = (pts, e)" by fastforce
    have "gpx_points genv None (gpx_events i d) = (as @ pts, e)"
      by (subst now) (simp only: as(2) [OF g(2)] late prod.case)
    with before have out: "out = gpx_head # as @ (pts @ (case e of None \<Rightarrow> [gpx_foot] | Some x \<Rightarrow> []))" "raised = e"
      by (auto simp: gpx_main_def split: option.splits)
    have "gpx_points genv None (gpx_events i ?d') = (as @ ?pt # pts, e)"
      by (simp only: after as(2) [OF g(3)] gpx_points_point [OF genv(1) row(1) g(2) row(2)] late prod.case)
    then have "gpx_main genv (i # args) ?d' =
        (gpx_head # as @ ?pt # (pts @ (case e of None \<Rightarrow> [gpx_foot] | Some x \<Rightarrow> [])), raised)"
      by (simp add: gpx_main_def out(2) split: option.split)
    with as(1) out(1) show ?thesis unfolding if_P [OF True] by blast
  next
    case False
    with app have "gpx_points genv None (?early @ rest) = gpx_points genv None ?early"
      if "\<forall>r \<in> set rest. gpx_row r" for rest using that by (simp only: if_False)
    from this [OF g(2)] this [OF g(3)] have "gpx_points genv None (gpx_events i ?d') = gpx_points genv None (gpx_events i d)"
      unfolding after by (subst now) simp
    then have "gpx_main genv (i # args) ?d' = gpx_main genv (i # args) d" by (simp add: gpx_main_def)
    with before show ?thesis by (simp only: if_not_P [OF False])
  qed
  ultimately show ?thesis unfolding Let_def by blast
qed

text \<open>
  C37: The track has the stored positions of the terminal in the order of their time stamps, one point
  for each up to the first event that is no position (a malformed message is enough), where the program
  ends without closing the document. A point has the position of the message, and its time to the
  second; of an event at a full second the time is garbled, ending in \<open>+00:0Z\<close>.
\<close>

theorem track_of_events:
  assumes "Beesure \<in> set (gx_pmods env)" and "gpx_main env (imei # args) d = (out, raised)"
  shows "sorted (map (\<lambda>r. tstamp_key (ev_tstamp r)) (gpx_events imei d)) \<and>
    (\<exists>rows rest pts. gpx_events imei d = rows @ rest \<and> list_all2 (gpx_point env) rows pts \<and>
      (case raised of
         None \<Rightarrow> rest = [] \<and> out = gpx_head # pts @ [gpx_foot]
       | Some e \<Rightarrow> rest \<noteq> [] \<and> (\<nexists>pt. gpx_point env (hd rest) pt) \<and> out = gpx_head # pts))"
proof -
  obtain pts where pts: "gpx_points env None (gpx_events imei d) = (pts, raised)"
    and out: "out = gpx_head # pts @ (case raised of None \<Rightarrow> [gpx_foot] | Some e \<Rightarrow> [])"
    using assms(2) by (auto simp: gpx_main_def split: prod.splits option.splits)
  have "\<forall>r \<in> set (gpx_events imei d). gpx_row r" by (auto simp: gpx_events_def gpx_row_def)
  from gpx_points_spec [OF assms(1) this pts] obtain rows rest where
    r: "gpx_events imei d = rows @ rest" "list_all2 (gpx_point env) rows pts"
      "case raised of None \<Rightarrow> rest = [] | Some e \<Rightarrow> rest \<noteq> [] \<and> (\<nexists>pt. gpx_point env (hd rest) pt)" by blast
  moreover have "case raised of
      None \<Rightarrow> rest = [] \<and> out = gpx_head # pts @ [gpx_foot]
    | Some e \<Rightarrow> rest \<noteq> [] \<and> (\<nexists>pt. gpx_point env (hd rest) pt) \<and> out = gpx_head # pts"
    using r(3) out by (cases raised) simp_all
  moreover have "sorted (map (\<lambda>r. tstamp_key (ev_tstamp r)) (gpx_events imei d))" by (simp add: gpx_events_def)
  ultimately show ?thesis by blast
qed

definition ex_gpx_env :: gpx_env where
  "ex_gpx_env = \<lparr>gx_pmods = [Beesure], gx_tz = id, gx_time = (\<lambda>t. Inr (ex_now, 0)), gx_float = (\<lambda>f. u ''0.0'')\<rparr>"

definition ex_gpx_db :: db where
  "ex_gpx_db = ex_db\<lparr>events := [\<lparr>ev_tstamp = SReal (Fin 5), ev_imei = SText ex_imei, ev_peeraddr = SText [],
     ev_is_incoming = SInt 1, ev_proto = SText (u ''BS:UD''), ev_packet = SBlob ud_packet\<rparr>]\<rparr>"

theorem track_of_events_witness:
  "\<exists>l :: loc_data. gpx_main ex_gpx_env [ex_imei] ex_gpx_db = ([gpx_head, trkpt ex_gpx_env (ld_latitude l) (ld_longitude l)
      (iso_seconds ex_now @ u ''+00:0Z''), gpx_foot], None) \<and> ld_latitude l = Fin (11 / 2)"
proof -
  obtain m l where m: "bs_parse_message ud_packet In = Inr m" "bo_body m = Loc_Attrs l" "ld_latitude l = Fin (11 / 2)"
    using ud_parse by blast
  let ?row = "\<lparr>ev_tstamp = SReal (Fin 5), ev_imei = SText ex_imei, ev_peeraddr = SText [],
     ev_is_incoming = SInt 1, ev_proto = SText (u ''BS:UD''), ev_packet = SBlob ud_packet\<rparr>"
  have ev: "gpx_events ex_imei ex_gpx_db = [?row]" by (simp add: gpx_events_def ex_gpx_db_def)
  have b: "Beesure \<in> set (gx_pmods ex_gpx_env)" by (simp add: ex_gpx_env_def)
  have pt: "gpx_point ex_gpx_env ?row pt \<longleftrightarrow> pt = trkpt ex_gpx_env (ld_latitude l) (ld_longitude l)
      (iso_seconds ex_now @ u ''+00:0Z'')" for pt
    using m(1,2) by (auto simp: gpx_point_def ex_gpx_env_def)
  obtain out raised where g: "gpx_main ex_gpx_env [ex_imei] ex_gpx_db = (out, raised)" by fastforce
  from track_of_events [OF b g] obtain rows rest pts where r: "[?row] = rows @ rest"
    "list_all2 (gpx_point ex_gpx_env) rows pts" "case raised of
      None \<Rightarrow> rest = [] \<and> out = gpx_head # pts @ [gpx_foot]
    | Some e \<Rightarrow> rest \<noteq> [] \<and> (\<nexists>pt. gpx_point ex_gpx_env (hd rest) pt) \<and> out = gpx_head # pts"
    unfolding ev by blast
  show ?thesis
  proof (cases rest)
    case Nil
    with r(1) have "rows = [?row]" by simp
    with r(2,3) Nil obtain p where "pts = [p]" "gpx_point ex_gpx_env ?row p" "raised = None"
      "out = [gpx_head, p, gpx_foot]" by (auto simp: list_all2_Cons1 split: option.splits)
    moreover from this(2) pt have "p = trkpt ex_gpx_env (ld_latitude l) (ld_longitude l)
      (iso_seconds ex_now @ u ''+00:0Z'')" by blast
    ultimately have "gpx_main ex_gpx_env [ex_imei] ex_gpx_db = ([gpx_head, trkpt ex_gpx_env (ld_latitude l)
      (ld_longitude l) (iso_seconds ex_now @ u ''+00:0Z''), gpx_foot], None)" using g by (simp only:)
    with m(3) show ?thesis by blast
  next
    case (Cons x xs)
    with r(1) have "x = ?row" by (simp add: Cons_eq_append_conv)
    with r(3) Cons pt show ?thesis by (auto split: option.splits)
  qed
qed

text \<open>
  C36: From the command line only Beesure commands can be sent. A command named for a zx303
  terminal is refused, whatever it is and whatever the IMEI. What is sent otherwise is a response whose
  packet is the message of the Beesure class that the name selects; where the IMEI fits its field (and is not the
  sixteen zeros that stand for none), the collector reads it as one for this IMEI; and unless it is
  longer than 64K, the collector can frame it (also for a terminal of the other module, which
  nothing checks).
\<close>

theorem command_line_sends:
  "(prefix ZX_PREFIX cmd \<longrightarrow>
      cl_main env (i # cmd # args) = Inl (if Zx303 \<in> set (cl_pmods env) then ValueError else NotImplementedError)) \<and>
    (\<forall>b. cl_main env (i # cmd # args) = Inr b \<longrightarrow>
      (\<exists>c kwargs packet. bs_class_by_prefix cmd = Inr (Inl c) \<and> cl_kwargs args = Inr kwargs \<and>
        bs_Out_packed (cl_repr env) c kwargs = Inr packet \<and>
        (fits16 i \<and> i \<noteq> replicate 16 48 \<longrightarrow>
          resp_decode b = Inr \<lparr>r_imei = Some i, r_when = Some (cl_time env), r_packet = packet\<rparr>) \<and>
        (length packet < 65536 \<longrightarrow>
          resp_ok \<lparr>r_imei = Some i, r_when = Some (cl_time env), r_packet = packet\<rparr>)))"
proof (intro conjI impI allI)
  assume z: "prefix ZX_PREFIX cmd"
  have h: "pm_proto_handled q cmd \<longleftrightarrow> q = Zx303" for q
    using z by (cases q) (auto simp: zx_proto_handled_def bs_proto_handled_def ZX_PREFIX_def BS_PREFIX_def prefix_def)
  then have "pmod_for_proto (cl_pmods env) cmd = (if Zx303 \<in> set (cl_pmods env) then Some Zx303 else None)"
    using pmod_for_own [OF h, of "cl_pmods env"] by (auto simp: pmod_for_proto_def find_None_iff)
  with z show "cl_main env (i # cmd # args) = Inl (if Zx303 \<in> set (cl_pmods env) then ValueError else NotImplementedError)"
    by (simp add: cl_main_def cl_packet_def zx_class_by_prefix_useless)
next
  fix b
  assume "cl_main env (i # cmd # args) = Inr b"
  then obtain pm packet where p: "cl_packet env pm cmd args = Inr packet"
    "resp_packed \<lparr>r_imei = Some i, r_when = Some (cl_time env), r_packet = packet\<rparr> = Inr b"
    by (auto simp: cl_main_def res_simps split: option.splits)
  then have "pm = Beesure"
    by (cases pm) (auto simp: cl_packet_def zx_class_by_prefix_useless split: if_splits)
  with p(1) obtain cls where "bs_class_by_prefix cmd = Inr cls" "(case cls of Inr lst \<Rightarrow> Inl ValueError
      | Inl c \<Rightarrow> and_then (cl_kwargs args) (bs_Out_packed (cl_repr env) c)) = Inr packet"
    by (auto simp: cl_packet_def res_simps)
  then obtain c kwargs where c: "bs_class_by_prefix cmd = Inr (Inl c)" "cl_kwargs args = Inr kwargs"
    "bs_Out_packed (cl_repr env) c kwargs = Inr packet"
    by (cases cls) (auto simp: res_simps)
  let ?m = "\<lparr>r_imei = Some i, r_when = Some (cl_time env), r_packet = packet\<rparr>"
  have "resp_decode b = Inr ?m" if "fits16 i \<and> i \<noteq> replicate 16 48"
  proof -
    from that have "wf_resp ?m" by (simp add: wf_resp_def wf_opt_def)
    from resp.round [OF this] p(2) show ?thesis by (simp add: norm_resp_def when_bits_def)
  qed
  moreover have "resp_ok ?m" if "length packet < 65536"
  proof -
    have "bs_header packet" using c(3) that by (auto simp: bs_Out_packed_def res_simps intro: bs_packed_header)
    moreover from bs_header_long [OF this] have "zx_good packet" by (simp add: zx_good_def)
    ultimately show ?thesis by (simp add: resp_ok_def)
  qed
  ultimately show "\<exists>c kwargs packet. bs_class_by_prefix cmd = Inr (Inl c) \<and> cl_kwargs args = Inr kwargs \<and>
        bs_Out_packed (cl_repr env) c kwargs = Inr packet \<and>
        (fits16 i \<and> i \<noteq> replicate 16 48 \<longrightarrow>
          resp_decode b = Inr \<lparr>r_imei = Some i, r_when = Some (cl_time env), r_packet = packet\<rparr>) \<and>
        (length packet < 65536 \<longrightarrow>
          resp_ok \<lparr>r_imei = Some i, r_when = Some (cl_time env), r_packet = packet\<rparr>)"
    using c by blast
qed

definition ex_cl_env :: cl_env where
  "ex_cl_env = \<lparr>cl_pmods = [Zx303, Beesure], cl_repr = (\<lambda>_. []), cl_time = 0, cl_now = ex_now\<rparr>"

theorem command_line_sends_witness:
  "\<exists>b packet. cl_main ex_cl_env [ex_imei, u ''BS:POWEROFF''] = Inr b \<and>
     resp_decode b = Inr \<lparr>r_imei = Some ex_imei, r_when = Some 0, r_packet = packet\<rparr> \<and>
     cl_main ex_cl_env [ex_zx_imei, u ''ZX:HIBERNATION''] = Inl ValueError"
proof -
  have i: "fits16 ex_imei" "ex_imei \<noteq> replicate 16 48" using ex_imei_own by simp_all
  have "bs_class_by_prefix (u ''BS:POWEROFF'') = Inr (Inl POWEROFF)"
    by (simp add: bs_class_by_prefix_def BS_PREFIX_def bs_all_def ascii_upper_def)
  moreover have "pmod_for_proto [Zx303, Beesure] (u ''BS:POWEROFF'') = Some Beesure"
    by (simp add: pmod_for_proto_def zx_proto_handled_def bs_proto_handled_def ZX_PREFIX_def BS_PREFIX_def)
  moreover have "returns (bs_Out_packed (cl_repr ex_cl_env) POWEROFF [])"
    using bs_packed_Inr [of POWEROFF "[]"]
    by (simp add: bs_Out_packed_def init_kwargs_def returns_def utf8_encode_ascii bs_text_def ascii_def)
  moreover have "\<exists>b. resp_packed \<lparr>r_imei = Some ex_imei, r_when = Some 0, r_packet = q\<rparr> = Inr b" for q
    using resp.round [of "\<lparr>r_imei = Some ex_imei, r_when = Some 0, r_packet = q\<rparr>"] ex_imei_own
    by (auto simp: wf_resp_def wf_opt_def)
  ultimately have "returns (cl_main ex_cl_env [ex_imei, u ''BS:POWEROFF''])"
    by (auto simp: cl_main_def cl_packet_def ex_cl_env_def cl_kwargs_def returns_def)
  then obtain b where b: "cl_main ex_cl_env [ex_imei, u ''BS:POWEROFF''] = Inr b" by (auto simp: returns_def)
  have z: "prefix ZX_PREFIX (u ''ZX:HIBERNATION'')" "Zx303 \<in> set (cl_pmods ex_cl_env)"
    by (simp_all add: ZX_PREFIX_def ex_cl_env_def)
  from command_line_sends [of "u ''ZX:HIBERNATION''" ex_cl_env ex_zx_imei "[]"] z
  have "cl_main ex_cl_env [ex_zx_imei, u ''ZX:HIBERNATION''] = Inl ValueError" by simp
  moreover from command_line_sends [of "u ''BS:POWEROFF''" ex_cl_env ex_imei "[]"] b i
  obtain packet where "resp_decode b = Inr \<lparr>r_imei = Some ex_imei, r_when = Some (cl_time ex_cl_env), r_packet = packet\<rparr>"
    by blast
  moreover have "cl_time ex_cl_env = 0" by (simp add: ex_cl_env_def)
  ultimately show ?thesis using b by auto
qed

text \<open>
  Watching survives what ends the rectifier: of every broadcast of a zx303 packet, malformed ones
  included, it prints what there is and goes on.
\<close>

theorem watch_goes_on:
  assumes r: "received_ok (Zx303, imei, peer, p)" and msg: "publish_in t (Zx303, imei, peer, p) = Inr msg"
    and pm: "Zx303 \<in> set pmods"
  shows "\<exists>ls. watch_bcast tz pmods msg = (ls, None) \<and> ls \<noteq> []"
proof -
  obtain n where n: "zx_proto_of_message p = Inr n" using msg by (auto simp: publish_in_def res_simps)
  obtain m where m: "zx_parse_message tz p In = Inr m" using received_parses [OF r] by blast
  have "\<exists>rep. zx_rectified m = Inr rep" if h: "zx_has_rectified (zo_class m)"
  proof -
    have "zo_cause m = None" using m h by (rule zx_rectified_class_parsed)
    moreover from zx_parsed_name [OF m this] h have "zx_proto_name (zo_class m) \<in> fst ` set zx_exposed_protos"
      by (auto simp: zx_exposed_protos_def zx_all_UNIV image_iff)
    ultimately show ?thesis using zx_rectified_cases [OF m zx_parsed_name [OF m]] by auto
  qed
  then show ?thesis
    using zx_broadcast [OF r msg n] pmod_for_zx_name [OF n pm] m by (auto simp: watch_bcast_def Let_def)
qed

lemma watch_seq_all:
  "list_all (\<lambda>x. snd (f x) = None) xs \<Longrightarrow> watch_seq f xs = (concat (map (fst \<circ> f) xs), None)"
  by (induction xs) (auto split: prod.split)

text \<open>So the loop does not end on what the collector publishes of these terminals, nor on any report.\<close>

definition watchable :: "st_event \<Rightarrow> bool" where
  "watchable ev \<longleftrightarrow> (case ev of
      Raw msgs \<Rightarrow> \<forall>msg \<in> set msgs. \<exists>imei peer p t.
        received_ok (Zx303, imei, peer, p) \<and> publish_in t (Zx303, imei, peer, p) = Inr msg
    | Reports msgs \<Rightarrow> list_all (returns \<circ> rept_decode) msgs
    | Unknown_Socket \<Rightarrow> True)"

theorem watch_loop_goes_on:
  assumes evs: "list_all watchable evs" and pm: "Zx303 \<in> set pmods"
  shows "watch_loop tz pmods evs = (concat (map (fst \<circ> watch_event tz pmods) evs), None)"
proof -
  have "snd (watch_event tz pmods ev) = None" if ev: "watchable ev" for ev
  proof (cases ev)
    case (Raw msgs)
    have "snd (watch_bcast tz pmods msg) = None" if m: "msg \<in> set msgs" for msg
    proof -
      from ev m obtain imei peer p t where
        "received_ok (Zx303, imei, peer, p)" "publish_in t (Zx303, imei, peer, p) = Inr msg"
        unfolding watchable_def Raw by auto
      from watch_goes_on [OF this pm, of tz] show ?thesis by auto
    qed
    then have "list_all (\<lambda>msg. snd (watch_bcast tz pmods msg) = None) msgs" by (simp add: list_all_iff)
    then show ?thesis by (simp add: Raw watch_event_def watch_seq_all)
  next
    case (Reports msgs)
    with ev have "list_all (\<lambda>msg. snd (watch_rept msg) = None) msgs"
      by (auto simp: watchable_def list_all_iff watch_rept_def returns_def)
    then show ?thesis by (simp add: Reports watch_event_def watch_seq_all)
  qed (simp add: watch_event_def)
  with evs show ?thesis by (simp add: watch_loop_def watch_seq_all list_all_iff)
qed

text \<open>The terminal of the example sends its position, at the time 1.\<close>

lemma ud_packet_wf: "bs_wf ud_packet"
  by (simp add: ud_packet_def ud_text_def bs_wf_def bs_header_def re_word_def re_digit_def re_hex_def
      hdr_datalen_def hex_value_def unhexdigit_def pyslice_def)

lemma ud_received: "received_ok (Beesure, Some ex_imei, ex_addr, ud_packet)"
proof -
  have "ud_packet \<in> set (packets (fst (pm_recv (Bs_Stream bs_Stream) ud_packet)))"
    using bs_recv_one [OF ud_packet_wf] by (simp add: split_beta)
  moreover have "stream_pmod (Bs_Stream bs_Stream) = Beesure" by simp
  ultimately show ?thesis using ex_imei_own(1) ex_addr_wf unfolding received_ok_def by fast
qed

lemma ud_published: "\<exists>msg. publish_in t (Beesure, Some ex_imei, ex_addr, ud_packet) = Inr msg"
proof -
  let ?m = "\<lparr>b_is_incoming = True, b_proto = bs_proto_of_message ud_packet, b_pmod = Some (PMODNAME Beesure),
    b_imei = Some ex_imei, b_when = Some t, b_peeraddr = Some ex_addr, b_packet = ud_packet\<rparr>"
  have "fits16 (bs_proto_of_message ud_packet)"
    by (auto intro!: fits16_ascii simp: ud_name bs_proto_name_full BS_PREFIX_def ascii_def)
  then have "wf_bcast ?m"
    using ex_imei_own ex_addr_wf PMODNAME_fits [of Beesure] by (simp add: wf_bcast_def wf_opt_def)
  from bcast.round [OF this] show ?thesis by (auto simp: publish_in_def)
qed

theorem positions_tracked_witness:
  "\<exists>msg d'. publish_in 0x3FF0000000000000 (Beesure, Some ex_imei, ex_addr, ud_packet) = Inr msg \<and>
    store_raw ex_st_env msg ex_db = Inr d' \<and>
    gpx_main ex_gpx_env [ex_imei] ex_db = ([gpx_head, gpx_foot], None) \<and>
    gpx_main ex_gpx_env [ex_imei] d' = ([gpx_head,
      trkpt ex_gpx_env (Fin (11 / 2)) (Fin (- 13 / 2)) (iso_seconds ex_now @ u ''+00:0Z''), gpx_foot], None)"
proof -
  obtain msg where msg: "publish_in 0x3FF0000000000000 (Beesure, Some ex_imei, ex_addr, ud_packet) = Inr msg"
    using ud_published by blast
  obtain m l where m: "bs_parse_message ud_packet In = Inr m" "bo_body m = Loc_Attrs l"
    "ld_latitude l = Fin (11 / 2)" "ld_longitude l = Fin (- 13 / 2)" using ud_parse by blast
  have n: "bs_proto_of_message ud_packet = u ''BS:UD'' \<or> bs_proto_of_message ud_packet = u ''BS:UD2''"
    by (simp add: ud_name bs_proto_name_full BS_PREFIX_def)
  have t: "float_of_bits 0x3FF0000000000000 = Fin 1" by (simp add: float_of_bits_def Let_def)
  have env: "st_events ex_st_env" "st_fromtimestamp ex_st_env (Some 0x3FF0000000000000) = Inr ()"
    by (simp_all add: ex_st_env_def)
  have genv: "Beesure \<in> set (gx_pmods ex_gpx_env)" "gx_time ex_gpx_env (SReal (Fin 1)) = Inr (ex_now, 0)"
    by (simp_all add: ex_gpx_env_def)
  have none: "gpx_events ex_imei ex_db = []" by (simp add: gpx_events_def ex_db_def)
  then have before: "gpx_main ex_gpx_env [ex_imei] ex_db = ([gpx_head, gpx_foot], None)" by (simp add: gpx_main_def)
  let ?pt = "trkpt ex_gpx_env (Fin (11 / 2)) (Fin (- 13 / 2)) (iso_seconds ex_now @ u ''+00:0Z'')"
  from positions_tracked [OF ud_received msg n ex_imei_own(2) t env m(1,2) genv before] obtain d' where
    d': "store_raw ex_st_env msg ex_db = Inr d'" "\<exists>as bs. as = [] \<and> [gpx_head, gpx_foot] = gpx_head # as @ bs \<and>
      gpx_main ex_gpx_env [ex_imei] d' = (gpx_head # as @ ?pt # bs, None)"
    unfolding none m(3,4) by auto
  then have "gpx_main ex_gpx_env [ex_imei] d' = ([gpx_head, ?pt, gpx_foot], None)" by auto
  with msg before d'(1) show ?thesis by blast
qed

end
