(* ===== verification/Startup.thy ===== *)
theory Startup
  imports Services Cmdline
begin

text \<open>
  How the programs start: the options of the command line (\<open>getopt\<close> of the standard library, with short
  options only), \<open>init\<close> of \<open>loctrkd/common.py\<close>, and the main blocks of the command line programs. What
  \<open>configparser\<close> reads from a file, whether standard output is a terminal, and connecting to the system
  log are parameters.
\<close>

section \<open>Options\<close>

type_synonym opts = "(pystr \<times> pystr) list"

text \<open>Whether an option takes an argument: a colon follows it. An unknown option raises.\<close>

fun short_has_arg :: "nat \<Rightarrow> pystr \<Rightarrow> bool res" where
  "short_has_arg opt [] = Inl GetoptError"
| "short_has_arg opt (c # cs) =
     (if opt = c \<and> c \<noteq> 58 then Inr (case cs of [] \<Rightarrow> False | d # _ \<Rightarrow> d = 58) else short_has_arg opt cs)"

text \<open>
  One word of options: several without argument may stand together; an argument is the rest of the word
  or, if there is none, the next word.
\<close>

fun do_shorts :: "pystr \<Rightarrow> opts \<Rightarrow> pystr \<Rightarrow> pystr list \<Rightarrow> (opts \<times> pystr list) res" where
  "do_shorts shortopts opts [] args = Inr (opts, args)"
| "do_shorts shortopts opts (opt # optstring) args =
     and_then (short_has_arg opt shortopts) (\<lambda>has_arg.
       if has_arg then
         (if optstring = [] then
            (case args of [] \<Rightarrow> Inl GetoptError | arg # args' \<Rightarrow> Inr (opts @ [([45, opt], arg)], args'))
          else Inr (opts @ [([45, opt], optstring)], args))
       else do_shorts shortopts (opts @ [([45, opt], [])]) optstring args)"

lemma do_shorts_args: "do_shorts shortopts opts w args = Inr (opts', args') \<Longrightarrow> length args' \<le> length args"
  by (induction shortopts opts w args rule: do_shorts.induct)
    (auto simp: res_simps split: if_splits list.splits)

text \<open>Options end at the first word that is none, at \<open>-\<close>, and after \<open>--\<close>; long ones are unknown.\<close>

function getopt_loop :: "pystr \<Rightarrow> opts \<Rightarrow> pystr list \<Rightarrow> (opts \<times> pystr list) res" where
  "getopt_loop shortopts opts args =
     (case args of
        [] \<Rightarrow> Inr (opts, [])
      | arg # rest \<Rightarrow>
          if take 1 arg \<noteq> [45] \<or> arg = [45] then Inr (opts, args)
          else if arg = [45, 45] then Inr (opts, rest)
          else if take 2 arg = [45, 45] then Inl GetoptError
          else and_then (do_shorts shortopts opts (drop 1 arg) rest) (\<lambda>(opts', args').
            getopt_loop shortopts opts' args'))"
  by pat_completeness auto
termination
  by (relation "measure (\<lambda>(_, _, args). length args)") (auto dest!: do_shorts_args)

declare getopt_loop.simps [simp del]

definition getopt :: "pystr list \<Rightarrow> pystr \<Rightarrow> (opts \<times> pystr list) res" where
  "getopt args shortopts = getopt_loop shortopts [] args"

section \<open>init\<close>

definition CONF :: pystr where
  "CONF = u ''/etc/loctrkd.conf''"

text \<open>\<open>dict(opts)\<close>: of an option that is given twice the later counts.\<close>

definition dopts :: "opts \<Rightarrow> pystr \<rightharpoonup> pystr" where
  "dopts opts = map_of (rev opts)"

datatype log_handler = Stream_Stderr | Syslog

record started =
  st_conf :: conf_file
  st_debug :: bool
  st_handler :: log_handler
  st_pmods :: "pmod list"

record host =
  ho_read :: "pystr \<Rightarrow> conf_file res"
  ho_isatty :: bool
  ho_syslog :: "unit res"

text \<open>
  \<open>init(log, opts)\<close>; without \<open>opts\<close> they are read from the command line, and the rest of it is not
  looked at.
\<close>

definition common_init :: "host \<Rightarrow> pystr list \<Rightarrow> opts option \<Rightarrow> started res" where
  "common_init h argv opts =
     and_then (case opts of Some os \<Rightarrow> Inr os
       | None \<Rightarrow> and_then (getopt (drop 1 argv) (u ''c:d'')) (\<lambda>(os, _). Inr os)) (\<lambda>os.
     and_then (ho_read h (case dopts os (u ''-c'') of Some path \<Rightarrow> path | None \<Rightarrow> CONF)) (\<lambda>conf.
     and_then (if ho_isatty h then Inr Stream_Stderr else and_then (ho_syslog h) (\<lambda>_. Inr Syslog)) (\<lambda>handler.
     and_then (conf_get conf (u ''common'') (u ''protocols'')) (\<lambda>protocols.
     and_then (init_protocols protocols) (\<lambda>pmods.
       Inr \<lparr>st_conf = conf, st_debug = (dopts os (u ''-d'') \<noteq> None), st_handler = handler, st_pmods = pmods\<rparr>)))))"

section \<open>The command line programs\<close>

text \<open>
  \<open>python -m loctrkd\<close>: options, \<open>init\<close>, the socket, and what \<open>main\<close> pushes. \<open>loctrkd.qry\<close> and
  \<open>loctrkd.mkgpx\<close> open the database of the configuration, which is a parameter.
\<close>

definition loctrkd_program :: "host \<Rightarrow> cl_env \<Rightarrow> pystr list \<Rightarrow> bytes res" where
  "loctrkd_program h env argv =
     and_then (getopt (drop 1 argv) (u ''c:d'')) (\<lambda>(opts, args).
     and_then (common_init h argv (Some opts)) (\<lambda>st.
     and_then (conf_get (st_conf st) (u ''collector'') (u ''listenurl'')) (\<lambda>_.
       cl_main (env\<lparr>cl_pmods := st_pmods st\<rparr>) args)))"

definition qry_program :: "host \<Rightarrow> (pystr \<Rightarrow> db res) \<Rightarrow> qry_env \<Rightarrow> pystr list \<Rightarrow>
    (qry_line list \<times> bytes option \<times> py_exn option) res" where
  "qry_program h connect env argv =
     and_then (getopt (drop 1 argv) (u ''o:c:d'')) (\<lambda>(opts, args).
     and_then (common_init h argv (Some opts)) (\<lambda>st.
     and_then (conf_get (st_conf st) (u ''common'') (u ''protocols'')) (\<lambda>protocols.
     and_then (init_protocols protocols) (\<lambda>_.
     and_then (conf_get (st_conf st) (u ''storage'') (u ''dbfn'')) (\<lambda>dbfn.
     and_then (connect dbfn) (\<lambda>d.
       Inr (qry_main env protocols (dopts opts (u ''-o'')) args d)))))))"

definition gpx_program :: "host \<Rightarrow> (pystr \<Rightarrow> db res) \<Rightarrow> gpx_env \<Rightarrow> pystr list \<Rightarrow> (pystr list \<times> py_exn option) res" where
  "gpx_program h connect env argv =
     and_then (getopt (drop 1 argv) (u ''o:c:d'')) (\<lambda>(opts, args).
     and_then (common_init h argv (Some opts)) (\<lambda>st.
     and_then (conf_get (st_conf st) (u ''storage'') (u ''dbfn'')) (\<lambda>dbfn.
     and_then (connect dbfn) (\<lambda>d.
       Inr (gpx_main (env\<lparr>gx_pmods := st_pmods st\<rparr>) args d)))))"

section \<open>Reading back what is written\<close>

text \<open>Options as they are typed, one to a word, an argument in the word after it\<close>

definition valid_opt :: "pystr \<Rightarrow> pystr \<times> pystr \<Rightarrow> bool" where
  "valid_opt shortopts = (\<lambda>(k, v). \<exists>c. k = [45, c] \<and> c \<noteq> 45 \<and>
     (short_has_arg c shortopts = Inr True \<or> short_has_arg c shortopts = Inr False \<and> v = []))"

definition typed_opt :: "pystr \<Rightarrow> pystr \<times> pystr \<Rightarrow> pystr list" where
  "typed_opt shortopts = (\<lambda>(k, v). if short_has_arg (last k) shortopts = Inr True then [k, v] else [k])"

definition typed_opts :: "pystr \<Rightarrow> opts \<Rightarrow> pystr list" where
  "typed_opts shortopts opts = concat (map (typed_opt shortopts) opts)"

definition no_option :: "pystr list \<Rightarrow> bool" where
  "no_option args \<longleftrightarrow> args = [] \<or> take 1 (hd args) \<noteq> [45] \<or> hd args = [45]"

lemma getopt_loop_typed:
  assumes "list_all (valid_opt shortopts) opts"
  shows "getopt_loop shortopts acc (typed_opts shortopts opts @ args) = getopt_loop shortopts (acc @ opts) args"
  using assms
proof (induction opts arbitrary: acc)
  case (Cons kv opts)
  obtain c v where kv: "kv = ([45, c], v)" "c \<noteq> 45"
    "short_has_arg c shortopts = Inr True \<or> short_has_arg c shortopts = Inr False \<and> v = []"
    using Cons.prems by (cases kv) (auto simp: valid_opt_def)
  let ?rest = "typed_opts shortopts opts @ args"
  have "getopt_loop shortopts acc (typed_opt shortopts kv @ ?rest) = getopt_loop shortopts (acc @ [kv]) ?rest"
    using kv(2,3) by (subst getopt_loop.simps) (auto simp: kv(1) typed_opt_def)
  with Cons show ?case by (simp add: typed_opts_def)
qed (simp add: typed_opts_def)

lemma getopt_loop_end: "no_option args \<Longrightarrow> getopt_loop shortopts opts args = Inr (opts, args)"
  by (subst getopt_loop.simps) (auto simp: no_option_def split: list.split)

lemma getopt_loop_dashes: "getopt_loop shortopts opts ([45, 45] # args) = Inr (opts, args)"
  by (subst getopt_loop.simps) simp

lemma getopt_typed:
  assumes "list_all (valid_opt shortopts) opts"
  shows "no_option args \<Longrightarrow> getopt (typed_opts shortopts opts @ args) shortopts = Inr (opts, args)"
    and "getopt (typed_opts shortopts opts @ [45, 45] # args) shortopts = Inr (opts, args)"
  using getopt_loop_typed [OF assms, of "[]"] getopt_loop_end getopt_loop_dashes by (simp_all add: getopt_def)

text \<open>The file that is read: the last one that is named, or the default\<close>

definition conf_path :: "opts \<Rightarrow> pystr" where
  "conf_path opts = last (CONF # map snd (filter (\<lambda>(k, v). k = u ''-c'') opts))"

lemma conf_path_dopts: "(case dopts opts (u ''-c'') of Some path \<Rightarrow> path | None \<Rightarrow> CONF) = conf_path opts"
proof (induction opts rule: rev_induct)
  case (snoc kv opts)
  then show ?case by (cases kv) (auto simp: dopts_def conf_path_def)
qed (simp add: dopts_def conf_path_def)

section \<open>Properties\<close>

text \<open>
  C40: A command line does what it says. Options as they are typed are read back, each with its
  argument, and what follows them, up to the last word, is given to \<open>main\<close>: with the configuration of
  the file that is named last, or of the default one, and with the protocol modules it names, the
  command is sent as \<open>main\<close> does; and if there is no such file, which \<open>configparser\<close> takes for an empty
  one, the program does not start.
\<close>

theorem program_started:
  assumes opts: "list_all (valid_opt (u ''c:d'')) opts" and args: "no_option args"
    and host: "ho_isatty h \<or> ho_syslog h = Inr ()" "ho_read h (conf_path opts) = Inr conf"
  shows "(conf = Map.empty \<longrightarrow>
      loctrkd_program h env (prog # typed_opts (u ''c:d'') opts @ args) = Inl NoSectionError) \<and>
    (\<forall>protocols pmods url. conf_get conf (u ''common'') (u ''protocols'') = Inr protocols \<longrightarrow>
      init_protocols protocols = Inr pmods \<longrightarrow> conf_get conf (u ''collector'') (u ''listenurl'') = Inr url \<longrightarrow>
      loctrkd_program h env (prog # typed_opts (u ''c:d'') opts @ args) = cl_main (env\<lparr>cl_pmods := pmods\<rparr>) args)"
proof -
  let ?argv = "prog # typed_opts (u ''c:d'') opts @ args"
  have g: "getopt (drop 1 ?argv) (u ''c:d'') = Inr (opts, args)" using getopt_typed(1) [OF opts args] by simp
  obtain hd where hd: "(if ho_isatty h then Inr Stream_Stderr else and_then (ho_syslog h) (\<lambda>_. Inr Syslog)) = Inr hd"
    using host(1) by (cases "ho_isatty h") auto
  have init: "common_init h ?argv (Some opts) = and_then (conf_get conf (u ''common'') (u ''protocols'')) (\<lambda>protocols.
      and_then (init_protocols protocols) (\<lambda>pmods. Inr \<lparr>st_conf = conf, st_debug = (dopts opts (u ''-d'') \<noteq> None),
        st_handler = hd, st_pmods = pmods\<rparr>))"
    unfolding common_init_def conf_path_dopts hd by (simp add: host(2))
  have run: "loctrkd_program h env ?argv = and_then (common_init h ?argv (Some opts)) (\<lambda>st.
      and_then (conf_get (st_conf st) (u ''collector'') (u ''listenurl'')) (\<lambda>_. cl_main (env\<lparr>cl_pmods := st_pmods st\<rparr>) args))"
    unfolding loctrkd_program_def g by simp
  have "loctrkd_program h env ?argv = Inl NoSectionError" if "conf = Map.empty"
    unfolding run init by (simp add: that conf_get_def)
  moreover have "loctrkd_program h env ?argv = cl_main (env\<lparr>cl_pmods := pmods\<rparr>) args"
    if "conf_get conf (u ''common'') (u ''protocols'') = Inr protocols" "init_protocols protocols = Inr pmods"
      "conf_get conf (u ''collector'') (u ''listenurl'') = Inr url" for protocols pmods url
    unfolding run init that(1,2) and_then.simps started.select_convs that(3) ..
  ultimately show ?thesis by blast
qed

definition ex_host :: host where
  "ex_host = \<lparr>ho_read = (\<lambda>path. if path = u ''/tmp/x.conf'' then Inr [u ''common'' \<mapsto> [u ''protocols'' \<mapsto> u ''zx303proto,beesure''],
       u ''collector'' \<mapsto> [u ''listenurl'' \<mapsto> u ''ipc:///x'']] else Inr Map.empty), ho_isatty = True, ho_syslog = Inl OSError\<rparr>"

theorem program_started_witness:
  "\<forall>env. loctrkd_program ex_host env [u ''loctrkd'', u ''-d'', u ''-c'', u ''/tmp/x.conf'', u ''1234567890'', u ''BS:FIND''] =
     cl_main (env\<lparr>cl_pmods := [Zx303, Beesure]\<rparr>) [u ''1234567890'', u ''BS:FIND''] \<and>
   loctrkd_program ex_host env [u ''loctrkd'', u ''1234567890'', u ''BS:FIND''] = Inl NoSectionError"
proof (rule allI)
  fix env :: cl_env
  let ?c = "[u ''common'' \<mapsto> [u ''protocols'' \<mapsto> u ''zx303proto,beesure''], u ''collector'' \<mapsto> [u ''listenurl'' \<mapsto> u ''ipc:///x'']]"
  let ?o = "[(u ''-d'', []), (u ''-c'', u ''/tmp/x.conf'')]" and ?a = "[u ''1234567890'', u ''BS:FIND'']"
  have v: "list_all (valid_opt (u ''c:d'')) ?o" by (simp add: valid_opt_def)
  have a: "no_option ?a" by (simp add: no_option_def)
  have h: "ho_isatty ex_host \<or> ho_syslog ex_host = Inr ()" by (simp add: ex_host_def)
  have r: "ho_read ex_host (conf_path ?o) = Inr ?c" by (simp add: ex_host_def conf_path_def)
  have r0: "ho_read ex_host (conf_path []) = Inr Map.empty" by (simp add: ex_host_def conf_path_def CONF_def)
  have t: "u ''loctrkd'' # typed_opts (u ''c:d'') ?o @ ?a =
      [u ''loctrkd'', u ''-d'', u ''-c'', u ''/tmp/x.conf'', u ''1234567890'', u ''BS:FIND'']"
    by (simp add: typed_opts_def typed_opt_def)
  have p: "conf_get ?c (u ''common'') (u ''protocols'') = Inr (u ''zx303proto,beesure'')"
    "conf_get ?c (u ''collector'') (u ''listenurl'') = Inr (u ''ipc:///x'')"
    "init_protocols (u ''zx303proto,beesure'') = Inr [Zx303, Beesure]"
    by (simp_all add: conf_get_def init_protocols_def import_pmod_def)
  have "loctrkd_program ex_host env (u ''loctrkd'' # typed_opts (u ''c:d'') ?o @ ?a) =
      cl_main (env\<lparr>cl_pmods := [Zx303, Beesure]\<rparr>) ?a"
    using conjunct2 [OF program_started [OF v a h r]] p(1,3,2) by blast
  moreover have "loctrkd_program ex_host env (u ''loctrkd'' # typed_opts (u ''c:d'') [] @ ?a) = Inl NoSectionError"
    using conjunct1 [OF program_started [OF _ a h r0]] by simp
  ultimately show "loctrkd_program ex_host env [u ''loctrkd'', u ''-d'', u ''-c'', u ''/tmp/x.conf'', u ''1234567890'', u ''BS:FIND''] =
      cl_main (env\<lparr>cl_pmods := [Zx303, Beesure]\<rparr>) [u ''1234567890'', u ''BS:FIND''] \<and>
    loctrkd_program ex_host env [u ''loctrkd'', u ''1234567890'', u ''BS:FIND''] = Inl NoSectionError"
    unfolding t by (simp add: typed_opts_def)
qed

end
