(* ===== verification/Googlemaps.thy ===== *)
theory Googlemaps
  imports Rectifier
begin

text \<open>
  The backend that asks an online service for a position (\<open>loctrkd/googlemaps.py\<close>). The client of the
  service is a parameter: a function of the key and of the request. What it answers is a dictionary.
\<close>

section \<open>Requests and answers\<close>

record geo_request =
  gq_home_mobile_country_code :: int
  gq_home_mobile_network_code :: int
  gq_radio_type :: pystr
  gq_carrier :: pystr
  gq_consider_ip :: bool
  gq_cell_towers :: "(int \<times> int \<times> int) list"
  gq_wifi_access_points :: "(pyval \<times> int) list"

datatype geo_value = Geo_Num pyfloat | Geo_Dict "(pystr \<times> geo_value) list" | Geo_Other

type_synonym geo_dict = "(pystr \<times> geo_value) list"

text \<open>\<open>result[key]\<close>, and the same of a value that need not be a dictionary\<close>

definition geo_get :: "geo_dict \<Rightarrow> pystr \<Rightarrow> geo_value res" where
  "geo_get d k = (case map_of d k of Some v \<Rightarrow> Inr v | None \<Rightarrow> Inl KeyError)"

definition geo_sub :: "geo_value \<Rightarrow> pystr \<Rightarrow> geo_value res" where
  "geo_sub v k = (case v of Geo_Dict d \<Rightarrow> geo_get d k | _ \<Rightarrow> Inl TypeError)"

section \<open>The module\<close>

text \<open>\<open>gclient\<close>: the key of the client once \<open>init\<close> has run; \<open>token\<close> is the text of the file.\<close>

type_synonym gclient = "pystr option"

definition rstrip :: "pystr \<Rightarrow> pystr" where
  "rstrip s = rev (dropWhile py_space (rev s))"

definition gm_init :: "pystr res \<Rightarrow> gclient \<Rightarrow> unit res \<times> gclient" where
  "gm_init token gclient = (case token of Inl e \<Rightarrow> (Inl e, gclient) | Inr txt \<Rightarrow> (Inr (), Some (rstrip txt)))"

text \<open>Addresses are passed on whatever they are. A list that does not have three elements cannot be unpacked.\<close>

definition cell_tower :: "int list \<Rightarrow> (int \<times> int \<times> int) res" where
  "cell_tower c = (case c of [loc, cellid, sig] \<Rightarrow> Inr (loc, cellid, sig) | _ \<Rightarrow> Inl ValueError)"

definition gm_lookup_raw ::
  "(pystr \<Rightarrow> geo_request \<Rightarrow> geo_dict res) \<Rightarrow> gclient \<Rightarrow> int \<Rightarrow> int \<Rightarrow> int list list \<Rightarrow> (pyval \<times> int) list \<Rightarrow> geo_dict res" where
  "gm_lookup_raw geolocate gclient mcc mnc gsm_cells wifi_aps =
     (case gclient of
        None \<Rightarrow> Inl AssertionError
      | Some key \<Rightarrow>
          and_then (map_res cell_tower gsm_cells) (\<lambda>towers.
            geolocate key
              \<lparr>gq_home_mobile_country_code = mcc, gq_home_mobile_network_code = mnc, gq_radio_type = u ''gsm'',
               gq_carrier = u ''O2'', gq_consider_ip = False, gq_cell_towers = towers,
               gq_wifi_access_points = wifi_aps\<rparr>))"

definition gm_lookup ::
  "(pystr \<Rightarrow> geo_request \<Rightarrow> geo_dict res) \<Rightarrow> gclient \<Rightarrow> int \<Rightarrow> int \<Rightarrow> int list list \<Rightarrow> (pyval \<times> int) list \<Rightarrow>
   (geo_value \<times> geo_value \<times> geo_value) res" where
  "gm_lookup geolocate gclient mcc mnc gsm_cells wifi_aps =
     and_then (gm_lookup_raw geolocate gclient mcc mnc gsm_cells wifi_aps) (\<lambda>result.
       if map_of result (u ''location'') \<noteq> None then
         and_then (geo_get result (u ''location'')) (\<lambda>location.
         and_then (geo_sub location (u ''lat'')) (\<lambda>lat.
         and_then (geo_sub location (u ''lng'')) (\<lambda>lng.
         and_then (geo_get result (u ''accuracy'')) (\<lambda>acc.
           Inr (lat, lng, acc)))))
       else Inl ValueError)"

section \<open>As the backend of the rectifier\<close>

text \<open>The documented answer has numbers; the rectifier's \<open>lookup\<close> for one that has.\<close>

fun geo_float :: "geo_value \<Rightarrow> pyfloat res" where
  "geo_float (Geo_Num f) = Inr f"
| "geo_float _ = Inl TypeError"

definition gm_backend :: "(pystr \<Rightarrow> geo_request \<Rightarrow> geo_dict res) \<Rightarrow> gclient lookup" where
  "gm_backend geolocate mcc mnc gsm_cells wifi_aps gclient =
     (and_then (gm_lookup geolocate gclient mcc mnc gsm_cells (map (\<lambda>(mac, sig). (VStr mac, sig)) wifi_aps))
        (\<lambda>(lat, lng, acc).
      and_then (geo_float lat) (\<lambda>la. and_then (geo_float lng) (\<lambda>ln. and_then (geo_float acc) (\<lambda>ac.
        Inr (la, ln, VFloat ac))))), gclient)"

definition geo_answer :: "pyfloat \<Rightarrow> pyfloat \<Rightarrow> pyfloat \<Rightarrow> geo_dict" where
  "geo_answer lat lng acc =
     [(u ''location'', Geo_Dict [(u ''lat'', Geo_Num lat), (u ''lng'', Geo_Num lng)]), (u ''accuracy'', Geo_Num acc)]"


end
