(* ===== verification/Gm_Program.thy ===== *)
theory Gm_Program
  imports Startup Googlemaps
begin

text \<open>
  The program in the main block of \<open>loctrkd/googlemaps.py\<close>: it asks the online service for the position of
  the cells and access points that the command line names. \<open>json.loads\<close>, the file with the key and the
  client of the service are parameters.
\<close>

section \<open>Arguments\<close>

text \<open>What \<open>for x in v\<close> sees of the value of a JSON text; an object yields its keys.\<close>

definition json_seq :: "json \<Rightarrow> pyval list res" where
  "json_seq j = (case j of JObject d \<Rightarrow> Inr (map (VStr \<circ> fst) d) | JOther v \<Rightarrow> py_seq v)"

definition int_of_val :: "pyval \<Rightarrow> int res" where
  "int_of_val v = and_then (conv_int v) int_value"

definition unpack_three :: "pyval \<Rightarrow> (pyval \<times> pyval \<times> pyval) res" where
  "unpack_three v = and_then (py_seq v) (\<lambda>xs. case xs of [a, b, c] \<Rightarrow> Inr (a, b, c) | _ \<Rightarrow> Inl ValueError)"

definition cell_list :: "(pystr \<Rightarrow> json res) \<Rightarrow> pystr \<Rightarrow> int list list res" where
  "cell_list loads s =
     and_then (loads s) (\<lambda>j. and_then (json_seq j) (map_res (\<lambda>v.
       and_then (unpack_three v) (\<lambda>(ac, ci, sg).
       and_then (int_of_val ac) (\<lambda>a. and_then (int_of_val ci) (\<lambda>c. and_then (int_of_val sg) (\<lambda>g.
         Inr [a, c, g])))))))"

definition ap_list :: "(pystr \<Rightarrow> json res) \<Rightarrow> pystr \<Rightarrow> (pyval \<times> int) list res" where
  "ap_list loads s =
     and_then (loads s) (\<lambda>j. and_then (json_seq j) (map_res (\<lambda>v.
       and_then (unpack_pair v) (\<lambda>(mac, sg). and_then (int_of_val sg) (\<lambda>g. Inr (mac, g))))))"

datatype gm_parm = P_Int int | P_Cells "int list list" | P_Aps "(pyval \<times> int) list"

type_synonym gm_needed = "(pystr \<times> (pystr \<Rightarrow> gm_parm res)) list"

definition gm_needed :: "(pystr \<Rightarrow> json res) \<Rightarrow> gm_needed" where
  "gm_needed loads =
     [(u ''mcc'', \<lambda>v. and_then (py_int v) (\<lambda>i. Inr (P_Int i))),
      (u ''mnc'', \<lambda>v. and_then (py_int v) (\<lambda>i. Inr (P_Int i))),
      (u ''gsm_cells'', \<lambda>v. and_then (cell_list loads v) (\<lambda>c. Inr (P_Cells c))),
      (u ''wifi_aps'', \<lambda>v. and_then (ap_list loads v) (\<lambda>a. Inr (P_Aps a)))]"

text \<open>
  \<open>{k: needed.pop(k)(v) for k, v in ...}\<close>: a name that is not needed, or no longer, is a
  \<open>KeyError\<close>.
\<close>

fun gm_parms :: "gm_needed \<Rightarrow> (pystr \<times> gm_parm) list \<Rightarrow> pystr list list \<Rightarrow>
    (gm_needed \<times> (pystr \<times> gm_parm) list) res" where
  "gm_parms needed parms [] = Inr (needed, parms)"
| "gm_parms needed parms (p # ps) =
     (case p of
        [k, v] \<Rightarrow>
          (case map_of needed k of
             None \<Rightarrow> Inl KeyError
           | Some conv \<Rightarrow> and_then (conv v) (\<lambda>x.
               gm_parms (filter (\<lambda>(k', f). k' \<noteq> k) needed) (parms @ [(k, x)]) ps))
      | _ \<Rightarrow> Inl ValueError)"

section \<open>The program\<close>

definition gm_main :: "(pystr \<Rightarrow> geo_request \<Rightarrow> geo_dict res) \<Rightarrow> (pystr \<Rightarrow> json res) \<Rightarrow> gclient \<Rightarrow>
    pystr list \<Rightarrow> geo_dict res" where
  "gm_main geolocate loads gclient args =
     and_then (gm_parms (gm_needed loads) [] (map (split_on 61) args)) (\<lambda>(needed, parms).
       if needed \<noteq> [] then Inl ValueError
       else
         (case (map_of parms (u ''mcc''), map_of parms (u ''mnc''), map_of parms (u ''gsm_cells''),
             map_of parms (u ''wifi_aps'')) of
            (Some (P_Int mcc), Some (P_Int mnc), Some (P_Cells cells), Some (P_Aps aps)) \<Rightarrow>
              gm_lookup_raw geolocate gclient mcc mnc cells aps
          | _ \<Rightarrow> Inl TypeError))"

text \<open>\<open>conf["googlemaps"]["accesstoken"]\<close> names the file of the key.\<close>

definition gm_token :: "(pystr \<Rightarrow> pystr res) \<Rightarrow> conf_file \<Rightarrow> pystr res" where
  "gm_token read conf =
     (case conf (u ''googlemaps'') of
        None \<Rightarrow> Inl KeyError
      | Some s \<Rightarrow> (case s (u ''accesstoken'') of None \<Rightarrow> Inl KeyError | Some path \<Rightarrow> read path))"

definition gm_program :: "host \<Rightarrow> (pystr \<Rightarrow> pystr res) \<Rightarrow> (pystr \<Rightarrow> geo_request \<Rightarrow> geo_dict res) \<Rightarrow>
    (pystr \<Rightarrow> json res) \<Rightarrow> pystr list \<Rightarrow> geo_dict res" where
  "gm_program h read geolocate loads argv =
     and_then (getopt (drop 1 argv) (u ''c:d'')) (\<lambda>(opts, args).
     and_then (common_init h argv (Some opts)) (\<lambda>st.
       (case gm_init (gm_token read (st_conf st)) None of
          (Inl e, _) \<Rightarrow> Inl e
        | (Inr _, gclient) \<Rightarrow> gm_main geolocate loads gclient args)))"

section \<open>The order of the arguments\<close>

definition gm_conv :: "gm_needed \<Rightarrow> pystr \<times> pystr \<Rightarrow> (pystr \<times> gm_parm) res" where
  "gm_conv needed = (\<lambda>(k, v). case map_of needed k of
     None \<Rightarrow> Inl KeyError | Some conv \<Rightarrow> and_then (conv v) (\<lambda>x. Inr (k, x)))"

lemma gm_conv_fst: "gm_conv needed p = Inr q \<Longrightarrow> fst q = fst p"
  by (cases p) (auto simp: gm_conv_def res_simps split: option.splits)

lemma map_of_removed: "map_of (filter (\<lambda>(k', f). k' \<noteq> k) d) j = (if j = k then None else map_of d j)"
  by (induction d) auto

lemma gm_conv_removed:
  "gm_conv (filter (\<lambda>(k', f). k' \<noteq> k) needed) p = Inr q \<longleftrightarrow> fst p \<noteq> k \<and> gm_conv needed p = Inr q"
  by (cases p) (simp add: gm_conv_def map_of_removed)

lemma map_res_conv_removed:
  "map_res (gm_conv (filter (\<lambda>(k', f). k' \<noteq> k) needed)) kvs = Inr xs \<longleftrightarrow>
    k \<notin> fst ` set kvs \<and> map_res (gm_conv needed) kvs = Inr xs"
  by (induction kvs arbitrary: xs) (auto simp: res_simps gm_conv_removed)

lemma gm_parms_iff:
  "gm_parms needed parms (map (\<lambda>(k, v). [k, v]) kvs) = Inr (rest, ps) \<longleftrightarrow>
    distinct (map fst kvs) \<and> rest = filter (\<lambda>(k, f). k \<notin> fst ` set kvs) needed \<and>
    (\<exists>xs. map_res (gm_conv needed) kvs = Inr xs \<and> ps = parms @ xs)"
proof (induction kvs arbitrary: needed parms)
  case (Cons kv kvs)
  obtain k v where kv: "kv = (k, v)" by (cases kv)
  have f: "filter (\<lambda>(j, f). j \<notin> fst ` set kvs) (filter (\<lambda>(j, f). j \<noteq> k) needed) =
      filter (\<lambda>(j, f). j \<notin> fst ` set (kv # kvs)) needed"
    by (auto simp: kv intro!: filter_cong)
  show ?case
    by (auto simp: kv Cons.IH f [unfolded kv, simplified] gm_conv_def [of needed] res_simps map_res_conv_removed
        split: option.splits)
qed auto

text \<open>Arguments that are accepted are names with values.\<close>

definition pair_list :: "pystr \<times> pystr \<Rightarrow> pystr list" where
  "pair_list = (\<lambda>(k, v). [k, v])"

lemma inj_pair_list: "inj pair_list"
  by (auto simp: inj_def pair_list_def)

lemma gm_parms_pairs: "gm_parms needed parms ps = Inr r \<Longrightarrow> \<exists>kvs. ps = map pair_list kvs"
proof (induction ps arbitrary: needed parms)
  case (Cons p ps)
  then obtain k v where p: "p = [k, v]" by (auto split: list.splits)
  with Cons.prems have "\<exists>needed' parms'. gm_parms needed' parms' ps = Inr r"
    by (cases "map_of needed k") (auto dest!: and_then_Inr [THEN iffD1])
  with Cons.IH obtain kvs where "ps = map pair_list kvs" by blast
  with p have "p # ps = map pair_list ((k, v) # kvs)" by (simp add: pair_list_def)
  then show ?case ..
qed simp

lemma pairs_perm:
  assumes "mset (map f args') = mset (map pair_list kvs)"
  obtains kvs' where "map f args' = map pair_list kvs'" and "mset kvs' = mset kvs"
proof -
  from assms have "set (map f args') \<subseteq> range pair_list" using mset_eq_setD by fastforce
  then have "\<forall>p \<in> set (map f args'). \<exists>x. p = pair_list x" by blast
  then obtain kvs' where kvs': "map f args' = map pair_list kvs'"
    using ex_map_conv [of "map f args'" pair_list] by blast
  with assms have "image_mset pair_list (mset kvs') = image_mset pair_list (mset kvs)" by simp
  then have "mset kvs' = mset kvs" using multiset.inj_map [OF inj_pair_list] by (auto dest: injD)
  with kvs' that show ?thesis by blast
qed

lemma gm_conv_key: "gm_conv needed p = Inr q \<Longrightarrow> fst p \<in> fst ` set needed"
  by (cases p) (auto simp: gm_conv_def split: option.splits dest: map_of_SomeD intro: rev_image_eqI)

lemma map_res_conv_keys: "map_res (gm_conv needed) kvs = Inr xs \<Longrightarrow> fst ` set kvs \<subseteq> fst ` set needed"
  by (induction kvs arbitrary: xs) (auto simp: res_simps dest: gm_conv_key)

lemma map_res_conv_fst: "map_res (gm_conv needed) kvs = Inr xs \<Longrightarrow> map fst xs = map fst kvs"
  by (induction kvs arbitrary: xs) (auto simp: res_simps dest: gm_conv_fst)

lemma map_res_perm:
  assumes "map_res f xs = Inr ys" and "mset xs' = mset xs"
  obtains ys' where "map_res f xs' = Inr ys'" and "mset ys' = mset ys"
proof -
  define g where "g = (\<lambda>x. case f x of Inr y \<Rightarrow> y)"
  have ok: "f x = Inr (g x)" if "x \<in> set xs" for x
    using map_res_Inr_nth [OF assms(1)] that by (auto simp: in_set_conv_nth g_def)
  from map_res_total [of xs f g] ok assms(1) have "ys = map g xs" by simp
  moreover have "map_res f xs' = Inr (map g xs')"
    using map_res_total [of xs' f g] ok mset_eq_setD [OF assms(2)] by simp
  ultimately show ?thesis using that assms(2) by simp
qed

text \<open>
  The program asks for exactly what the arguments say, in whatever order they stand: if it gets an
  answer, each of the four names was given exactly once, and it gets the same one for any other order.
\<close>

theorem gm_main_any_order:
  assumes run: "gm_main geolocate loads g args = Inr d" and perm: "mset args' = mset args"
  shows "gm_main geolocate loads g args' = Inr d"
    and "length args = 4"
proof -
  obtain parms where parms: "gm_parms (gm_needed loads) [] (map (split_on 61) args) = Inr ([], parms)"
    using run by (auto simp: gm_main_def res_simps split: if_splits)
  from gm_parms_pairs [OF this] obtain kvs where kvs: "map (split_on 61) args = map pair_list kvs" ..
  have "mset (map (split_on 61) args') = mset (map pair_list kvs)" using perm by (simp flip: kvs)
  then obtain kvs' where kvs': "map (split_on 61) args' = map pair_list kvs'" "mset kvs' = mset kvs"
    by (rule pairs_perm)
  note iff = gm_parms_iff [folded pair_list_def]
  from parms have d: "distinct (map fst kvs)" "filter (\<lambda>(k, f). k \<notin> fst ` set kvs) (gm_needed loads) = []"
    and x: "map_res (gm_conv (gm_needed loads)) kvs = Inr parms"
    by (auto simp: kvs iff)
  from map_res_perm [OF x kvs'(2)] obtain parms' where
    x': "map_res (gm_conv (gm_needed loads)) kvs' = Inr parms'" "mset parms' = mset parms" .
  have d': "distinct (map fst kvs')" 
    using d(1) mset_eq_imp_distinct_iff [of "map fst kvs'" "map fst kvs"] kvs'(2) by simp
  with d(2) mset_eq_setD [OF kvs'(2)] x'(1)
  have p': "gm_parms (gm_needed loads) [] (map (split_on 61) args') = Inr ([], parms')"
    by (auto simp: kvs' iff)
  have m: "map_of parms' = map_of parms"
    using d(1) d' map_res_conv_fst [OF x] map_res_conv_fst [OF x'(1)] mset_eq_setD [OF x'(2)]
    by (intro map_of_inject_set [THEN iffD2]) simp_all
  have "gm_main geolocate loads g args' = gm_main geolocate loads g args"
    unfolding gm_main_def parms p' and_then.simps prod.case m ..
  with run show "gm_main geolocate loads g args' = Inr d" by simp
  have "fst ` set kvs \<subseteq> set (map fst (gm_needed loads))"
    using map_res_conv_keys [OF x] by auto
  moreover have "set (map fst (gm_needed loads)) \<subseteq> fst ` set kvs" using d(2) by (auto simp: filter_empty_conv)
  ultimately have "set (map fst kvs) = set (map fst (gm_needed loads))" by auto
  then have "length kvs = card (set (map fst (gm_needed loads)))" using distinct_card [OF d(1)] by simp
  also have "\<dots> = 4" by (simp add: gm_needed_def)
  finally show "length args = 4" using kvs by (metis length_map)
qed

end
