(* ===== verification/Opencellid.thy ===== *)
theory Opencellid
  imports Pynum
begin

text \<open>
  The local database of cell towers: the lookup of a position (\<open>loctrkd/opencellid.py\<close>). The tables
  are the lists of their rows; the temporary table \<open>seen\<close> lives as long as the connection. Numbers are
  exact, so sums do not depend on the order of the rows.
\<close>

section \<open>State\<close>

record cell =
  cl_mcc :: int
  cl_net :: int
  cl_area :: int
  cl_cell :: int
  cl_lon :: rat
  cl_lat :: rat

record cell_db =
  cells :: "cell list"
  seen :: "(int \<times> int \<times> int) list"

definition cell_init :: "cell list \<Rightarrow> cell_db" where
  "cell_init rows = \<lparr>cells = rows, seen = []\<rparr>"

section \<open>Lookup\<close>

text \<open>
  \<open>executemany\<close>: a tuple that does not have three elements, or an integer beyond 64 bits, raises; the
  rows before it have been inserted.
\<close>

definition int64 :: "int \<Rightarrow> bool" where
  "int64 i \<longleftrightarrow> - (2 ^ 63) \<le> i \<and> i < 2 ^ 63"

fun insert_seen :: "int list list \<Rightarrow> (int \<times> int \<times> int) list \<Rightarrow> unit res \<times> (int \<times> int \<times> int) list" where
  "insert_seen [] rows = (Inr (), rows)"
| "insert_seen (t # ts) rows =
     (case t of
        [locac, cellid, sig] \<Rightarrow>
          if int64 locac \<and> int64 cellid \<and> int64 sig then insert_seen ts (rows @ [(locac, cellid, sig)])
          else (Inl OverflowError, rows)
      | _ \<Rightarrow> (Inl ProgrammingError, rows))"

definition found :: "int \<Rightarrow> int \<Rightarrow> cell_db \<Rightarrow> (rat \<times> rat \<times> int) list" where
  "found mcc mnc d =
     concat (map (\<lambda>c. map (\<lambda>(_, _, sig). (cl_lat c, cl_lon c, sig))
         (filter (\<lambda>(locac, cellid, _). cl_mcc c = mcc \<and> cl_net c = mnc \<and> cl_area c = locac \<and> cl_cell c = cellid)
           (seen d)))
       (cells d))"

text \<open>The mean of the positions, weighted by the inverse of the signal\<close>

definition weighted :: "(rat \<times> rat \<times> int) list \<Rightarrow> (rat \<times> rat \<times> rat) res" where
  "weighted data =
     (if data = [] then Inl ValueError
      else if \<exists>(_, _, sig) \<in> set data. sig = 0 then Inl ZeroDivisionError
      else
        (let sumsig = sum_list (map (\<lambda>(_, _, sig). 1 / of_int sig) data) in
         if sumsig = 0 then Inl ZeroDivisionError
         else
           (let nsigs = map (\<lambda>(_, _, sig). 1 / of_int sig / sumsig) data in
            Inr (sum_list (map (\<lambda>((lat, _, _), nsig). lat * nsig) (zip data nsigs)),
                 sum_list (map (\<lambda>((_, lon, _), nsig). lon * nsig) (zip data nsigs)), 999 / 10))))"

definition cell_lookup ::
  "int \<Rightarrow> int \<Rightarrow> int list list \<Rightarrow> cell_db \<Rightarrow> (rat \<times> rat \<times> rat) res \<times> cell_db" where
  "cell_lookup mcc mnc gsm_cells d =
     (case insert_seen gsm_cells (seen d) of
        (Inl e, rows) \<Rightarrow> (Inl e, d\<lparr>seen := rows\<rparr>)
      | (Inr _, rows) \<Rightarrow> (weighted (found mcc mnc (d\<lparr>seen := rows\<rparr>)), d\<lparr>seen := []\<rparr>))"

section \<open>Means\<close>

lemma sum_zip_weights: "sum_list (map (\<lambda>((lat, _, _), w). lat * w) (zip data (map f data))) =
    sum_list (map (\<lambda>x. fst x * f x) data)"
  "sum_list (map (\<lambda>((_, lon, _), w). lon * w) (zip data (map f data))) =
    sum_list (map (\<lambda>x. fst (snd x) * f x) data)"
  by (induction data) auto

lemma mean_bounds:
  fixes g w :: "'x \<Rightarrow> rat"
  assumes "\<forall>x \<in> set xs. lo \<le> g x \<and> g x \<le> hi \<and> 0 \<le> w x" and "sum_list (map w xs) = 1"
  shows "lo \<le> sum_list (map (\<lambda>x. g x * w x) xs) \<and> sum_list (map (\<lambda>x. g x * w x) xs) \<le> hi"
proof -
  have "sum_list (map (\<lambda>x. lo * w x) xs) \<le> sum_list (map (\<lambda>x. g x * w x) xs)"
    using assms(1) by (intro sum_list_mono) (auto intro: mult_right_mono)
  moreover have "sum_list (map (\<lambda>x. g x * w x) xs) \<le> sum_list (map (\<lambda>x. hi * w x) xs)"
    using assms(1) by (intro sum_list_mono) (auto intro: mult_right_mono)
  moreover have "sum_list (map (\<lambda>x. c * w x) xs) = c" for c
    using assms(2) by (simp add: sum_list_const_mult)
  ultimately show ?thesis by simp
qed

text \<open>All signals of one sign: the weights are not negative and add up to one.\<close>

definition one_sign :: "(rat \<times> rat \<times> int) list \<Rightarrow> bool" where
  "one_sign data \<longleftrightarrow> (\<forall>(_, _, sig) \<in> set data. sig < 0) \<or> (\<forall>(_, _, sig) \<in> set data. sig > 0)"

lemma sum_list_sign:
  fixes f :: "'x \<Rightarrow> rat"
  shows "xs \<noteq> [] \<Longrightarrow> \<forall>x \<in> set xs. 0 < f x \<Longrightarrow> 0 < sum_list (map f xs)"
    "xs \<noteq> [] \<Longrightarrow> \<forall>x \<in> set xs. f x < 0 \<Longrightarrow> sum_list (map f xs) < 0"
proof (induction xs)
  case (Cons x xs)
  { case 1 then show ?case using Cons(1) by (cases "xs = []") (auto intro: add_pos_pos) }
  { case 2 then show ?case using Cons(2) by (cases "xs = []") (auto intro: add_neg_neg) }
qed simp_all

lemma weights:
  assumes "data \<noteq> []" and "one_sign data"
  defines "s \<equiv> sum_list (map (\<lambda>(_, _, sig). 1 / of_int sig) data) :: rat"
  shows "s \<noteq> 0 \<and> (\<forall>(_, _, sig) \<in> set data. sig \<noteq> 0 \<and> 0 \<le> 1 / of_int sig / s) \<and>
    sum_list (map (\<lambda>(_, _, sig). 1 / of_int sig / s) data) = 1"
proof -
  let ?f = "\<lambda>(_, _, sig). 1 / of_int sig :: rat"
  have "(s > 0 \<and> (\<forall>(_, _, sig) \<in> set data. sig > 0)) \<or> (s < 0 \<and> (\<forall>(_, _, sig) \<in> set data. sig < 0))"
    using assms(2) sum_list_sign [OF assms(1), of ?f] unfolding one_sign_def s_def by fastforce
  moreover have "sig < 0 \<Longrightarrow> s < 0 \<Longrightarrow> 0 \<le> 1 / of_int sig / s" "0 < sig \<Longrightarrow> 0 < s \<Longrightarrow> 0 \<le> 1 / of_int sig / s"
    for sig :: int by (simp_all add: zero_le_divide_iff zero_le_mult_iff)
  ultimately have s: "s \<noteq> 0" and w: "\<forall>(_, _, sig) \<in> set data. sig \<noteq> 0 \<and> 0 \<le> 1 / of_int sig / s"
    by fastforce+
  have "sum_list (map (\<lambda>(_, _, sig). 1 / of_int sig / s) data) = sum_list (map (\<lambda>x. ?f x * (1 / s)) data)"
    by (intro arg_cong [where f = sum_list] map_cong) auto
  also have "\<dots> = s * (1 / s)" unfolding s_def by (rule sum_list_mult_const)
  finally show ?thesis using s w by simp
qed

text \<open>A tower and a signal that a lookup can use: the tower is among the cells the terminal saw.\<close>

definition hit :: "int \<Rightarrow> int \<Rightarrow> int list list \<Rightarrow> cell \<Rightarrow> int \<Rightarrow> bool" where
  "hit mcc mnc gsm_cells c sig \<longleftrightarrow>
     cl_mcc c = mcc \<and> cl_net c = mnc \<and> [cl_area c, cl_cell c, sig] \<in> set gsm_cells"

definition triples :: "int list list \<Rightarrow> bool" where
  "triples ts \<longleftrightarrow> list_all (\<lambda>t. length t = 3 \<and> list_all int64 t) ts"

definition as_row :: "int list \<Rightarrow> int \<times> int \<times> int" where
  "as_row t = (t ! 0, t ! 1, t ! 2)"

lemma length_3: "length t = 3 \<Longrightarrow> \<exists>a b c. t = [a, b, c]"
  by (auto simp: numeral_3_eq_3 length_Suc_conv)

lemma insert_seen_triples: "triples ts \<Longrightarrow> insert_seen (ts @ us) rows = insert_seen us (rows @ map as_row ts)"
proof (induction ts arbitrary: rows)
  case (Cons t ts)
  then obtain a b c where "t = [a, b, c]" by (auto simp: triples_def dest!: length_3)
  with Cons show ?case by (simp add: triples_def as_row_def)
qed simp

lemma lookup_triples:
  assumes "triples ts"
  shows "cell_lookup mcc mnc ts d =
    (weighted (found mcc mnc (d\<lparr>seen := seen d @ map as_row ts\<rparr>)), d\<lparr>seen := []\<rparr>)"
  using insert_seen_triples [OF assms, of "[]"] by (simp add: cell_lookup_def)

lemma as_row_mem: "triples ts \<Longrightarrow> (a, b, c) \<in> as_row ` set ts \<longleftrightarrow> [a, b, c] \<in> set ts"
proof
  assume t: "triples ts" and "(a, b, c) \<in> as_row ` set ts"
  then obtain t where "t \<in> set ts" "as_row t = (a, b, c)" by (metis imageE)
  with t show "[a, b, c] \<in> set ts" by (auto simp: triples_def list_all_iff as_row_def dest!: length_3)
qed (force simp: as_row_def)

lemma set_found:
  assumes "triples ts"
  shows "set (found mcc mnc (d\<lparr>seen := map as_row ts\<rparr>)) =
    {(cl_lat c, cl_lon c, sig) |c sig. c \<in> set (cells d) \<and> hit mcc mnc ts c sig}"
proof -
  have "set (found mcc mnc (d\<lparr>seen := map as_row ts\<rparr>)) =
      {(cl_lat c, cl_lon c, sig) |c sig. c \<in> set (cells d) \<and> cl_mcc c = mcc \<and> cl_net c = mnc \<and>
         (cl_area c, cl_cell c, sig) \<in> as_row ` set ts}"
    by (auto simp: found_def) (force intro!: bexI)+
  then show ?thesis by (simp add: as_row_mem [OF assms] hit_def)
qed

lemma weighted_box:
  assumes "data \<noteq> []" and "one_sign data"
    and "\<forall>(lat, lon, _) \<in> set data. lo \<le> lat \<and> lat \<le> hi \<and> lo' \<le> lon \<and> lon \<le> hi'"
  shows "\<exists>lat lon. weighted data = Inr (lat, lon, 999 / 10) \<and>
    lo \<le> lat \<and> lat \<le> hi \<and> lo' \<le> lon \<and> lon \<le> hi'"
proof -
  let ?s = "sum_list (map (\<lambda>(_, _, sig). 1 / of_int sig) data) :: rat"
  let ?w = "\<lambda>(_, _, sig). 1 / of_int sig / ?s"
  note w = weights [OF assms(1,2)]
  have "lo \<le> sum_list (map (\<lambda>x. fst x * ?w x) data) \<and> sum_list (map (\<lambda>x. fst x * ?w x) data) \<le> hi"
    by (rule mean_bounds) (use w assms(3) in auto)
  moreover have "lo' \<le> sum_list (map (\<lambda>x. fst (snd x) * ?w x) data) \<and>
      sum_list (map (\<lambda>x. fst (snd x) * ?w x) data) \<le> hi'"
    by (rule mean_bounds) (use w assms(3) in auto)
  moreover have "weighted data = Inr (sum_list (map (\<lambda>x. fst x * ?w x) data),
      sum_list (map (\<lambda>x. fst (snd x) * ?w x) data), 999 / 10)"
  proof -
    have "\<not> (\<exists>(_, _, sig) \<in> set data. sig = 0)" "?s \<noteq> 0" using w by auto
    with assms(1) show ?thesis by (simp only: weighted_def Let_def sum_zip_weights if_False)
  qed
  ultimately show ?thesis by blast
qed

section \<open>Properties\<close>

text \<open>
  A lookup whose cells are triples of 64-bit numbers leaves no row behind. When it finds no tower
  of theirs it raises \<open>ValueError\<close>; otherwise, the signals being of one sign, the position lies
  within every box around the towers found, and the accuracy is 99.9.
\<close>

theorem lookup_between:
  assumes "seen d = []" and "triples ts"
    and "cell_lookup mcc mnc ts d = (r, d')"
  defines "towers \<equiv> {(c, sig). c \<in> set (cells d) \<and> hit mcc mnc ts c sig}"
  shows "seen d' = [] \<and> cells d' = cells d \<and> (towers = {} \<longrightarrow> r = Inl ValueError) \<and>
    (towers \<noteq> {} \<and> ((\<forall>(_, sig) \<in> towers. sig < 0) \<or> (\<forall>(_, sig) \<in> towers. sig > 0)) \<and>
     (\<forall>(c, _) \<in> towers. lo \<le> cl_lat c \<and> cl_lat c \<le> hi \<and> lo' \<le> cl_lon c \<and> cl_lon c \<le> hi') \<longrightarrow>
     (\<exists>lat lon. r = Inr (lat, lon, 999 / 10) \<and> lo \<le> lat \<and> lat \<le> hi \<and> lo' \<le> lon \<and> lon \<le> hi'))"
proof -
  let ?data = "found mcc mnc (d\<lparr>seen := map as_row ts\<rparr>)"
  have r: "r = weighted ?data" "d' = d\<lparr>seen := []\<rparr>"
    using assms(1,3) lookup_triples [OF assms(2), of mcc mnc d] by simp_all
  have set: "set ?data = (\<lambda>(c, sig). (cl_lat c, cl_lon c, sig)) ` towers"
    unfolding set_found [OF assms(2)] towers_def by (auto simp: image_iff)
  have "r = Inl ValueError" if "towers = {}"
    using that set r(1) by (simp add: weighted_def)
  moreover have "\<exists>lat lon. r = Inr (lat, lon, 999 / 10) \<and> lo \<le> lat \<and> lat \<le> hi \<and> lo' \<le> lon \<and> lon \<le> hi'"
    if "towers \<noteq> {}" and "(\<forall>(_, sig) \<in> towers. sig < 0) \<or> (\<forall>(_, sig) \<in> towers. sig > 0)"
      and "\<forall>(c, _) \<in> towers. lo \<le> cl_lat c \<and> cl_lat c \<le> hi \<and> lo' \<le> cl_lon c \<and> cl_lon c \<le> hi'"
  proof -
    have "?data \<noteq> []" using that(1) set by auto
    moreover have "one_sign ?data" unfolding one_sign_def set using that(2) by fastforce
    ultimately show ?thesis unfolding r(1) by (rule weighted_box) (use that(3) in \<open>auto simp: set\<close>)
  qed
  ultimately show ?thesis using r(2) by simp
qed

definition ex_cells :: cell_db where
  "ex_cells = cell_init
     [\<lparr>cl_mcc = 262, cl_net = 2, cl_area = 10, cl_cell = 7, cl_lon = 11, cl_lat = 48\<rparr>,
      \<lparr>cl_mcc = 262, cl_net = 2, cl_area = 10, cl_cell = 8, cl_lon = 13, cl_lat = 50\<rparr>]"

theorem lookup_between_witness:
  "\<exists>lat lon. fst (cell_lookup 262 2 [[10, 7, -60], [10, 8, -90], [11, 8, -50]] ex_cells) = Inr (lat, lon, 999 / 10) \<and>
    48 \<le> lat \<and> lat \<le> 50 \<and> 11 \<le> lon \<and> lon \<le> 13"
proof -
  let ?ts = "[[10, 7, -60], [10, 8, -90], [11, 8, -50]] :: int list list"
  obtain r d' where r: "cell_lookup 262 2 ?ts ex_cells = (r, d')" by fastforce
  have t: "triples ?ts" "seen ex_cells = []" by (simp_all add: triples_def int64_def ex_cells_def cell_init_def)
  have towers: "{(c, sig). c \<in> set (cells ex_cells) \<and> hit 262 2 ?ts c sig} =
      {(cells ex_cells ! 0, -60), (cells ex_cells ! 1, -90)}"
    by (auto simp: ex_cells_def cell_init_def hit_def)
  show ?thesis
    using lookup_between [OF t(2,1) r, of 48 50 11 13] r unfolding towers
    by (simp add: ex_cells_def cell_init_def)
qed

text \<open>
  A number beyond 64 bits, as a beesure terminal can send, raises \<open>OverflowError\<close>, and the cells
  before it stay in the table: the next lookup in the same network, whatever terminal it is for,
  finds their towers too, and one without any cells gives the position of the former terminal.
\<close>

theorem cells_left_over:
  assumes "seen d = []" and "triples ts" and "length t = 3" and "\<not> list_all int64 t"
  shows "\<exists>d'. cell_lookup mcc mnc (ts @ t # us) d = (Inl OverflowError, d') \<and>
    fst (cell_lookup mcc' mnc' [] d') = fst (cell_lookup mcc' mnc' ts d) \<and>
    (triples vs \<longrightarrow> fst (cell_lookup mcc' mnc' vs d') = fst (cell_lookup mcc' mnc' (ts @ vs) d))"
proof -
  obtain a b c where t: "t = [a, b, c]" using length_3 [OF assms(3)] by blast
  let ?d = "d\<lparr>seen := map as_row ts\<rparr>"
  have "insert_seen (ts @ t # us) [] = (Inl OverflowError, map as_row ts)"
    using insert_seen_triples [OF assms(2), of "t # us" "[]"] assms(4) by (auto simp: t)
  then have "cell_lookup mcc mnc (ts @ t # us) d = (Inl OverflowError, ?d)"
    using assms(1) by (simp add: cell_lookup_def)
  moreover have "fst (cell_lookup mcc' mnc' vs ?d) = fst (cell_lookup mcc' mnc' (ts @ vs) d)"
    if "triples vs" for vs
  proof -
    have "triples (ts @ vs)" using assms(2) that by (simp add: triples_def)
    from lookup_triples [OF this, of mcc' mnc' d] lookup_triples [OF that, of mcc' mnc' ?d] assms(1)
    show ?thesis by simp
  qed
  moreover have "triples []" by (simp add: triples_def)
  ultimately show ?thesis by fastforce
qed

theorem cells_left_over_witness:
  "\<exists>d'. cell_lookup 262 2 [[10, 7, -60], [10, 2 ^ 63, -90]] ex_cells = (Inl OverflowError, d') \<and>
    fst (cell_lookup 262 2 [] d') = Inr (48, 11, 999 / 10)"
proof -
  have "seen ex_cells = []" "triples [[10, 7, -60]]" "length [10, 2 ^ 63, -90 :: int] = 3"
    "\<not> list_all int64 [10, 2 ^ 63, -90]"
    by (simp_all add: triples_def int64_def ex_cells_def cell_init_def)
  moreover have "fst (cell_lookup 262 2 [[10, 7, -60]] ex_cells) = Inr (48, 11, 999 / 10)"
    by (simp add: cell_lookup_def int64_def ex_cells_def cell_init_def found_def weighted_def)
  ultimately show ?thesis
    using cells_left_over [of ex_cells "[[10, 7, -60]]" "[10, 2 ^ 63, -90]" 262 2 "[]" 262 2] by auto
qed

end
