(* ===== verification/Lookaside.thy ===== *)
theory Lookaside
  imports Googlemaps Opencellid
begin

text \<open>
  The interface between the rectifier and the backend that looks positions up (\<open>QryModule\<close> of
  \<open>loctrkd/rectifier.py\<close>): a lookup of cells that the backend can take leaves it as it was. Then the
  rectifier treats each message as if it were the only one. Both backends implement it, the one with
  the local database for cells whose numbers fit its columns.
\<close>

section \<open>The interface\<close>

definition hint_cells :: "'b rect_env \<Rightarrow> bytes \<Rightarrow> int list list" where
  "hint_cells env msg =
     (case rectified_of env msg of Inr (z, m, HintReport h) \<Rightarrow> hr_gsm_cells h | _ \<Rightarrow> [])"

text \<open>What is done of the messages one by one, up to the first that raises\<close>

fun one_by_one :: "'b rect_env \<Rightarrow> 'b \<Rightarrow> (datetime \<times> bytes) list \<Rightarrow> action list \<times> py_exn option" where
  "one_by_one env s [] = ([], None)"
| "one_by_one env s ((now, msg) # msgs) =
     (case rectify (env\<lparr>re_now := now\<rparr>) msg s of
        Inl e \<Rightarrow> ([], Some e)
      | Inr (acts, _) \<Rightarrow> (case one_by_one env s msgs of (acts', e) \<Rightarrow> (acts @ acts', e)))"

locale lookaside =
  fixes lookup :: "'b lookup" and ready :: "'b \<Rightarrow> bool" and takes :: "int list list \<Rightarrow> bool"
  assumes lookup_restores: "ready s \<Longrightarrow> takes cs \<Longrightarrow> snd (lookup mcc mnc cs aps s) = s"
    and takes_none: "takes []"
begin

lemma rectify_restores:
  assumes "re_lookup env = lookup" and "ready s" and "takes (hint_cells env msg)"
    and "rectify env msg s = Inr (acts, s')"
  shows "s' = s"
proof -
  from assms(4) obtain z m rect where r: "rectified_of env msg = Inr (z, m, rect)"
    "(case rect of HintReport h \<Rightarrow> Inr (answer_hint env z m h s)
      | _ \<Rightarrow> and_then (publish_report env (b_imei z) rect) (\<lambda>b. Inr ([Publish b], s))) = Inr (acts, s')"
    by (auto simp: rectify_def res_simps)
  show ?thesis
  proof (cases rect)
    case (HintReport h)
    with r assms(3) have t: "takes (hr_gsm_cells h)" by (simp add: hint_cells_def)
    obtain x s1 where l: "re_lookup env (hr_mcc h) (hr_mnc h) (hr_gsm_cells h)
        (map (\<lambda>(_, mac, strng). (mac, strng)) (hr_wifi_aps h)) s = (x, s1)" by fastforce
    with lookup_restores [OF assms(2) t] assms(1) have "s1 = s" by (metis snd_conv)
    with l r(2) HintReport show ?thesis by (auto simp: answer_hint_def split: sum.splits)
  qed (use r(2) in \<open>auto simp: res_simps\<close>)
qed

lemma loop_one_by_one:
  assumes "re_lookup env = lookup" and "ready s" and "\<forall>(now, msg) \<in> set msgs. takes (hint_cells env msg)"
  shows "rectifier_loop env msgs s = (case one_by_one env s msgs of (acts, e) \<Rightarrow> (acts, s, e))"
  using assms(3)
proof (induction msgs)
  case (Cons x msgs)
  obtain now msg where x: "x = (now, msg)" by (cases x)
  have c: "hint_cells (env\<lparr>re_now := now\<rparr>) msg = hint_cells env msg"
    by (simp add: hint_cells_def rectified_of_def)
  show ?case
  proof (cases "rectify (env\<lparr>re_now := now\<rparr>) msg s")
    case (Inr y)
    obtain acts s' where y: "y = (acts, s')" by (cases y)
    have "s' = s"
      by (rule rectify_restores [of "env\<lparr>re_now := now\<rparr>" s msg acts]) (use assms Cons.prems Inr y x c in auto)
    with Inr y x Cons show ?thesis by (auto split: prod.splits)
  qed (simp add: x)
qed simp

end

section \<open>The backends\<close>

text \<open>The local database: its exact numbers, as floats\<close>

definition cell_backend :: "cell_db lookup" where
  "cell_backend mcc mnc gsm_cells wifi_aps d =
     (case cell_lookup mcc mnc gsm_cells d of
        (Inl e, d') \<Rightarrow> (Inl e, d')
      | (Inr (lat, lon, acc), d') \<Rightarrow> (Inr (Fin lat, Fin lon, VFloat (Fin acc)), d'))"

lemma cell_backend_restores: "seen d = [] \<Longrightarrow> triples ts \<Longrightarrow> snd (cell_backend mcc mnc ts aps d) = d"
  by (simp add: cell_backend_def lookup_triples split: sum.split)

interpretation opencellid: lookaside cell_backend "\<lambda>d. seen d = []" triples
  by unfold_locales (auto simp: cell_backend_restores, simp add: triples_def)

interpretation googlemaps: lookaside "gm_backend geolocate" "\<lambda>_. True" "\<lambda>_. True"
  by unfold_locales (simp_all add: gm_backend_def)

section \<open>Properties\<close>

text \<open>
  C38: Terminals do not disturb each other's positions. With either backend, over any sequence of
  messages the rectifier does what it would do of each alone with the backend as it was in the
  beginning, up to the first message that ends it, and leaves the backend as it was. (Of the local
  database this needs all cells to be numbers of 64 bits.)
\<close>

theorem hints_independent:
  assumes "re_lookup env = cell_backend" and "seen d = []"
    and "\<forall>(now, msg) \<in> set msgs. triples (hint_cells env msg)"
    and "re_lookup env' = gm_backend geolocate"
  shows "rectifier_loop env msgs d = (case one_by_one env d msgs of (acts, e) \<Rightarrow> (acts, d, e)) \<and>
    rectifier_loop env' msgs gclient = (case one_by_one env' gclient msgs of (acts, e) \<Rightarrow> (acts, gclient, e))"
  using opencellid.loop_one_by_one [OF assms(1-3)] googlemaps.loop_one_by_one [OF assms(4), of msgs gclient] by simp

text \<open>
  C39: A terminal that only sees cell towers is placed among them. With the local database, of a hint
  whose cells are known nothing is sent if none of them is in the table; otherwise, the signals being
  of one sign, the report that is published (and the answer, if one is due) has a position within
  every box around the towers found.
\<close>

theorem position_between_towers:
  assumes "re_lookup env = cell_backend" and "seen d = []" and "triples (hr_gsm_cells h)"
  defines "towers \<equiv> {(c, sig). c \<in> set (cells d) \<and> hit (hr_mcc h) (hr_mnc h) (hr_gsm_cells h) c sig}"
  assumes "towers \<noteq> {} \<Longrightarrow> (\<forall>(_, sig) \<in> towers. sig < 0) \<or> (\<forall>(_, sig) \<in> towers. sig > 0)"
    and "\<forall>(c, _) \<in> towers. lo \<le> cl_lat c \<and> cl_lat c \<le> hi \<and> lo' \<le> cl_lon c \<and> cl_lon c \<le> hi'"
  shows "if towers = {} then answer_hint env z m h d = ([], d)
    else \<exists>lat lon. lo \<le> lat \<and> lat \<le> hi \<and> lo' \<le> lon \<and> lon \<le> hi' \<and>
      answer_hint env z m h d = (position_actions env z m h (Fin lat) (Fin lon) (VFloat (Fin (999 / 10))), d)"
proof -
  obtain r d' where r: "cell_lookup (hr_mcc h) (hr_mnc h) (hr_gsm_cells h) d = (r, d')" by fastforce
  have "d\<lparr>seen := []\<rparr> = d" using assms(2) by (cases d) simp
  with r assms(3) have "d' = d" by (simp add: lookup_triples)
  with r assms(1) have a: "answer_hint env z m h d = (case r of
      Inl e \<Rightarrow> ([], d) | Inr (lat, lon, acc) \<Rightarrow> (position_actions env z m h (Fin lat) (Fin lon) (VFloat (Fin acc)), d))"
    by (simp add: answer_hint_def cell_backend_def split: sum.split)
  note between = lookup_between [OF assms(2,3) r, folded towers_def, of lo hi lo' hi']
  show ?thesis
  proof (cases "towers = {}")
    case True
    with between have "r = Inl ValueError" by blast
    with True show ?thesis by (simp add: a)
  next
    case False
    with between assms(5,6) obtain lat lon where "r = Inr (lat, lon, 999 / 10)"
      "lo \<le> lat" "lat \<le> hi" "lo' \<le> lon" "lon \<le> hi'" by blast
    with False show ?thesis by (simp add: a) blast
  qed
qed

text \<open>
  One terminal can displace another. A Beesure terminal whose message names a cell with a number beyond 64
  bits gets nothing, but the cells before it stay in the database's temporary table: the next terminal
  is placed as if it had seen them, too, and one that saw no cell is reported where the former is.
\<close>

theorem position_of_another_terminal:
  assumes "re_lookup env = cell_backend" and "seen d = []"
    and "hr_gsm_cells h = ts @ t # us" and "triples ts" and "length t = 3" and "\<not> list_all int64 t"
    and "triples (hr_gsm_cells h')"
  shows "\<exists>d'. answer_hint env z m h d = ([], d') \<and>
    fst (answer_hint env z' m' h' d') = fst (answer_hint env z' m' (h'\<lparr>hr_gsm_cells := ts @ hr_gsm_cells h'\<rparr>) d)"
proof -
  let ?cs = "hr_gsm_cells h'"
  obtain d' where d': "cell_lookup (hr_mcc h) (hr_mnc h) (ts @ t # us) d = (Inl OverflowError, d')"
    "fst (cell_lookup (hr_mcc h') (hr_mnc h') ?cs d') = fst (cell_lookup (hr_mcc h') (hr_mnc h') (ts @ ?cs) d)"
    using cells_left_over [OF assms(2,4,5,6), of "hr_mcc h" "hr_mnc h" us "hr_mcc h'" "hr_mnc h'" ?cs] assms(7) by auto
  have f: "fst (answer_hint env z' m' g d1) = (case fst (cell_lookup (hr_mcc g) (hr_mnc g) (hr_gsm_cells g) d1) of
      Inl e \<Rightarrow> [] | Inr (lat, lon, acc) \<Rightarrow> position_actions env z' m' g (Fin lat) (Fin lon) (VFloat (Fin acc)))" for g d1
    by (auto simp: answer_hint_def cell_backend_def assms(1) split: sum.split prod.split)
  have p: "position_actions env z' m' (h'\<lparr>hr_gsm_cells := cs\<rparr>) = position_actions env z' m' h'" for cs
  proof -
    have "position_report (h'\<lparr>hr_gsm_cells := cs\<rparr>) = position_report h'" by (simp add: fun_eq_iff position_report_def)
    then show ?thesis by (simp add: fun_eq_iff position_actions_def cong: sum.case_cong)
  qed
  have "answer_hint env z m h d = ([], d')" using d'(1) by (simp add: answer_hint_def cell_backend_def assms(1,3))
  moreover have "fst (answer_hint env z' m' h' d') =
      fst (answer_hint env z' m' (h'\<lparr>hr_gsm_cells := ts @ ?cs\<rparr>) d)"
    unfolding f p using d'(2) by simp
  ultimately show ?thesis by blast
qed

section \<open>Examples\<close>

definition ex_cell_env :: "cell_db rect_env" where
  "ex_cell_env = \<lparr>re_pmods = [Beesure, Zx303], re_lookup = cell_backend,
     re_dumps = (\<lambda>_. u ''...''), re_fromtimestamp = (\<lambda>_. Inr ()), re_tz = id, re_repr = (\<lambda>_. []),
     re_now = \<lparr>dt_year = 2022, dt_month = 7, dt_day = 1, dt_hour = 12, dt_minute = 0, dt_second = 0\<rparr>\<rparr>"

definition ex_hint :: "int list list \<Rightarrow> hint_report" where
  "ex_hint cs = \<lparr>hr_devtime = [], hr_battery_percentage = None, hr_mcc = 262, hr_mnc = 2,
     hr_gsm_cells = cs, hr_wifi_aps = []\<rparr>"

lemma ex_hint_simps [simp]: "hr_gsm_cells (ex_hint cs) = cs" "hr_mcc (ex_hint cs) = 262" "hr_mnc (ex_hint cs) = 2"
  by (simp_all add: ex_hint_def)

lemma ex_cells_seen: "seen ex_cells = []" and ex_cell_env_lookup: "re_lookup ex_cell_env = cell_backend"
  by (simp_all add: ex_cells_def cell_init_def ex_cell_env_def)

lemma ex_cell_lookup: "fst (cell_lookup 262 2 [[10, 7, -60]] ex_cells) = Inr (48, 11, 999 / 10)"
  by (simp add: cell_lookup_def int64_def ex_cells_def cell_init_def found_def weighted_def)

theorem position_between_towers_witness:
  "\<forall>z m. \<exists>lat lon. 48 \<le> lat \<and> lat \<le> 50 \<and> 11 \<le> lon \<and> lon \<le> 13 \<and>
    answer_hint ex_cell_env z m (ex_hint [[10, 7, -60], [10, 8, -90]]) ex_cells =
      (position_actions ex_cell_env z m (ex_hint [[10, 7, -60], [10, 8, -90]]) (Fin lat) (Fin lon)
        (VFloat (Fin (999 / 10))), ex_cells)"
proof (intro allI)
  fix z m
  let ?ts = "[[10, 7, -60], [10, 8, -90]] :: int list list"
  have t: "triples (hr_gsm_cells (ex_hint ?ts))" by (simp add: triples_def int64_def)
  have towers: "{(c, sig). c \<in> set (cells ex_cells) \<and> hit (hr_mcc (ex_hint ?ts)) (hr_mnc (ex_hint ?ts))
      (hr_gsm_cells (ex_hint ?ts)) c sig} = {(cells ex_cells ! 0, -60), (cells ex_cells ! 1, -90)}"
    by (auto simp: ex_cells_def cell_init_def hit_def)
  show "\<exists>lat lon. 48 \<le> lat \<and> lat \<le> 50 \<and> 11 \<le> lon \<and> lon \<le> 13 \<and>
    answer_hint ex_cell_env z m (ex_hint ?ts) ex_cells =
      (position_actions ex_cell_env z m (ex_hint ?ts) (Fin lat) (Fin lon) (VFloat (Fin (999 / 10))), ex_cells)"
    using position_between_towers [OF ex_cell_env_lookup ex_cells_seen t, of 48 50 11 13 z m]
    unfolding towers by (simp add: ex_cells_def cell_init_def)
qed

theorem position_of_another_terminal_witness:
  "\<forall>z m z' m'. \<exists>d'. answer_hint ex_cell_env z m (ex_hint [[10, 7, -60], [10, 2 ^ 63, -90]]) ex_cells = ([], d') \<and>
    fst (answer_hint ex_cell_env z' m' (ex_hint []) d') =
      position_actions ex_cell_env z' m' (ex_hint [[10, 7, -60]]) (Fin 48) (Fin 11) (VFloat (Fin (999 / 10)))"
proof (intro allI)
  fix z m z' m'
  have c: "hr_gsm_cells (ex_hint [[10, 7, -60], [10, 2 ^ 63, -90]]) = [[10, 7, -60]] @ [10, 2 ^ 63, -90] # []"
    "triples [[10, 7, -60]]" "length [10, 2 ^ 63, -90 :: int] = 3" "\<not> list_all int64 [10, 2 ^ 63, -90]"
    "triples (hr_gsm_cells (ex_hint []))" by (simp_all add: triples_def int64_def)
  have h: "(ex_hint [])\<lparr>hr_gsm_cells := [[10, 7, -60]] @ hr_gsm_cells (ex_hint [])\<rparr> = ex_hint [[10, 7, -60]]"
    by (simp add: ex_hint_def)
  obtain d1 where l: "cell_lookup 262 2 [[10, 7, -60]] ex_cells = (Inr (48, 11, 999 / 10), d1)"
    using ex_cell_lookup by (metis prod.collapse)
  have a: "fst (answer_hint ex_cell_env z' m' (ex_hint [[10, 7, -60]]) ex_cells) =
      position_actions ex_cell_env z' m' (ex_hint [[10, 7, -60]]) (Fin 48) (Fin 11) (VFloat (Fin (999 / 10)))"
    by (simp add: answer_hint_def ex_cell_env_lookup cell_backend_def l)
  from position_of_another_terminal [OF ex_cell_env_lookup ex_cells_seen c, of z m z' m'] show
    "\<exists>d'. answer_hint ex_cell_env z m (ex_hint [[10, 7, -60], [10, 2 ^ 63, -90]]) ex_cells = ([], d') \<and>
      fst (answer_hint ex_cell_env z' m' (ex_hint []) d') =
        position_actions ex_cell_env z' m' (ex_hint [[10, 7, -60]]) (Fin 48) (Fin 11) (VFloat (Fin (999 / 10)))"
    unfolding h a .
qed

definition ex_google_env :: "gclient rect_env" where
  "ex_google_env = \<lparr>re_pmods = [Zx303], re_lookup = gm_backend (\<lambda>key q. Inr (geo_answer (Fin 48) (Fin 11) (Fin 20))),
     re_dumps = (\<lambda>_. u ''...''), re_fromtimestamp = (\<lambda>_. Inr ()), re_tz = id, re_repr = (\<lambda>_. []),
     re_now = ex_now\<rparr>"

lemma ex_wifi_hint:
  assumes "publish_in 0 (Zx303, Some ex_zx_imei, ex_addr, ex_wifi) = Inr msg"
  shows "hint_cells ex_cell_env msg = []"
proof -
  have r: "received_ok (Zx303, Some ex_zx_imei, ex_addr, ex_wifi)"
    by (rule zx_received [OF ex_framable(2)]) (simp_all add: ex_addr_wf ex_wifi_def ex_zx_imei_own)
  have "zx_CLASSES 0x69 = Some WIFI_POSITIONING" by (simp add: zx_CLASSES_PROTO)
  then obtain m w where m: "zx_parse_message id ex_wifi In = Inr m" "zo_class m = WIFI_POSITIONING"
    "zo_body m = Wifi_Body w" "w_gsm_cells w = []"
    by (simp add: ex_wifi_def zx_parse_two zx_decode_def wifi_in_decode_def wifi_devtime_def NUL6_def
        Cons_replicate_eq pyslice_def)
  have z: "bcast_decode msg = Inr (zx_bcast (zx_proto_name WIFI_POSITIONING) (Some ex_zx_imei) 0 ex_addr ex_wifi)"
    by (rule zx_broadcast [OF r assms ex_names(2)])
  have "pmod_for_proto [Beesure, Zx303] (zx_proto_name WIFI_POSITIONING) = Some Zx303"
    by (rule pmod_for_zx_name [OF ex_names(2)]) simp
  with z m show ?thesis
    by (simp add: hint_cells_def rectified_of_def common_parse_message_def ex_cell_env_def zx_rectified_def)
qed

theorem hints_independent_witness:
  "\<exists>msg acts e. publish_in 0 (Zx303, Some ex_zx_imei, ex_addr, ex_wifi) = Inr msg \<and>
    rectifier_loop ex_cell_env [(ex_now, msg), (ex_now, msg)] ex_cells = (acts, ex_cells, e) \<and>
    one_by_one ex_cell_env ex_cells [(ex_now, msg), (ex_now, msg)] = (acts, e)"
proof -
  have r: "received_ok (Zx303, Some ex_zx_imei, ex_addr, ex_wifi)"
    by (rule zx_received [OF ex_framable(2)]) (simp_all add: ex_addr_wf ex_wifi_def ex_zx_imei_own)
  obtain msg where msg: "publish_in 0 (Zx303, Some ex_zx_imei, ex_addr, ex_wifi) = Inr msg"
    using zx_published [OF r] by (auto simp: ex_wifi_def)
  let ?msgs = "[(ex_now, msg), (ex_now, msg)]"
  have "\<forall>(now, msg) \<in> set ?msgs. triples (hint_cells ex_cell_env msg)"
    using ex_wifi_hint [OF msg] by (simp add: triples_def)
  from hints_independent [OF ex_cell_env_lookup ex_cells_seen this, of ex_google_env _ None]
  have "rectifier_loop ex_cell_env ?msgs ex_cells =
      (case one_by_one ex_cell_env ex_cells ?msgs of (acts, e) \<Rightarrow> (acts, ex_cells, e))"
    by (simp add: ex_google_env_def)
  with msg show ?thesis by (cases "one_by_one ex_cell_env ex_cells ?msgs") auto
qed

end
