(* ===== verification/Ocid_dload.thy ===== *)
theory Ocid_dload
  imports Pynum "HOL-Library.Sublist"
begin

text \<open>
  Refreshing the table of cell towers (\<open>loctrkd/ocid_dload.py\<close>): the file-like object that unzips the
  body of a response and splits it into lines, and the program around it. The decompressor of \<open>zlib\<close>
  is a parameter: its states are a type variable. What \<open>read\<close> of the body returns is the list of its
  chunks, after which it returns the empty one, as it does at the end of the body.
\<close>

section \<open>Unzipping\<close>

type_synonym 'd decompress = "'d \<Rightarrow> bytes \<Rightarrow> (bytes \<times> 'd) res"

record 'd unzipped =
  uz_raw :: "bytes list"
  uz_decoder :: "'d option"
  uz_outdata :: bytes
  uz_line :: bytes

definition uz_new :: "'d \<Rightarrow> bytes list \<Rightarrow> 'd unzipped" where
  "uz_new d raw = \<lparr>uz_raw = raw, uz_decoder = Some d, uz_outdata = [], uz_line = []\<rparr>"

text \<open>The loop of \<open>read\<close>: what is left of the body, the decoder unless it has ended, and the data\<close>

fun uz_fill :: "'d decompress \<Rightarrow> nat \<Rightarrow> bytes list \<Rightarrow> 'd \<Rightarrow> bytes \<Rightarrow> (bytes list \<times> 'd option \<times> bytes) res" where
  "uz_fill dec n [] d outdata =
     (if n \<le> length outdata then Inr ([], Some d, outdata)
      else and_then (dec d []) (\<lambda>(b, d'). Inr ([], None, outdata @ b)))"
| "uz_fill dec n (raw # raws) d outdata =
     (if n \<le> length outdata then Inr (raw # raws, Some d, outdata)
      else and_then (dec d raw) (\<lambda>(b, d').
        if raw = [] then Inr (raws, None, outdata @ b) else uz_fill dec n raws d' (outdata @ b)))"

definition uz_read :: "'d decompress \<Rightarrow> nat \<Rightarrow> 'd unzipped \<Rightarrow> (bytes \<times> 'd unzipped) res" where
  "uz_read dec n s =
     (case uz_decoder s of
        None \<Rightarrow> Inr ([], s)
      | Some d \<Rightarrow>
          and_then (uz_fill dec n (uz_raw s) d (uz_outdata s)) (\<lambda>(raws, d', outdata).
            Inr (take n outdata, s\<lparr>uz_raw := raws, uz_decoder := d', uz_outdata := drop n outdata\<rparr>)))"

text \<open>What is left to do: chunks, the decoder to be ended, and data to be given out\<close>

definition uz_todo :: "'d unzipped \<Rightarrow> nat" where
  "uz_todo s = length (uz_raw s) + (if uz_decoder s = None then 0 else 1)"

lemma uz_fill_todo:
  "uz_fill dec n raws d outdata = Inr (raws', d', outdata') \<Longrightarrow>
    length raws' + (if d' = None then 0 else 1) < length raws + 1 \<or>
    (raws' = raws \<and> d' \<noteq> None \<and> outdata' = outdata)"
proof (induction raws arbitrary: d outdata)
  case (Cons raw raws)
  show ?case
  proof (cases "n \<le> length outdata \<or> raw = []")
    case True
    with Cons.prems show ?thesis by (auto simp: res_simps split: if_splits)
  next
    case False
    with Cons.prems obtain b d1 where "uz_fill dec n raws d1 (outdata @ b) = Inr (raws', d', outdata')"
      by (auto simp: res_simps)
    from Cons.IH [OF this] show ?thesis by auto
  qed
qed (auto simp: res_simps split: if_splits)

lemma uz_read_decreases:
  assumes "uz_read dec n s = Inr (moredata, s')" and "moredata \<noteq> []"
  shows "uz_line s' = uz_line s \<and>
    (uz_todo s' < uz_todo s \<or> (uz_todo s' = uz_todo s \<and> length (uz_outdata s') < length (uz_outdata s)))"
proof -
  from assms obtain d raws d' out where s: "uz_decoder s = Some d"
    "uz_fill dec n (uz_raw s) d (uz_outdata s) = Inr (raws, d', out)" "moredata = take n out"
    "s' = s\<lparr>uz_raw := raws, uz_decoder := d', uz_outdata := drop n out\<rparr>"
    by (auto simp: uz_read_def res_simps split: option.splits)
  from uz_fill_todo [OF s(2)] s(1,3,4) assms(2) show ?thesis by (auto simp: uz_todo_def)
qed

function uz_next :: "'d decompress \<Rightarrow> 'd unzipped \<Rightarrow> (pystr option \<times> 'd unzipped) res" where
  "uz_next dec s =
     (if 1 < length (split_once 10 (uz_line s)) then
        and_then (utf8_decode (split_once 10 (uz_line s) ! 0)) (\<lambda>t.
          Inr (Some t, s\<lparr>uz_line := split_once 10 (uz_line s) ! 1\<rparr>))
      else
        (case uz_read dec 256 s of
           Inl e \<Rightarrow> Inl e
         | Inr (moredata, s') \<Rightarrow>
             if moredata = [] then Inr (None, s')
             else uz_next dec (s'\<lparr>uz_line := uz_line s' @ moredata\<rparr>)))"
  by pat_completeness auto
termination
  by (relation "measures [\<lambda>(dec, s). uz_todo s, \<lambda>(dec, s). length (uz_outdata s)]")
    (auto dest!: uz_read_decreases simp: uz_todo_def)

declare uz_next.simps [simp del]

lemma uz_read_line: "uz_read dec n s = Inr (moredata, s') \<Longrightarrow> uz_line s' = uz_line s \<and> uz_todo s' \<le> uz_todo s \<and>
    (uz_todo s' = uz_todo s \<longrightarrow> length (uz_outdata s') \<le> length (uz_outdata s))"
  by (auto simp: uz_read_def uz_todo_def res_simps split: option.splits dest!: uz_fill_todo)

definition uz_less :: "'d unzipped \<Rightarrow> 'd unzipped \<Rightarrow> bool" where
  "uz_less s' s \<longleftrightarrow> (s', s) \<in> measures [uz_todo, \<lambda>s. length (uz_outdata s), \<lambda>s. length (uz_line s)]"

lemma uz_next_line: "uz_line s = l @ 10 # r \<Longrightarrow> 10 \<notin> set l \<Longrightarrow>
    uz_next dec s = and_then (utf8_decode l) (\<lambda>t. Inr (Some t, s\<lparr>uz_line := r\<rparr>))"
  by (simp add: uz_next.simps [of dec s] split_once_append)

lemma uz_next_read: "10 \<notin> set (uz_line s) \<Longrightarrow> uz_next dec s =
    (case uz_read dec 256 s of
       Inl e \<Rightarrow> Inl e
     | Inr (moredata, s') \<Rightarrow>
         if moredata = [] then Inr (None, s') else uz_next dec (s'\<lparr>uz_line := uz_line s' @ moredata\<rparr>))"
  by (subst uz_next.simps) (simp add: split_once_no_sep)

lemma uz_next_decreases: "uz_next dec s = Inr (Some t, s') \<Longrightarrow> uz_less s' s"
proof (induction dec s rule: uz_next.induct)
  case (1 dec s)
  from split_once_cases [of 10 "uz_line s"] show ?case
  proof (elim disjE conjE exE)
    fix l r assume l: "uz_line s = l @ 10 # r" "10 \<notin> set l"
    from uz_next_line [OF l] "1.prems" have "s' = s\<lparr>uz_line := r\<rparr>" by (auto simp: res_simps)
    then show ?thesis by (simp add: uz_less_def uz_todo_def l(1))
  next
    assume no: "10 \<notin> set (uz_line s)" and sp: "split_once 10 (uz_line s) = [uz_line s]"
    from uz_next_read [OF no] "1.prems" obtain moredata s1 where
      r: "uz_read dec 256 s = Inr (moredata, s1)" "moredata \<noteq> []"
      by (auto split: sum.splits if_splits)
    let ?s = "s1\<lparr>uz_line := uz_line s1 @ moredata\<rparr>"
    from uz_next_read [OF no] r "1.prems" have "uz_next dec ?s = Inr (Some t, s')" by simp
    with "1.IH" [OF _ r(1) refl r(2)] sp have "uz_less s' ?s" by simp
    with uz_read_decreases [OF r] show ?thesis by (auto simp: uz_less_def uz_todo_def)
  qed
qed

text \<open>All that the iteration yields, and what it raises in the end, if it does\<close>

type_synonym 'a yielded = "'a list \<times> py_exn option"

function uz_lines :: "'d decompress \<Rightarrow> 'd unzipped \<Rightarrow> pystr yielded" where
  "uz_lines dec s =
     (case uz_next dec s of
        Inl e \<Rightarrow> ([], Some e)
      | Inr (None, s') \<Rightarrow> ([], None)
      | Inr (Some t, s') \<Rightarrow> (case uz_lines dec s' of (ts, e) \<Rightarrow> (t # ts, e)))"
  by pat_completeness auto
termination
  by (relation "measures [\<lambda>(dec, s). uz_todo s, \<lambda>(dec, s). length (uz_outdata s), \<lambda>(dec, s). length (uz_line s)]")
    (auto dest!: uz_next_decreases simp: uz_less_def)

declare uz_lines.simps [simp del]

section \<open>The program\<close>

text \<open>
  The options of the section \<open>opencellid\<close>, the text of the token file unless there is none, and
  what the server answers: a status and the chunks of the body. The CSV reader makes rows of lines as
  it gets them; what the iteration raises it passes on.
\<close>

record 'd oc_env =
  oc_conf :: "pystr \<rightharpoonup> pystr"
  oc_token :: "pystr option res"
  oc_get :: "pystr \<Rightarrow> (int \<times> bytes list) res"
  oc_decompress :: "'d decompress"
  oc_decoder :: 'd
  oc_csv :: "pystr yielded \<Rightarrow> pystr list yielded"

definition oc_option :: "'d oc_env \<Rightarrow> pystr \<Rightarrow> pystr res" where
  "oc_option env k = (case oc_conf env k of None \<Rightarrow> Inl NoOptionError | Some v \<Rightarrow> Inr v)"

definition RURL :: "pystr \<Rightarrow> pystr \<Rightarrow> pystr \<Rightarrow> pystr" where
  "RURL token dltype fname =
     u ''https://opencellid.org/ocid/downloads'' @ u ''?token='' @ token @ u ''&type='' @ dltype @
     u ''&file='' @ fname @ u ''.csv.gz''"

text \<open>\<open>None\<close> when there is no token. The type and name computed from the option are not used.\<close>

definition oc_url :: "'d oc_env \<Rightarrow> pystr option res" where
  "oc_url env =
     (case oc_option env (u ''downloadurl'') of
        Inr url \<Rightarrow> Inr (Some url)
      | Inl e \<Rightarrow>
          and_then (oc_option env (u ''downloadtoken'')) (\<lambda>_.
          and_then (oc_token env) (\<lambda>fl.
            case fl of
              None \<Rightarrow> Inr None
            | Some txt \<Rightarrow>
                (let token = strip_space txt in
                 and_then (oc_option env (u ''downloadmcc'')) (\<lambda>mcc.
                   let (dltype, fname) = (if mcc = u ''full'' then (u ''full'', u ''cell_towers'') else (u ''mcc'', mcc))
                   in Inr (Some (RURL token (u ''mcc'') mcc)))))))"

text \<open>The table, unless it is missing, as the fields of its rows\<close>

type_synonym cell_table = "pystr list list option"

definition insert_row :: "pystr list \<Rightarrow> pystr list list \<Rightarrow> pystr list list res" where
  "insert_row row rows = (if length row \<noteq> 14 then Inl ProgrammingError else Inr (rows @ [row]))"

text \<open>
  The transaction: the new content, or what was raised, or neither when there was no row. Lines that
  cannot be decoded or decompressed raise while the rows are inserted, as do rows of another length.
\<close>

definition new_cells :: "'d oc_env \<Rightarrow> bytes list \<Rightarrow> pystr list list res" where
  "new_cells env body =
     (case oc_csv env (uz_lines (oc_decompress env) (uz_new (oc_decoder env) body)) of
        (rows, raised) \<Rightarrow>
          and_then (fold_res insert_row rows []) (\<lambda>cells.
            case raised of None \<Rightarrow> Inr cells | Some e \<Rightarrow> Inl e))"

definition oc_main :: "'d oc_env \<Rightarrow> cell_table \<Rightarrow> unit res \<times> cell_table" where
  "oc_main env table =
     (case oc_url env of
        Inl e \<Rightarrow> (Inl e, table)
      | Inr None \<Rightarrow> (Inr (), table)
      | Inr (Some url) \<Rightarrow>
          (case oc_option env (u ''dbfn'') of
             Inl e \<Rightarrow> (Inl e, table)
           | Inr dbfn \<Rightarrow>
               (case oc_get env url of
                  Inl e \<Rightarrow> (Inl e, table)
                | Inr (status, body) \<Rightarrow>
                    if status \<noteq> 200 then (Inr (), table)
                    else
                      (let old = (case table of None \<Rightarrow> [] | Some rows \<Rightarrow> rows) in
                       case new_cells env body of
                         Inl e \<Rightarrow> (Inl e, Some old)
                       | Inr rows \<Rightarrow> (Inr (), Some (if rows = [] then old else rows))))))"

section \<open>The iteration yields the lines\<close>

text \<open>The whole of the decompressed data\<close>

fun inflate :: "'d decompress \<Rightarrow> 'd \<Rightarrow> bytes list \<Rightarrow> bytes res" where
  "inflate dec d [] = and_then (dec d []) (\<lambda>(b, d'). Inr b)"
| "inflate dec d (raw # raws) =
     and_then (dec d raw) (\<lambda>(b, d'). and_then (inflate dec d' raws) (\<lambda>bs. Inr (b @ bs)))"

definition uz_content :: "'d decompress \<Rightarrow> 'd unzipped \<Rightarrow> bytes res" where
  "uz_content dec s =
     (case uz_decoder s of
        None \<Rightarrow> Inr []
      | Some d \<Rightarrow> and_then (inflate dec d (uz_raw s)) (\<lambda>bs. Inr (uz_outdata s @ bs)))"

definition uz_inv :: "'d unzipped \<Rightarrow> bool" where
  "uz_inv s \<longleftrightarrow> [] \<notin> set (uz_raw s) \<and> (uz_decoder s = None \<longrightarrow> uz_outdata s = [])"

text \<open>Documented of \<open>zlib\<close>: all output is returned at once, so that no input gives no output.\<close>

definition prompt :: "'d decompress \<Rightarrow> bool" where
  "prompt dec \<longleftrightarrow> (\<forall>d b d'. dec d [] = Inr (b, d') \<longrightarrow> b = [])"

lemma uz_line_update [simp]:
  "uz_inv (s\<lparr>uz_line := l\<rparr>) = uz_inv s" "uz_content dec (s\<lparr>uz_line := l\<rparr>) = uz_content dec s"
  by (simp_all add: uz_inv_def uz_content_def split: option.split)

lemma uz_fill_content:
  assumes "prompt dec" and "[] \<notin> set raws" and "inflate dec d raws = Inr bs"
  shows "\<exists>raws' d' out'. uz_fill dec n raws d out = Inr (raws', d', out') \<and> [] \<notin> set raws' \<and>
    (case d' of
       None \<Rightarrow> out' = out @ bs \<and> length out' < n
     | Some d1 \<Rightarrow> n \<le> length out' \<and> (\<exists>bs'. inflate dec d1 raws' = Inr bs' \<and> out' @ bs' = out @ bs))"
  using assms(2,3)
proof (induction raws arbitrary: d out bs)
  case Nil
  then obtain d' where "dec d [] = Inr (bs, d')" "bs = []"
    using assms(1) by (auto simp: prompt_def res_simps)
  then show ?case by auto
next
  case (Cons raw raws)
  show ?case
  proof (cases "n \<le> length out")
    case True
    with Cons.prems show ?thesis by (intro exI [of _ "raw # raws"] exI [of _ "Some d"] exI [of _ out]) simp
  next
    case False
    from Cons.prems(2) obtain b d1 bs1 where 1: "dec d raw = Inr (b, d1)" "inflate dec d1 raws = Inr bs1" "bs = b @ bs1"
      by (auto simp: res_simps)
    have "[] \<notin> set raws" "raw \<noteq> []" using Cons.prems(1) by auto
    note ih = Cons.IH [OF this(1) 1(2), of "out @ b"]
    have e: "(out @ b) @ bs1 = out @ bs" by (simp add: 1(3))
    have "uz_fill dec n (raw # raws) d out = uz_fill dec n raws d1 (out @ b)"
      using False 1(1) \<open>raw \<noteq> []\<close> by simp
    with ih show ?thesis unfolding e by simp
  qed
qed

lemma uz_read_content:
  assumes "prompt dec" and "uz_inv s" and "uz_content dec s = Inr bs" and "0 < n"
  shows "\<exists>moredata s' bs'. uz_read dec n s = Inr (moredata, s') \<and> uz_inv s' \<and> uz_line s' = uz_line s \<and>
    uz_content dec s' = Inr bs' \<and> moredata @ bs' = bs \<and> (moredata = [] \<longrightarrow> bs = [])"
proof (cases "uz_decoder s")
  case None
  with assms show ?thesis by (auto simp: uz_read_def uz_content_def)
next
  case (Some d)
  with assms(3) obtain b where b: "inflate dec d (uz_raw s) = Inr b" "bs = uz_outdata s @ b"
    by (auto simp: uz_content_def res_simps)
  have "[] \<notin> set (uz_raw s)" using assms(2) by (simp add: uz_inv_def)
  from uz_fill_content [OF assms(1) this b(1), of n "uz_outdata s"] obtain raws d' out where
    f: "uz_fill dec n (uz_raw s) d (uz_outdata s) = Inr (raws, d', out)" "[] \<notin> set raws"
      "case d' of None \<Rightarrow> out = bs \<and> length out < n
       | Some d1 \<Rightarrow> n \<le> length out \<and> (\<exists>bs'. inflate dec d1 raws = Inr bs' \<and> out @ bs' = bs)"
    unfolding b(2) by blast
  show ?thesis
  proof (cases d')
    case None
    with f Some show ?thesis by (auto simp: uz_read_def uz_inv_def uz_content_def)
  next
    case (Some d1)
    with f(3) obtain bs' where bs': "n \<le> length out" "inflate dec d1 raws = Inr bs'" "out @ bs' = bs" by auto
    from bs'(1) assms(4) have "take n out \<noteq> []" by auto
    moreover have "take n out @ drop n out @ bs' = bs" using bs'(3) by (simp flip: append_assoc)
    ultimately show ?thesis
      using f(1,2) bs'(2) Some \<open>uz_decoder s = Some d\<close> by (simp add: uz_read_def uz_inv_def uz_content_def)
  qed
qed

lemma uz_next_spec:
  assumes "prompt dec" and "uz_inv s" and "uz_content dec s = Inr bs"
  shows "(10 \<notin> set (uz_line s @ bs) \<longrightarrow> (\<exists>s'. uz_next dec s = Inr (None, s'))) \<and>
    (\<forall>l r. uz_line s @ bs = l @ 10 # r \<longrightarrow> 10 \<notin> set l \<longrightarrow>
      (\<exists>s' bs'. uz_next dec s = and_then (utf8_decode l) (\<lambda>t. Inr (Some t, s')) \<and> uz_inv s' \<and>
         uz_content dec s' = Inr bs' \<and> uz_line s' @ bs' = r))"
  using assms
proof (induction dec s arbitrary: bs rule: uz_next.induct)
  case (1 dec s)
  from split_once_cases [of 10 "uz_line s"] show ?case
  proof (elim disjE conjE exE)
    fix l r assume l: "uz_line s = l @ 10 # r" "10 \<notin> set l"
    have "l' = l \<and> r' = r @ bs" if "uz_line s @ bs = l' @ 10 # r'" "10 \<notin> set l'" for l' r'
      using that l by (auto simp: append_eq_append_conv2 Cons_eq_append_conv append_eq_Cons_conv)
    moreover have "uz_inv (s\<lparr>uz_line := r\<rparr>)" "uz_content dec (s\<lparr>uz_line := r\<rparr>) = Inr bs"
      using "1.prems" by simp_all
    ultimately show ?thesis
      using uz_next_line [OF l, of dec] l(1)
      by (intro conjI allI impI exI [of _ "s\<lparr>uz_line := r\<rparr>"] exI [of _ bs]) auto
  next
    assume no: "10 \<notin> set (uz_line s)" and sp: "split_once 10 (uz_line s) = [uz_line s]"
    from uz_read_content [OF "1.prems", of 256] obtain moredata s1 bs1 where
      r: "uz_read dec 256 s = Inr (moredata, s1)" "uz_inv s1" "uz_line s1 = uz_line s"
        "uz_content dec s1 = Inr bs1" "moredata @ bs1 = bs" "moredata = [] \<longrightarrow> bs = []" by auto
    show ?thesis
    proof (cases "moredata = []")
      case True
      with r uz_next_read [OF no, of dec] no show ?thesis by auto
    next
      case False
      let ?s = "s1\<lparr>uz_line := uz_line s1 @ moredata\<rparr>"
      have "uz_inv ?s" "uz_content dec ?s = Inr bs1" using r by simp_all
      from "1.IH" [OF _ r(1) refl False "1.prems"(1) this] sp
      have "(10 \<notin> set (uz_line ?s @ bs1) \<longrightarrow> (\<exists>s'. uz_next dec ?s = Inr (None, s'))) \<and>
        (\<forall>l r. uz_line ?s @ bs1 = l @ 10 # r \<longrightarrow> 10 \<notin> set l \<longrightarrow>
          (\<exists>s' bs'. uz_next dec ?s = and_then (utf8_decode l) (\<lambda>t. Inr (Some t, s')) \<and> uz_inv s' \<and>
             uz_content dec s' = Inr bs' \<and> uz_line s' @ bs' = r))" by simp
      moreover have "uz_line ?s @ bs1 = uz_line s @ bs" using r(3,5) by simp
      moreover have "uz_next dec s = uz_next dec ?s" using uz_next_read [OF no, of dec] r(1) False by simp
      ultimately show ?thesis by (simp only:)
    qed
  qed
qed

text \<open>What decoding one by one yields\<close>

fun decoded :: "bytes list \<Rightarrow> pystr yielded" where
  "decoded [] = ([], None)"
| "decoded (l # ls) =
     (case utf8_decode l of
        Inl e \<Rightarrow> ([], Some e)
      | Inr t \<Rightarrow> (case decoded ls of (ts, e) \<Rightarrow> (t # ts, e)))"

lemma uz_lines_spec:
  assumes "prompt dec" and "uz_inv s" and "uz_content dec s = Inr bs"
  shows "uz_lines dec s = decoded (butlast (split_on 10 (uz_line s @ bs)))"
  using assms
proof (induction dec s arbitrary: bs rule: uz_lines.induct)
  case (1 dec s)
  note n = uz_next_spec [OF "1.prems"]
  show ?case
  proof (cases "10 \<in> set (uz_line s @ bs)")
    case False
    with n obtain s' where "uz_next dec s = Inr (None, s')" by blast
    with False show ?thesis by (simp add: uz_lines.simps [of dec s] split_on_no_sep)
  next
    case True
    then obtain l r where l: "uz_line s @ bs = l @ 10 # r" "10 \<notin> set l" using split_list_first by fast
    with n obtain s' bs' where s': "uz_next dec s = and_then (utf8_decode l) (\<lambda>t. Inr (Some t, s'))" "uz_inv s'"
      "uz_content dec s' = Inr bs'" "uz_line s' @ bs' = r" by blast
    have sp: "butlast (split_on 10 (uz_line s @ bs)) = l # butlast (split_on 10 r)"
      unfolding l(1) using split_on_append [OF l(2)] by simp
    show ?thesis
    proof (cases "utf8_decode l")
      case (Inl e)
      with s'(1) sp show ?thesis by (simp add: uz_lines.simps [of dec s])
    next
      case (Inr t)
      with s'(1) have nx: "uz_next dec s = Inr (Some t, s')" by simp
      from "1.IH" [OF nx _ _ "1.prems"(1) s'(2,3)] have "uz_lines dec s' = decoded (butlast (split_on 10 r))"
        using s'(4) by simp
      with nx Inr sp show ?thesis by (simp add: uz_lines.simps [of dec s])
    qed
  qed
qed

lemma fold_insert_row:
  "fold_res insert_row rows cs = Inr cells \<Longrightarrow> cells = cs @ rows \<and> (\<forall>row \<in> set rows. length row = 14)"
proof (induction rows arbitrary: cs)
  case (Cons row rows)
  then have "length row = 14" "fold_res insert_row rows (cs @ [row]) = Inr cells"
    by (cases "length row = 14"; simp add: insert_row_def [of row cs])+
  with Cons.IH [OF this(2)] show ?case by simp
qed simp

lemma new_cells_rows:
  assumes "new_cells env body = Inr cells"
  shows "oc_csv env (uz_lines (oc_decompress env) (uz_new (oc_decoder env) body)) = (cells, None) \<and>
    (\<forall>row \<in> set cells. length row = 14)"
  using assms by (auto simp: new_cells_def res_simps split: prod.splits option.splits dest!: fold_insert_row)

section \<open>Properties\<close>

text \<open>
  C35: iterating over an unzipped body ends and yields, decoded, the lines of the decompressed data,
  wherever the body was cut into chunks; a last line that no newline ends is not among them. It stops
  early only at a line that is no UTF-8.
\<close>

theorem unzipped_lines:
  assumes "prompt dec" and "[] \<notin> set raws" and "inflate dec d raws = Inr bs"
  shows "uz_lines dec (uz_new d raws) = decoded (butlast (split_on 10 bs))"
  using uz_lines_spec [of dec "uz_new d raws" bs] assms by (simp add: uz_new_def uz_inv_def uz_content_def)

definition plain :: "nat decompress" where
  "plain d b = Inr (b, d)"

theorem unzipped_lines_witness:
  "uz_lines plain (uz_new 0 [[97, 98], [10, 99], [100, 10, 101]]) = ([u ''ab'', u ''cd''], None)"
proof -
  have "uz_lines plain (uz_new 0 [[97, 98], [10, 99], [100, 10, 101]]) =
      decoded (butlast (split_on 10 [97, 98, 10, 99, 100, 10, 101]))"
    by (rule unzipped_lines) (simp_all add: prompt_def plain_def)
  also have "\<dots> = ([u ''ab'', u ''cd''], None)"
    by (simp add: utf8_decode.simps(2) consr_def)
  finally show ?thesis .
qed

text \<open>
  refreshing replaces the table at once or not at all. When the program ends the table is missing
  as before, or has its old rows, or has exactly the rows that the CSV reader made of the downloaded
  lines: these are some, each has its 14 fields, and nothing was raised. An exception leaves the old
  rows.
\<close>

theorem refresh_all_or_nothing:
  assumes "oc_main env table = (result, table')"
  shows "table' = table \<or> table' = Some (case table of None \<Rightarrow> [] | Some rows \<Rightarrow> rows) \<or>
    (\<exists>url body rows. result = Inr () \<and> table' = Some rows \<and> rows \<noteq> [] \<and>
      oc_url env = Inr (Some url) \<and> oc_get env url = Inr (200, body) \<and>
      oc_csv env (uz_lines (oc_decompress env) (uz_new (oc_decoder env) body)) = (rows, None) \<and>
      (\<forall>row \<in> set rows. length row = 14))"
  using assms
  by (auto simp: oc_main_def Let_def split: sum.splits option.splits prod.splits if_splits dest!: new_cells_rows)

lemma plain_lines:
  "[] \<notin> set raws \<Longrightarrow> uz_lines plain (uz_new 0 raws) = decoded (butlast (split_on 10 (concat raws)))"
proof -
  assume "[] \<notin> set raws"
  moreover have "inflate plain 0 raws = Inr (concat raws)" by (induction raws) (simp_all add: plain_def)
  ultimately show ?thesis
    using uz_lines_spec [of plain "uz_new 0 raws" "concat raws"]
    by (simp add: uz_new_def uz_inv_def uz_content_def prompt_def plain_def)
qed

definition plain_env :: "nat oc_env" where
  "plain_env =
     \<lparr>oc_conf = [u ''downloadurl'' \<mapsto> u ''http://x'', u ''dbfn'' \<mapsto> u ''cells''], oc_token = Inr None,
      oc_get = (\<lambda>url. Inr (200, [[65, 44, 44, 44, 44, 44, 44], [44, 44, 44, 44, 44, 44, 44, 10]])),
      oc_decompress = plain, oc_decoder = 0, oc_csv = (\<lambda>(ls, e). (map (split_on 44) ls, e))\<rparr>"

theorem refresh_all_or_nothing_witness:
  "\<exists>row. oc_main plain_env None = (Inr (), Some [row]) \<and> length row = 14"
proof -
  have "uz_lines plain (uz_new 0 [[65, 44, 44, 44, 44, 44, 44], [44, 44, 44, 44, 44, 44, 44, 10]]) =
      ([u ''A,,,,,,,,,,,,,''], None)"
    by (subst plain_lines) (simp_all add: utf8_decode.simps(2) consr_def)
  then have "new_cells plain_env [[65, 44, 44, 44, 44, 44, 44], [44, 44, 44, 44, 44, 44, 44, 10]] =
      Inr [u ''A'' # replicate 13 []]"
    by (simp add: new_cells_def plain_env_def insert_row_def numeral_eq_Suc)
  then have "oc_main plain_env None = (Inr (), Some [u ''A'' # replicate 13 []])"
    by (simp add: oc_main_def oc_url_def oc_option_def plain_env_def)
  with refresh_all_or_nothing [OF this] show ?thesis by auto
qed

end
