(* ===== verification/Pyclass.thy ===== *)
theory Pyclass
  imports Prelude
begin

text \<open>
  Python's classes, as far as the message classes use them, and the metaclass of
  \<open>loctrkd/protomodule.py\<close>: class objects with their bases and attributes, the method resolution
  order (the C3 merge), attribute lookup with the metaclass as the last resort, and \<open>MetaPkt\<close>,
  which gives every message class two nested classes \<open>In\<close> and \<open>Out\<close>.

  A class object stands for itself by its name: the qualified names in a module are distinct.
  A class attribute is a value of the module (\<open>Member\<close>), a nested class (\<open>Nested\<close>, by its
  name), or a method of the metaclass that does nothing (\<open>Meta_Stub\<close>).
\<close>

section \<open>Class objects and the order of their bases\<close>

datatype 'v member = Member 'v | Nested string | Meta_Stub

datatype 'v pyclass =
  Py_Class (cl_name: string) (cl_bases: "'v pyclass list") (cl_dict: "(string \<times> 'v member) list")

text \<open>
  The merge of C3: take the head of the first list that stands in no other list's tail, remove it
  everywhere, go on; if there is none, creating the class is a \<open>TypeError\<close>.
\<close>

definition good_head :: "'v pyclass list list \<Rightarrow> 'v pyclass \<Rightarrow> bool" where
  "good_head seqs h \<longleftrightarrow> list_all (\<lambda>t. cl_name h \<notin> cl_name ` set (tl t)) seqs"

definition drop_head :: "'v pyclass \<Rightarrow> 'v pyclass list \<Rightarrow> 'v pyclass list" where
  "drop_head h s = (case s of [] \<Rightarrow> [] | x # xs \<Rightarrow> if cl_name x = cl_name h then xs else s)"

fun heads :: "'v pyclass list list \<Rightarrow> 'v pyclass list" where
  "heads [] = []"
| "heads ([] # seqs) = heads seqs"
| "heads ((x # xs) # seqs) = x # heads seqs"

lemma drop_head_le: "length (drop_head h s) \<le> length s"
  by (simp add: drop_head_def split: list.split)

lemma drop_head_less:
  assumes "h \<in> set (heads seqs)"
  shows "sum_list (map (length \<circ> drop_head h) seqs) < sum_list (map length seqs)"
  using assms
proof (induction seqs rule: heads.induct)
  case (3 x xs seqs)
  have "sum_list (map (length \<circ> drop_head h) seqs) \<le> sum_list (map length seqs)"
    by (rule sum_list_mono) (simp add: drop_head_le)
  with 3 show ?case by (cases "cl_name x = cl_name h") (auto simp: drop_head_def [of _ "x # xs"] comp_def)
qed (simp_all add: drop_head_def)

lemma heads_find: "find P (heads seqs) = Some h \<Longrightarrow> h \<in> set (heads seqs)"
  by (auto simp: find_Some_iff)

function c3_merge :: "'v pyclass list list \<Rightarrow> 'v pyclass list res" where
  "c3_merge seqs =
     (case heads seqs of
        [] \<Rightarrow> Inr []
      | _ \<Rightarrow> (case find (good_head seqs) (heads seqs) of
            None \<Rightarrow> Inl TypeError
          | Some h \<Rightarrow> and_then (c3_merge (map (drop_head h) seqs)) (\<lambda>r. Inr (h # r))))"
  by pat_completeness auto
termination
proof (relation "measure (sum_list \<circ> map length)")
  fix seqs :: "'v pyclass list list" and h
  assume "find (good_head seqs) (heads seqs) = Some h"
  from drop_head_less [OF heads_find [OF this]]
  show "(map (drop_head h) seqs, seqs) \<in> measure (sum_list \<circ> map length)" by simp
qed simp

declare c3_merge.simps [simp del]

fun mro :: "'v pyclass \<Rightarrow> 'v pyclass list res" where
  "mro (Py_Class n bs d) =
     and_then (map_res mro bs) (\<lambda>ls. and_then (c3_merge (ls @ [bs])) (\<lambda>r. Inr (Py_Class n bs d # r)))"

text \<open>\<open>type.__new__\<close>\<close>

definition type_new :: "string \<Rightarrow> 'v pyclass list \<Rightarrow> (string \<times> 'v member) list \<Rightarrow> 'v pyclass res" where
  "type_new name bases attrs =
     (let c = Py_Class name bases attrs in
      if \<not> distinct (map cl_name bases) then Inl TypeError
      else and_then (mro c) (\<lambda>_. Inr c))"

section \<open>Attributes\<close>

fun mro_get :: "'v pyclass list \<Rightarrow> string \<Rightarrow> 'v member option" where
  "mro_get [] k = None"
| "mro_get (c # cs) k = (case map_of (cl_dict c) k of Some v \<Rightarrow> Some v | None \<Rightarrow> mro_get cs k)"

text \<open>The methods that \<open>MetaPkt\<close> defines: an attribute that no class has is looked up there.\<close>

definition MetaPkt_dict :: "(string \<times> 'v member) list" where
  "MetaPkt_dict = [(''in_decode'', Meta_Stub), (''out_decode'', Meta_Stub),
     (''in_encode'', Meta_Stub), (''out_encode'', Meta_Stub)]"

definition attr_found :: "'v member option \<Rightarrow> 'v member res" where
  "attr_found v = (case v of Some x \<Rightarrow> Inr x | None \<Rightarrow> Inl AttributeError)"

definition class_get :: "'v pyclass \<Rightarrow> string \<Rightarrow> 'v member res" where
  "class_get c k =
     and_then (mro c) (\<lambda>l. attr_found (case mro_get l k of
         Some v \<Rightarrow> Some v
       | None \<Rightarrow> map_of MetaPkt_dict k))"

text \<open>An attribute of an instance that the instance does not have itself: no metaclass here.\<close>

definition instance_get :: "'v pyclass \<Rightarrow> string \<Rightarrow> 'v member res" where
  "instance_get c k =
     and_then (mro c) (\<lambda>l. attr_found (mro_get l k))"

text \<open>\<open>issubclass(c, d)\<close>, \<open>d\<close> by its name\<close>

fun py_issubclass :: "'v pyclass \<Rightarrow> string \<Rightarrow> bool" where
  "py_issubclass c n = (case mro c of Inl e \<Rightarrow> False | Inr l \<Rightarrow> n \<in> cl_name ` set l)"

section \<open>The metaclass\<close>

record 'v packet_class =
  pc_newcls :: "'v pyclass"
  pc_In :: "'v pyclass"
  pc_Out :: "'v pyclass"

text \<open>
  \<open>newcls.In = ...\<close> and \<open>newcls.Out = ...\<close>: class objects are shared, so the nested classes,
  which have \<open>newcls\<close> as a base, see what is assigned to it. They are made of the attributes that
  \<open>newcls\<close> has or inherits; \<open>In\<close> and \<open>Out\<close> themselves are made by \<open>type.__new__\<close> and get no nested
  classes of their own.
\<close>

definition made_class :: "string \<Rightarrow> 'v pyclass list \<Rightarrow> (string \<times> 'v member) list \<Rightarrow> 'v pyclass" where
  "made_class name bases attrs =
     Py_Class name bases ((''In'', Nested (name @ ''.In'')) # (''Out'', Nested (name @ ''.Out'')) # attrs)"

definition MetaPkt_new ::
  "string \<Rightarrow> 'v pyclass list \<Rightarrow> (string \<times> 'v member) list \<Rightarrow> 'v packet_class res" where
  "MetaPkt_new name bases attrs =
     and_then (type_new name bases attrs) (\<lambda>c.
       let newcls = made_class name bases attrs in
       and_then (class_get c ''IN_KWARGS'') (\<lambda>ik. and_then (class_get c ''in_decode'') (\<lambda>ide.
       and_then (class_get c ''in_encode'') (\<lambda>ie.
       and_then (type_new (name @ ''.In'') (newcls # bases)
         [(''KWARGS'', ik), (''decode'', ide), (''encode'', ie)]) (\<lambda>cin.
       and_then (class_get c ''OUT_KWARGS'') (\<lambda>ok. and_then (class_get c ''out_decode'') (\<lambda>od.
       and_then (class_get c ''out_encode'') (\<lambda>oe.
       and_then (type_new (name @ ''.Out'') (newcls # bases)
         [(''KWARGS'', ok), (''decode'', od), (''encode'', oe)]) (\<lambda>cout.
         Inr \<lparr>pc_newcls = newcls, pc_In = cin, pc_Out = cout\<rparr>)))))))))"

section \<open>Classes with one base\<close>

text \<open>
  The hierarchies here are chains. A list that has all others as prefixes is their merge; so the
  order of a class with one base is the class and the order of its base, and that of a nested class
  is itself, the class it is nested in, and what follows there.
\<close>

lemma heads_Nil: "heads seqs = [] \<longleftrightarrow> (\<forall>s \<in> set seqs. s = [])"
  by (induction seqs rule: heads.induct) auto

lemma heads_mem: "x \<in> set (heads seqs) \<longleftrightarrow> (\<exists>xs. x # xs \<in> set seqs)"
  by (induction seqs rule: heads.induct) auto

lemma find_all: "xs \<noteq> [] \<Longrightarrow> (\<And>x. x \<in> set xs \<Longrightarrow> x = y) \<Longrightarrow> P y \<Longrightarrow> find P xs = Some y"
  by (cases xs) auto

lemma c3_merge_step:
  assumes "heads seqs \<noteq> []" and "find (good_head seqs) (heads seqs) = Some h"
  shows "c3_merge seqs = and_then (c3_merge (map (drop_head h) seqs)) (\<lambda>r. Inr (h # r))"
  using assms by (subst c3_merge.simps) (cases "heads seqs"; simp)

lemma c3_merge_prefixes:
  assumes "distinct (map cl_name l)" and "\<forall>s \<in> set seqs. prefix s l" and "l \<in> set seqs"
  shows "c3_merge seqs = Inr l"
  using assms
proof (induction l arbitrary: seqs)
  case Nil
  then have "heads seqs = []" by (simp add: heads_Nil)
  then show ?case by (simp add: c3_merge.simps)
next
  case (Cons h l)
  have tails: "set (tl s) \<subseteq> set l" if "s \<in> set seqs" for s
  proof (cases s)
    case (Cons a t)
    with Cons.prems(2) that have "prefix t l" by auto
    then show ?thesis by (simp add: Cons set_mono_prefix)
  qed simp
  have h: "find (good_head seqs) (heads seqs) = Some h"
  proof (rule find_all)
    show "heads seqs \<noteq> []" using Cons.prems(3) by (auto simp: heads_Nil)
    show "x = h" if "x \<in> set (heads seqs)" for x
      using that Cons.prems(2) by (auto simp: heads_mem)
    show "good_head seqs h"
      using Cons.prems(1) tails by (fastforce simp: good_head_def list_all_iff)
  qed
  have "c3_merge (map (drop_head h) seqs) = Inr l"
  proof (rule Cons.IH)
    show "\<forall>s \<in> set (map (drop_head h) seqs). prefix s l"
      using Cons.prems(2) by (auto simp: drop_head_def prefix_Cons split: list.split)
    show "l \<in> set (map (drop_head h) seqs)"
      using Cons.prems(3) by (force simp: drop_head_def)
  qed (use Cons.prems in simp)
  with c3_merge_step [OF _ h] Cons.prems(3) show ?case by (auto simp: heads_Nil)
qed

definition in_order :: "'v pyclass \<Rightarrow> 'v pyclass list \<Rightarrow> bool" where
  "in_order c l \<longleftrightarrow> mro c = Inr l \<and> l \<noteq> [] \<and> hd l = c \<and> distinct (map cl_name l)"

lemma in_order_hd: "in_order c l \<Longrightarrow> \<exists>l'. l = c # l'"
  by (cases l) (auto simp: in_order_def)

lemma mro_single:
  assumes "in_order b l" and "n \<notin> cl_name ` set l"
  shows "in_order (Py_Class n [b] d) (Py_Class n [b] d # l)"
proof -
  from in_order_hd [OF assms(1)] obtain l' where l: "l = b # l'" ..
  have "c3_merge [l, [b]] = Inr l"
    by (rule c3_merge_prefixes) (use assms(1) in \<open>auto simp: l in_order_def\<close>)
  with assms show ?thesis by (auto simp: in_order_def)
qed

lemma mro_nested:
  assumes "in_order b l" and "in_order c (c # l)" and "n \<notin> cl_name ` set (c # l)"
  shows "in_order (Py_Class n [c, b] d) (Py_Class n [c, b] d # c # l)"
proof -
  from in_order_hd [OF assms(1)] obtain l' where l: "l = b # l'" ..
  let ?seqs = "[c # l, l, [c, b]]"
  from assms(2) have dist: "distinct (map cl_name (c # l))" by (simp add: in_order_def)
  then have "find (good_head ?seqs) (heads ?seqs) = Some c" by (auto simp: l good_head_def)
  from c3_merge_step [OF _ this] dist
  have "c3_merge ?seqs = and_then (c3_merge [l, l, [b]]) (\<lambda>r. Inr (c # r))"
    by (auto simp: l drop_head_def)
  moreover have "c3_merge [l, l, [b]] = Inr l"
    by (rule c3_merge_prefixes) (use dist in \<open>auto simp: l\<close>)
  ultimately show ?thesis using assms by (auto simp: in_order_def)
qed

text \<open>What the metaclass makes of a class with one base\<close>

lemma class_get_order:
  "in_order c l \<Longrightarrow> mro_get l k = Some v \<Longrightarrow> class_get c k = Inr v"
  "in_order c l \<Longrightarrow> mro_get l k = None \<Longrightarrow> map_of MetaPkt_dict k = Some v \<Longrightarrow> class_get c k = Inr v"
  by (simp_all add: in_order_def class_get_def attr_found_def)

lemma instance_get_order: "in_order c l \<Longrightarrow> instance_get c k = attr_found (mro_get l k)"
  by (simp add: in_order_def instance_get_def)

lemma instance_class_get: "instance_get c k = Inr v \<Longrightarrow> class_get c k = Inr v"
  by (cases "mro c") (auto simp: instance_get_def class_get_def attr_found_def split: option.splits)

lemma type_new_order:
  "in_order (Py_Class n bs d) l \<Longrightarrow> distinct (map cl_name bs) \<Longrightarrow> type_new n bs d = Inr (Py_Class n bs d)"
  by (simp add: type_new_def in_order_def)

lemma suffix_new [simp]: "n @ x # xs \<noteq> n" "n \<noteq> n @ x # xs"
  by (auto dest: arg_cong [of _ _ length])

lemma MetaPkt_new_chain:
  assumes b: "in_order b l"
    and fresh: "name \<notin> cl_name ` set l" "name @ ''.In'' \<notin> cl_name ` set l" "name @ ''.Out'' \<notin> cl_name ` set l"
    and attrs: "class_get (Py_Class name [b] attrs) ''IN_KWARGS'' = Inr ik"
      "class_get (Py_Class name [b] attrs) ''in_decode'' = Inr ide"
      "class_get (Py_Class name [b] attrs) ''in_encode'' = Inr ie"
      "class_get (Py_Class name [b] attrs) ''OUT_KWARGS'' = Inr ok"
      "class_get (Py_Class name [b] attrs) ''out_decode'' = Inr od"
      "class_get (Py_Class name [b] attrs) ''out_encode'' = Inr oe"
  defines "c \<equiv> made_class name [b] attrs"
  defines "i \<equiv> Py_Class (name @ ''.In'') [c, b] [(''KWARGS'', ik), (''decode'', ide), (''encode'', ie)]"
    and "t \<equiv> Py_Class (name @ ''.Out'') [c, b] [(''KWARGS'', ok), (''decode'', od), (''encode'', oe)]"
  shows "MetaPkt_new name [b] attrs = Inr \<lparr>pc_newcls = c, pc_In = i, pc_Out = t\<rparr>"
    and "in_order c (c # l)" and "in_order i (i # c # l)" and "in_order t (t # c # l)"
proof -
  obtain l' where l: "l = b # l'" using in_order_hd [OF b] ..
  show c: "in_order c (c # l)" unfolding c_def made_class_def by (rule mro_single [OF b fresh(1)])
  have n: "cl_name c = name" by (simp add: c_def made_class_def)
  show i: "in_order i (i # c # l)" unfolding i_def
    by (rule mro_nested [OF b c]) (use fresh n in auto)
  show t: "in_order t (t # c # l)" unfolding t_def
    by (rule mro_nested [OF b c]) (use fresh n in auto)
  from fresh n have d: "distinct (map cl_name [c, b])" by (auto simp: l)
  have "type_new name [b] attrs = Inr (Py_Class name [b] attrs)"
    by (rule type_new_order [OF mro_single [OF b fresh(1)]]) simp
  with attrs type_new_order [OF i [unfolded i_def] d] type_new_order [OF t [unfolded t_def] d]
  show "MetaPkt_new name [b] attrs = Inr \<lparr>pc_newcls = c, pc_In = i, pc_Out = t\<rparr>"
    by (simp add: MetaPkt_new_def Let_def c_def i_def t_def)
qed

section \<open>ProtoClass\<close>

text \<open>
  \<open>typing.Protocol\<close>, of which only its place in the order matters, and the root of the message classes.
  The body of \<open>ProtoClass\<close> has classes \<open>In\<close> and \<open>Out\<close> of its own, with methods that do nothing;
  the metaclass replaces them. \<open>no_kwargs\<close> is the empty table, \<open>stub\<close> a method without a body.
\<close>

definition class_Protocol :: "'v pyclass" where
  "class_Protocol = Py_Class ''Protocol'' [Py_Class ''Generic'' [Py_Class ''object'' [] []] []] []"

definition ProtoClass_attrs :: "'v \<Rightarrow> 'v \<Rightarrow> (string \<times> 'v member) list" where
  "ProtoClass_attrs no_kwargs stub =
     [(''IN_KWARGS'', Member no_kwargs),
      (''OUT_KWARGS'', Member no_kwargs),
      (''proto_name'', Member stub),
      (''In'', Nested ''ProtoClass.In''),
      (''Out'', Nested ''ProtoClass.Out'')]"

definition class_ProtoClass :: "'v \<Rightarrow> 'v \<Rightarrow> 'v pyclass" where
  "class_ProtoClass no_kwargs stub = made_class ''ProtoClass'' [class_Protocol] (ProtoClass_attrs no_kwargs stub)"

definition proto_roots :: "'v \<Rightarrow> 'v \<Rightarrow> 'v pyclass list" where
  "proto_roots no_kwargs stub = [class_ProtoClass no_kwargs stub, class_Protocol,
     Py_Class ''Generic'' [Py_Class ''object'' [] []] [], Py_Class ''object'' [] []]"

lemmas proto_defs = class_Protocol_def class_ProtoClass_def ProtoClass_attrs_def made_class_def

lemma in_order_object: "in_order (Py_Class ''object'' [] d) [Py_Class ''object'' [] d]"
  by (simp add: in_order_def c3_merge.simps)

lemma proto_order: "in_order (class_ProtoClass no_kwargs stub) (proto_roots no_kwargs stub)"
  unfolding proto_roots_def proto_defs by (intro mro_single in_order_object) simp_all

section \<open>The class statements of a module\<close>

text \<open>
  What a module's class statements promise: the base of each class is made, and its names are new.
  Then each statement is accepted, and an attribute of the class, or of an object of a nested class, is the
  first that is found in the class, its base, and so on, the nested class's own three before all.
\<close>

definition found_attr :: "(string \<times> 'v member) list \<Rightarrow> 'v pyclass list \<Rightarrow> string \<Rightarrow> 'v member option" where
  "found_attr attrs anc k = (case map_of attrs k of Some v \<Rightarrow> Some v | None \<Rightarrow> mro_get anc k)"

definition nested_class :: "'v pyclass \<Rightarrow> 'v pyclass list \<Rightarrow> string \<Rightarrow> (string \<times> 'v member) list \<Rightarrow> 'v pyclass \<Rightarrow> bool" where
  "nested_class newcls anc name d cls \<longleftrightarrow> cl_name cls = name \<and> cl_dict cls = d \<and> in_order cls (cls # newcls # anc)"

definition is_nested_name :: "string \<Rightarrow> bool" where
  "is_nested_name k \<longleftrightarrow> k = ''In'' \<or> k = ''Out''"

lemma is_nested_name_simps [simp]:
  "is_nested_name ''Out''" "is_nested_name ''In''" "\<not> is_nested_name ''PROTO''" "\<not> is_nested_name ''RESPOND''"
  "\<not> is_nested_name ''BINARY''" "\<not> is_nested_name ''rectified''"
  by (simp_all add: is_nested_name_def)

locale class_statements =
  fixes ident :: "'c \<Rightarrow> string"
    and base :: "'c \<Rightarrow> 'v pyclass"
    and attrs :: "'c \<Rightarrow> (string \<times> 'v member) list"
    and anc :: "'c \<Rightarrow> 'v pyclass list"
  assumes base_order: "in_order (base c) (anc c)"
    and fresh: "ident c \<notin> cl_name ` set (anc c)"
    and fresh_In: "ident c @ ''.In'' \<notin> cl_name ` set (anc c)"
    and fresh_Out: "ident c @ ''.Out'' \<notin> cl_name ` set (anc c)"
begin

lemma stmt_order: "in_order (Py_Class (ident c) [base c] d) (Py_Class (ident c) [base c] d # anc c)"
  by (rule mro_single [OF base_order fresh])

lemma stmt_get:
  assumes "found_attr (attrs c) (anc c) k = Some v"
  shows "class_get (Py_Class (ident c) [base c] (attrs c)) k = Inr v"
  by (rule class_get_order(1) [OF stmt_order]) (use assms in \<open>simp add: found_attr_def\<close>)

lemma newcls_order:
  "in_order (made_class (ident c) [base c] (attrs c)) (made_class (ident c) [base c] (attrs c) # anc c)"
  unfolding made_class_def by (rule stmt_order)

lemma newcls_get:
  assumes "found_attr (attrs c) (anc c) k = Some v" and "\<not> is_nested_name k"
  shows "class_get (made_class (ident c) [base c] (attrs c)) k = Inr v"
  by (rule class_get_order(1) [OF newcls_order])
    (use assms in \<open>simp add: found_attr_def made_class_def is_nested_name_def\<close>)

lemma made:
  assumes "found_attr (attrs c) (anc c) ''IN_KWARGS'' = Some ik"
    and "found_attr (attrs c) (anc c) ''in_decode'' = Some ide"
    and "found_attr (attrs c) (anc c) ''in_encode'' = Some ie"
    and "found_attr (attrs c) (anc c) ''OUT_KWARGS'' = Some ok"
    and "found_attr (attrs c) (anc c) ''out_decode'' = Some od"
    and "found_attr (attrs c) (anc c) ''out_encode'' = Some oe"
  shows "\<exists>pc. MetaPkt_new (ident c) [base c] (attrs c) = Inr pc \<and>
    pc_newcls pc = made_class (ident c) [base c] (attrs c) \<and>
    nested_class (pc_newcls pc) (anc c) (ident c @ ''.In'')
      [(''KWARGS'', ik), (''decode'', ide), (''encode'', ie)] (pc_In pc) \<and>
    nested_class (pc_newcls pc) (anc c) (ident c @ ''.Out'')
      [(''KWARGS'', ok), (''decode'', od), (''encode'', oe)] (pc_Out pc)"
  using MetaPkt_new_chain [OF base_order fresh fresh_In fresh_Out stmt_get [OF assms(1)] stmt_get [OF assms(2)]
      stmt_get [OF assms(3)] stmt_get [OF assms(4)] stmt_get [OF assms(5)] stmt_get [OF assms(6)]]
  by (auto simp: nested_class_def)

lemma nested_lookup:
  assumes "nested_class (made_class (ident c) [base c] (attrs c)) (anc c) name d cls"
  shows "instance_get cls k = attr_found (case map_of d k of Some v \<Rightarrow> Some v
    | None \<Rightarrow> (if k = ''In'' then Some (Nested (ident c @ ''.In''))
        else if k = ''Out'' then Some (Nested (ident c @ ''.Out''))
        else found_attr (attrs c) (anc c) k))"
  using assms instance_get_order [of cls _ k]
  by (auto simp: nested_class_def made_class_def found_attr_def split: option.split)

lemma nested_get:
  assumes "nested_class (made_class (ident c) [base c] (attrs c)) (anc c) name d cls"
    and "map_of d k = None" and "found_attr (attrs c) (anc c) k = Some v" and "\<not> is_nested_name k"
  shows "instance_get cls k = Inr v"
  using assms(2-) by (simp add: nested_lookup [OF assms(1)] attr_found_def is_nested_name_def)

lemma nested_own:
  assumes "nested_class (made_class (ident c) [base c] (attrs c)) (anc c) name d cls" and "map_of d k = Some v"
  shows "instance_get cls k = Inr v"
  using assms(2) by (simp add: nested_lookup [OF assms(1)] attr_found_def)

lemma nested_Out:
  assumes "nested_class (made_class (ident c) [base c] (attrs c)) (anc c) name d cls" and "map_of d ''Out'' = None"
  shows "instance_get cls ''Out'' = Inr (Nested (ident c @ ''.Out''))"
  using assms(2) by (simp add: nested_lookup [OF assms(1)] attr_found_def)

lemma nested_has:
  assumes "nested_class (made_class (ident c) [base c] (attrs c)) (anc c) name d cls" and "map_of d k = None"
    and "\<not> is_nested_name k"
  shows "returns (instance_get cls k) \<longleftrightarrow> found_attr (attrs c) (anc c) k \<noteq> None"
  using assms(2,3) by (auto simp: nested_lookup [OF assms(1)] attr_found_def is_nested_name_def split: option.split)

end

end
