(* ===== verification/ZX_Hierarchy.thy ===== *)
theory ZX_Hierarchy
  imports Pyclass ZX_Proto
begin

text \<open>
  The class statements of \<open>loctrkd/zx303proto.py\<close>, one definition each, as Python executes them: a
  name, a base and the attributes of the body. The metaclass makes \<open>In\<close> and \<open>Out\<close> of each. What the
  other theories say of a class by one table for all classes (\<open>zx_PROTO\<close>, \<open>zx_RESPOND\<close>,
  \<open>zx_OUT_KWARGS\<close>, \<open>zx_in_decode\<close>, \<open>zx_out_encode\<close>, ...) is shown to be what Python's attribute
  lookup finds in these classes. \<open>__init__\<close>, \<open>__repr__\<close> and \<open>packed\<close>, which no class overrides, are not
  among the attributes here.
\<close>

section \<open>Values of class attributes\<close>

text \<open>
  Numbers, response kinds, keyword tables, and methods as functions of the attributes they read. An
  \<open>in_encode\<close> may give the object a new \<open>length\<close>.
\<close>

datatype zx_member =
    Proto int
  | Responds respond
  | Kwargs kwspec
  | Decode "(datetime \<Rightarrow> datetime) \<Rightarrow> nat \<Rightarrow> bytes \<Rightarrow> zx_body res"
  | Encode_In "zx_body \<Rightarrow> (int option \<times> bytes) res"
  | Encode_Out "datetime \<Rightarrow> attrs \<Rightarrow> bytes res"
  | Rectify "zx_body \<Rightarrow> report res"
  | Proto_Name "pystr \<Rightarrow> pystr"
  | Stub

type_synonym zx_attrs = "(string \<times> zx_member member) list"
type_synonym zx_pyclass = "zx_member pyclass"

text \<open>Converters that only \<open>IN_KWARGS\<close> has: \<open>maybe(typ)\<close>, \<open>bytes\<close> and \<open>list\<close>\<close>

fun maybe :: "(pyval \<Rightarrow> pyval res) \<Rightarrow> pyval \<Rightarrow> pyval res" where
  "maybe typ VNone = Inr VNone"
| "maybe typ x = typ x"

fun byte_val :: "pyval \<Rightarrow> byte res" where
  "byte_val (VInt i) = (if 0 \<le> i \<and> i < 256 then Inr (word_of_int i) else Inl ValueError)"
| "byte_val (VBool b) = Inr (if b then 1 else 0)"
| "byte_val v = Inl TypeError"

fun conv_bytes :: "pyval \<Rightarrow> pyval res" where
  "conv_bytes (VBytes b) = Inr (VBytes b)"
| "conv_bytes (VInt n) = (if n < 0 then Inl ValueError else Inr (VBytes (replicate (nat n) 0)))"
| "conv_bytes (VBool b) = Inr (VBytes (if b then [0] else []))"
| "conv_bytes (VList xs) = and_then (map_res byte_val xs) (\<lambda>bs. Inr (VBytes bs))"
| "conv_bytes (VTup xs) = and_then (map_res byte_val xs) (\<lambda>bs. Inr (VBytes bs))"
| "conv_bytes v = Inl TypeError"

definition conv_list :: "pyval \<Rightarrow> pyval res" where
  "conv_list v = and_then (py_seq v) (\<lambda>xs. Inr (VList xs))"

section \<open>Methods with more than a line\<close>

text \<open>An object of another class than the method's has not the attributes it reads.\<close>

fun LOGIN_in_encode :: "zx_body \<Rightarrow> (int option \<times> bytes) res" where
  "LOGIN_in_encode (Login_Body imei ver) = and_then (login_in_encode imei ver) (\<lambda>b. Inr (None, b))"
| "LOGIN_in_encode _ = Inl AttributeError"

fun STATUS_in_encode :: "zx_body \<Rightarrow> (int option \<times> bytes) res" where
  "STATUS_in_encode (Status_Body s) = and_then (status_in_encode s) (\<lambda>b. Inr (None, b))"
| "STATUS_in_encode _ = Inl AttributeError"

text \<open>\<open>self.length = len(self.wifi_aps)\<close>\<close>

fun WIFI_in_encode :: "zx_body \<Rightarrow> (int option \<times> bytes) res" where
  "WIFI_in_encode (Wifi_Body w) =
     and_then (wifi_in_encode w) (\<lambda>b. Inr (Some (int (length (w_wifi_aps w))), b))"
| "WIFI_in_encode _ = Inl AttributeError"

fun gps_rectified :: "zx_body \<Rightarrow> report res" where
  "gps_rectified (Gps_Body g) = Inr (CoordReport
     \<lparr>cr_devtime = str_devtime (g_devtime g), cr_battery_percentage = None, cr_accuracy = VNone,
      cr_altitude = VNone, cr_speed = VInt (g_speed g), cr_direction = VInt (g_heading g),
      cr_latitude = Fin (g_latitude g), cr_longitude = Fin (g_longitude g)\<rparr>)"
| "gps_rectified _ = Inl AttributeError"

fun status_rectified :: "zx_body \<Rightarrow> report res" where
  "status_rectified (Status_Body s) = Inr (StatusReport \<lparr>sr_battery_percentage = s_batt s\<rparr>)"
| "status_rectified _ = Inl AttributeError"

fun wifi_rectified :: "zx_body \<Rightarrow> report res" where
  "wifi_rectified (Wifi_Body w) = Inr (HintReport
     \<lparr>hr_devtime = str_devtime (w_devtime w), hr_battery_percentage = None, hr_mcc = w_mcc w,
      hr_mnc = w_mnc w, hr_gsm_cells = map (\<lambda>(l, c, s). [l, c, s]) (w_gsm_cells w),
      hr_wifi_aps = map (\<lambda>(mac, s). (u ''<UNKNOWN>'', mac, s)) (w_wifi_aps w)\<rparr>)"
| "wifi_rectified _ = Inl AttributeError"

section \<open>The base classes\<close>

text \<open>\<open>ProtoClass\<close>, with the values of this module\<close>

abbreviation zx_ProtoClass :: zx_pyclass where
  "zx_ProtoClass \<equiv> class_ProtoClass (Kwargs []) Stub"

definition GPS303Pkt_attrs :: zx_attrs where
  "GPS303Pkt_attrs =
     [(''RESPOND'', Member (Responds NON)),
      (''IN_KWARGS'', Member (Kwargs [])),
      (''OUT_KWARGS'', Member (Kwargs [])),
      (''KWARGS'', Member (Kwargs [])),
      (''in_decode'', Member (Decode (\<lambda>tz len payload. Inr No_Body))),
      (''out_decode'', Member (Decode (\<lambda>tz len payload. Inr No_Body))),
      (''in_encode'', Member (Encode_In (\<lambda>self. Inl NotImplementedError))),
      (''out_encode'', Member (Encode_Out (\<lambda>now self. Inr []))),
      (''proto_name'', Member (Proto_Name (\<lambda>name. take 16 (ZX_PREFIX @ name))))]"

definition class_GPS303Pkt :: zx_pyclass where
  "class_GPS303Pkt = made_class ''GPS303Pkt'' [zx_ProtoClass] GPS303Pkt_attrs"

section \<open>The message classes\<close>

definition UNKNOWN_attrs :: "zx_attrs" where
  "UNKNOWN_attrs =
     [(''PROTO'', Member (Proto 256))]"

definition LOGIN_attrs :: "(pyval \<Rightarrow> pystr) \<Rightarrow> zx_attrs" where
  "LOGIN_attrs rep =
     [(''PROTO'', Member (Proto 0x01)),
      (''RESPOND'', Member (Responds INL)),
      (''IN_KWARGS'', Member (Kwargs
        [(u ''imei'', conv_str rep, VStr (u ''0000000000000000'')),
         (u ''ver'', conv_int, VInt 0)])),
      (''in_decode'', Member (Decode (\<lambda>tz len payload. login_in_decode payload))),
      (''in_encode'', Member (Encode_In LOGIN_in_encode))]"

definition SUPERVISION_attrs :: "zx_attrs" where
  "SUPERVISION_attrs =
     [(''PROTO'', Member (Proto 0x05)),
      (''OUT_KWARGS'', Member (Kwargs [(u ''status'', conv_int, VInt 1)])),
      (''out_encode'', Member (Encode_Out (\<lambda>now self. pack_attr 1 self (u ''status''))))]"

definition HEARTBEAT_attrs :: "zx_attrs" where
  "HEARTBEAT_attrs =
     [(''PROTO'', Member (Proto 0x08)),
      (''RESPOND'', Member (Responds INL))]"

definition base_GPS_POSITIONING_attrs :: "zx_attrs" where
  "base_GPS_POSITIONING_attrs =
     [(''RESPOND'', Member (Responds INL)),
      (''in_decode'', Member (Decode (\<lambda>tz len payload. gps_in_decode payload))),
      (''out_encode'', Member (Encode_Out (\<lambda>now self. gps_out_encode now))),
      (''rectified'', Member (Rectify gps_rectified))]"

definition class_base_GPS_POSITIONING :: "zx_pyclass" where
  "class_base_GPS_POSITIONING = made_class ''_GPS_POSITIONING'' [class_GPS303Pkt] (base_GPS_POSITIONING_attrs)"

definition GPS_POSITIONING_attrs :: "zx_attrs" where
  "GPS_POSITIONING_attrs =
     [(''PROTO'', Member (Proto 0x10))]"

definition GPS_OFFLINE_POSITIONING_attrs :: "zx_attrs" where
  "GPS_OFFLINE_POSITIONING_attrs =
     [(''PROTO'', Member (Proto 0x11))]"

definition STATUS_attrs :: "zx_attrs" where
  "STATUS_attrs =
     [(''PROTO'', Member (Proto 0x13)),
      (''RESPOND'', Member (Responds EXT)),
      (''IN_KWARGS'', Member (Kwargs
        [(u ''batt'', conv_int, VInt 100),
         (u ''ver'', conv_int, VInt 0),
         (u ''timezone'', conv_int, VInt 0),
         (u ''intvl'', conv_int, VInt 0),
         (u ''signal'', maybe conv_int, VNone)])),
      (''OUT_KWARGS'', Member (Kwargs [(u ''upload_interval'', conv_int, VInt 25)])),
      (''in_decode'', Member (Decode (\<lambda>tz len payload. status_in_decode payload))),
      (''in_encode'', Member (Encode_In STATUS_in_encode)),
      (''out_encode'', Member (Encode_Out (\<lambda>now self. pack_attr 1 self (u ''upload_interval'')))),
      (''rectified'', Member (Rectify status_rectified))]"

definition HIBERNATION_attrs :: "zx_attrs" where
  "HIBERNATION_attrs =
     [(''PROTO'', Member (Proto 0x14)),
      (''in_encode'', Member (Encode_In (\<lambda>self. Inr (None, []))))]"

definition RESET_attrs :: "zx_attrs" where
  "RESET_attrs =
     [(''PROTO'', Member (Proto 0x15))]"

definition WHITELIST_TOTAL_attrs :: "zx_attrs" where
  "WHITELIST_TOTAL_attrs =
     [(''PROTO'', Member (Proto 0x16)),
      (''OUT_KWARGS'', Member (Kwargs [(u ''number'', conv_int, VInt 3)])),
      (''out_encode'', Member (Encode_Out (\<lambda>now self. pack_attr 1 self (u ''number''))))]"

definition base_WIFI_POSITIONING_attrs :: "zx_attrs" where
  "base_WIFI_POSITIONING_attrs =
     [(''IN_KWARGS'', Member (Kwargs
        [(u ''dtime'', conv_bytes, VBytes NUL6),
         (u ''wifi_aps'', conv_list, VList []),
         (u ''mcc'', conv_int, VInt 0),
         (u ''mnc'', conv_int, VInt 0),
         (u ''gsm_cells'', conv_list, VList [])])),
      (''in_decode'', Member (Decode (\<lambda>tz len payload. wifi_in_decode tz len payload))),
      (''in_encode'', Member (Encode_In WIFI_in_encode)),
      (''rectified'', Member (Rectify wifi_rectified))]"

definition class_base_WIFI_POSITIONING :: "zx_pyclass" where
  "class_base_WIFI_POSITIONING = made_class ''_WIFI_POSITIONING'' [class_GPS303Pkt] (base_WIFI_POSITIONING_attrs)"

definition WIFI_OFFLINE_POSITIONING_attrs :: "zx_attrs" where
  "WIFI_OFFLINE_POSITIONING_attrs =
     [(''PROTO'', Member (Proto 0x17)),
      (''RESPOND'', Member (Responds INL)),
      (''out_encode'', Member (Encode_Out (\<lambda>now self. wifi_offline_out_encode now)))]"

definition TIME_attrs :: "zx_attrs" where
  "TIME_attrs =
     [(''PROTO'', Member (Proto 0x30)),
      (''RESPOND'', Member (Responds INL)),
      (''out_encode'', Member (Encode_Out (\<lambda>now self. time_out_encode now)))]"

definition PROHIBIT_LBS_attrs :: "zx_attrs" where
  "PROHIBIT_LBS_attrs =
     [(''PROTO'', Member (Proto 0x33)),
      (''OUT_KWARGS'', Member (Kwargs [(u ''status'', conv_int, VInt 1)])),
      (''out_encode'', Member (Encode_Out (\<lambda>now self. pack_attr 1 self (u ''status''))))]"

definition GPS_LBS_SWITCH_TIMES_attrs :: "zx_attrs" where
  "GPS_LBS_SWITCH_TIMES_attrs =
     [(''PROTO'', Member (Proto 0x34)),
      (''OUT_KWARGS'', Member (Kwargs
        [(u ''gps_off'', boolx, VBool False),
         (u ''gps_interval_set'', boolx, VBool False),
         (u ''gps_interval'', hhmmhhmm, VStr (u ''00000000'')),
         (u ''lbs_off'', boolx, VBool False),
         (u ''boot_time_set'', boolx, VBool False),
         (u ''boot_time'', hhmm, VStr (u ''0000'')),
         (u ''shut_time_set'', boolx, VBool False),
         (u ''shut_time'', hhmm, VStr (u ''0000''))])),
      (''out_encode'', Member (Encode_Out (\<lambda>now self. concat_res
        [pack_attr 1 self (u ''gps_off''), pack_attr 1 self (u ''gps_interval_set''),
         fromhex_attr self (u ''gps_interval''), pack_attr 1 self (u ''lbs_off''),
         pack_attr 1 self (u ''boot_time_set''), fromhex_attr self (u ''boot_time''),
         pack_attr 1 self (u ''shut_time_set''), fromhex_attr self (u ''shut_time'')])))]"

definition base_SET_PHONE_attrs :: "(pyval \<Rightarrow> pystr) \<Rightarrow> zx_attrs" where
  "base_SET_PHONE_attrs rep =
     [(''OUT_KWARGS'', Member (Kwargs [(u ''phone'', conv_str rep, VStr [])])),
      (''out_encode'', Member (Encode_Out (\<lambda>now self. and_then (attr self (u ''phone'')) (\<lambda>phone. Inl LookupError))))]"

definition class_base_SET_PHONE :: "(pyval \<Rightarrow> pystr) \<Rightarrow> zx_pyclass" where
  "class_base_SET_PHONE rep = made_class ''_SET_PHONE'' [class_GPS303Pkt] (base_SET_PHONE_attrs rep)"

definition REMOTE_MONITOR_PHONE_attrs :: "zx_attrs" where
  "REMOTE_MONITOR_PHONE_attrs =
     [(''PROTO'', Member (Proto 0x40))]"

definition SOS_PHONE_attrs :: "zx_attrs" where
  "SOS_PHONE_attrs =
     [(''PROTO'', Member (Proto 0x41))]"

definition DAD_PHONE_attrs :: "zx_attrs" where
  "DAD_PHONE_attrs =
     [(''PROTO'', Member (Proto 0x42))]"

definition MOM_PHONE_attrs :: "zx_attrs" where
  "MOM_PHONE_attrs =
     [(''PROTO'', Member (Proto 0x43))]"

definition STOP_UPLOAD_attrs :: "zx_attrs" where
  "STOP_UPLOAD_attrs =
     [(''PROTO'', Member (Proto 0x44))]"

definition GPS_OFF_PERIOD_attrs :: "zx_attrs" where
  "GPS_OFF_PERIOD_attrs =
     [(''PROTO'', Member (Proto 0x46)),
      (''OUT_KWARGS'', Member (Kwargs
        [(u ''onoff'', conv_int, VInt 0),
         (u ''fm'', hhmm, VStr (u ''0000'')),
         (u ''to'', hhmm, VStr (u ''2359''))])),
      (''out_encode'', Member (Encode_Out (\<lambda>now self. concat_res
        [pack_attr 1 self (u ''onoff''), fromhex_attr self (u ''fm''), fromhex_attr self (u ''to'')])))]"

definition DND_PERIOD_attrs :: "zx_attrs" where
  "DND_PERIOD_attrs =
     [(''PROTO'', Member (Proto 0x47)),
      (''OUT_KWARGS'', Member (Kwargs
        [(u ''onoff'', conv_int, VInt 0),
         (u ''week'', conv_int, VInt 3),
         (u ''fm1'', hhmm, VStr (u ''0000'')),
         (u ''to1'', hhmm, VStr (u ''2359'')),
         (u ''fm2'', hhmm, VStr (u ''0000'')),
         (u ''to2'', hhmm, VStr (u ''2359''))])),
      (''out_encode'', Member (Encode_Out (\<lambda>now self. concat_res
        [pack_attr 1 self (u ''onoff''), pack_attr 1 self (u ''week''),
         fromhex_attr self (u ''fm1''), fromhex_attr self (u ''to1''),
         fromhex_attr self (u ''fm2''), fromhex_attr self (u ''to2'')])))]"

definition RESTART_SHUTDOWN_attrs :: "zx_attrs" where
  "RESTART_SHUTDOWN_attrs =
     [(''PROTO'', Member (Proto 0x48)),
      (''OUT_KWARGS'', Member (Kwargs [(u ''flag'', conv_int, VInt 0)])),
      (''out_encode'', Member (Encode_Out (\<lambda>now self. pack_attr 1 self (u ''flag''))))]"

definition DEVICE_attrs :: "zx_attrs" where
  "DEVICE_attrs =
     [(''PROTO'', Member (Proto 0x49)),
      (''OUT_KWARGS'', Member (Kwargs [(u ''flag'', conv_int, VInt 0)])),
      (''out_encode'', Member (Encode_Out (\<lambda>now self. pack_attr 1 self (u ''flag''))))]"

definition ALARM_CLOCK_attrs :: "zx_attrs" where
  "ALARM_CLOCK_attrs =
     [(''PROTO'', Member (Proto 0x50)),
      (''OUT_KWARGS'', Member (Kwargs [(u ''alarms'', l3alarms, VList [])])),
      (''out_encode'', Member (Encode_Out (\<lambda>now self. alarm_out_encode self)))]"

definition STOP_ALARM_attrs :: "zx_attrs" where
  "STOP_ALARM_attrs =
     [(''PROTO'', Member (Proto 0x56)),
      (''in_decode'', Member (Decode (\<lambda>tz len payload. and_then (pyget payload 0) (\<lambda>b. Inr (Stop_Alarm_Body (uint b))))))]"

definition SETUP_attrs :: "zx_attrs" where
  "SETUP_attrs =
     [(''PROTO'', Member (Proto 0x57)),
      (''RESPOND'', Member (Responds EXT)),
      (''OUT_KWARGS'', Member (Kwargs
        [(u ''uploadintervalseconds'', intx, VInt 0x0300),
         (u ''binaryswitch'', intx, VInt 0b00110001),
         (u ''alarms'', l3int, VList [VInt 0, VInt 0, VInt 0]),
         (u ''dndtimeswitch'', conv_int, VInt 0),
         (u ''dndtimes'', l3int, VList [VInt 0, VInt 0, VInt 0]),
         (u ''gpstimeswitch'', conv_int, VInt 0),
         (u ''gpstimestart'', conv_int, VInt 0),
         (u ''gpstimestop'', conv_int, VInt 0),
         (u ''phonenumbers'', l3str, VList [VStr [], VStr [], VStr []])])),
      (''out_encode'', Member (Encode_Out (\<lambda>now self. setup_out_encode self))),
      (''in_encode'', Member (Encode_In (\<lambda>self. Inr (None, []))))]"

definition SYNCHRONOUS_WHITELIST_attrs :: "zx_attrs" where
  "SYNCHRONOUS_WHITELIST_attrs =
     [(''PROTO'', Member (Proto 0x58))]"

definition RESTORE_PASSWORD_attrs :: "zx_attrs" where
  "RESTORE_PASSWORD_attrs =
     [(''PROTO'', Member (Proto 0x67))]"

definition WIFI_POSITIONING_attrs :: "zx_attrs" where
  "WIFI_POSITIONING_attrs =
     [(''PROTO'', Member (Proto 0x69)),
      (''RESPOND'', Member (Responds EXT)),
      (''OUT_KWARGS'', Member (Kwargs
        [(u ''latitude'', conv_float, VNone),
         (u ''longitude'', conv_float, VNone)])),
      (''out_encode'', Member (Encode_Out (\<lambda>now self. wifi_out_encode self))),
      (''out_decode'', Member (Decode (\<lambda>tz len payload. and_then (utf8_decode payload) (\<lambda>s.
        case split_on 44 s of
          [lat, lon] \<Rightarrow> and_then (py_float lat) (\<lambda>la. and_then (py_float lon) (\<lambda>lo.
            Inr (Approx_Body la lo)))
        | _ \<Rightarrow> Inl ValueError))))]"

definition MANUAL_POSITIONING_attrs :: "zx_attrs" where
  "MANUAL_POSITIONING_attrs =
     [(''PROTO'', Member (Proto 0x80)),
      (''in_decode'', Member (Decode (\<lambda>tz len payload. manual_in_decode payload)))]"

definition BATTERY_CHARGE_attrs :: "zx_attrs" where
  "BATTERY_CHARGE_attrs =
     [(''PROTO'', Member (Proto 0x81))]"

definition CHARGER_CONNECTED_attrs :: "zx_attrs" where
  "CHARGER_CONNECTED_attrs =
     [(''PROTO'', Member (Proto 0x82))]"

definition CHARGER_DISCONNECTED_attrs :: "zx_attrs" where
  "CHARGER_DISCONNECTED_attrs =
     [(''PROTO'', Member (Proto 0x83))]"

definition VIBRATION_RECEIVED_attrs :: "zx_attrs" where
  "VIBRATION_RECEIVED_attrs =
     [(''PROTO'', Member (Proto 0x94))]"

definition POSITION_UPLOAD_INTERVAL_attrs :: "zx_attrs" where
  "POSITION_UPLOAD_INTERVAL_attrs =
     [(''PROTO'', Member (Proto 0x98)),
      (''RESPOND'', Member (Responds EXT)),
      (''OUT_KWARGS'', Member (Kwargs [(u ''interval'', conv_int, VInt 10)])),
      (''in_decode'', Member (Decode (\<lambda>tz len payload. 
        if length (take 2 payload) \<noteq> 2 then Inl StructError
        else Inr (Interval_Body [be (take 2 payload)])))),
      (''out_encode'', Member (Encode_Out (\<lambda>now self. pack_attr 2 self (u ''interval''))))]"

definition SOS_ALARM_attrs :: "zx_attrs" where
  "SOS_ALARM_attrs =
     [(''PROTO'', Member (Proto 0x99))]"

definition UNKNOWN_B3_attrs :: "(pyval \<Rightarrow> pystr) \<Rightarrow> zx_attrs" where
  "UNKNOWN_B3_attrs rep =
     [(''PROTO'', Member (Proto 0xB3)),
      (''IN_KWARGS'', Member (Kwargs [(u ''asciidata'', conv_str rep, VStr [])])),
      (''in_decode'', Member (Decode (\<lambda>tz len payload. and_then (utf8_decode payload) (\<lambda>s. Inr (Ascii_Body s)))))]"

section \<open>The classes of the module\<close>

text \<open>The statement of each class: its name, its base, its attributes\<close>

definition zx_ident :: "zx_class \<Rightarrow> string" where
  "zx_ident c = map char_of (zx_name c)"

fun zx_base :: "(pyval \<Rightarrow> pystr) \<Rightarrow> zx_class \<Rightarrow> zx_pyclass" where
  "zx_base rep GPS_POSITIONING = class_base_GPS_POSITIONING"
| "zx_base rep GPS_OFFLINE_POSITIONING = class_base_GPS_POSITIONING"
| "zx_base rep WIFI_OFFLINE_POSITIONING = class_base_WIFI_POSITIONING"
| "zx_base rep REMOTE_MONITOR_PHONE = class_base_SET_PHONE rep"
| "zx_base rep SOS_PHONE = class_base_SET_PHONE rep"
| "zx_base rep DAD_PHONE = class_base_SET_PHONE rep"
| "zx_base rep MOM_PHONE = class_base_SET_PHONE rep"
| "zx_base rep WIFI_POSITIONING = class_base_WIFI_POSITIONING"
| "zx_base rep _ = class_GPS303Pkt"

fun zx_attrs_of :: "(pyval \<Rightarrow> pystr) \<Rightarrow> zx_class \<Rightarrow> zx_attrs" where
  "zx_attrs_of rep UNKNOWN = UNKNOWN_attrs"
| "zx_attrs_of rep LOGIN = LOGIN_attrs rep"
| "zx_attrs_of rep SUPERVISION = SUPERVISION_attrs"
| "zx_attrs_of rep HEARTBEAT = HEARTBEAT_attrs"
| "zx_attrs_of rep GPS_POSITIONING = GPS_POSITIONING_attrs"
| "zx_attrs_of rep GPS_OFFLINE_POSITIONING = GPS_OFFLINE_POSITIONING_attrs"
| "zx_attrs_of rep STATUS = STATUS_attrs"
| "zx_attrs_of rep HIBERNATION = HIBERNATION_attrs"
| "zx_attrs_of rep RESET = RESET_attrs"
| "zx_attrs_of rep WHITELIST_TOTAL = WHITELIST_TOTAL_attrs"
| "zx_attrs_of rep WIFI_OFFLINE_POSITIONING = WIFI_OFFLINE_POSITIONING_attrs"
| "zx_attrs_of rep TIME = TIME_attrs"
| "zx_attrs_of rep PROHIBIT_LBS = PROHIBIT_LBS_attrs"
| "zx_attrs_of rep GPS_LBS_SWITCH_TIMES = GPS_LBS_SWITCH_TIMES_attrs"
| "zx_attrs_of rep REMOTE_MONITOR_PHONE = REMOTE_MONITOR_PHONE_attrs"
| "zx_attrs_of rep SOS_PHONE = SOS_PHONE_attrs"
| "zx_attrs_of rep DAD_PHONE = DAD_PHONE_attrs"
| "zx_attrs_of rep MOM_PHONE = MOM_PHONE_attrs"
| "zx_attrs_of rep STOP_UPLOAD = STOP_UPLOAD_attrs"
| "zx_attrs_of rep GPS_OFF_PERIOD = GPS_OFF_PERIOD_attrs"
| "zx_attrs_of rep DND_PERIOD = DND_PERIOD_attrs"
| "zx_attrs_of rep RESTART_SHUTDOWN = RESTART_SHUTDOWN_attrs"
| "zx_attrs_of rep DEVICE = DEVICE_attrs"
| "zx_attrs_of rep ALARM_CLOCK = ALARM_CLOCK_attrs"
| "zx_attrs_of rep STOP_ALARM = STOP_ALARM_attrs"
| "zx_attrs_of rep SETUP = SETUP_attrs"
| "zx_attrs_of rep SYNCHRONOUS_WHITELIST = SYNCHRONOUS_WHITELIST_attrs"
| "zx_attrs_of rep RESTORE_PASSWORD = RESTORE_PASSWORD_attrs"
| "zx_attrs_of rep WIFI_POSITIONING = WIFI_POSITIONING_attrs"
| "zx_attrs_of rep MANUAL_POSITIONING = MANUAL_POSITIONING_attrs"
| "zx_attrs_of rep BATTERY_CHARGE = BATTERY_CHARGE_attrs"
| "zx_attrs_of rep CHARGER_CONNECTED = CHARGER_CONNECTED_attrs"
| "zx_attrs_of rep CHARGER_DISCONNECTED = CHARGER_DISCONNECTED_attrs"
| "zx_attrs_of rep VIBRATION_RECEIVED = VIBRATION_RECEIVED_attrs"
| "zx_attrs_of rep POSITION_UPLOAD_INTERVAL = POSITION_UPLOAD_INTERVAL_attrs"
| "zx_attrs_of rep SOS_ALARM = SOS_ALARM_attrs"
| "zx_attrs_of rep UNKNOWN_B3 = UNKNOWN_B3_attrs rep"

text \<open>What executing the class statement makes\<close>

definition zx_packet_class :: "(pyval \<Rightarrow> pystr) \<Rightarrow> zx_class \<Rightarrow> zx_member packet_class res" where
  "zx_packet_class rep c = MetaPkt_new (zx_ident c) [zx_base rep c] (zx_attrs_of rep c)"

section \<open>The method resolution orders\<close>

definition zx_roots :: "zx_pyclass list" where
  "zx_roots = class_GPS303Pkt # proto_roots (Kwargs []) Stub"

definition zx_ancestors :: "(pyval \<Rightarrow> pystr) \<Rightarrow> zx_class \<Rightarrow> zx_pyclass list" where
  "zx_ancestors rep c =
     (if cl_name (zx_base rep c) = ''GPS303Pkt'' then zx_roots else zx_base rep c # zx_roots)"

lemmas zx_class_defs = proto_defs class_GPS303Pkt_def class_base_GPS_POSITIONING_def
  class_base_WIFI_POSITIONING_def class_base_SET_PHONE_def proto_roots_def

lemma roots_order: "in_order class_GPS303Pkt zx_roots"
  unfolding zx_roots_def class_GPS303Pkt_def made_class_def
  by (rule mro_single [OF proto_order]) (simp add: proto_roots_def proto_defs)

lemma zx_base_order: "in_order (zx_base rep c) (zx_ancestors rep c)"
proof -
  have "in_order (Py_Class n [class_GPS303Pkt] d) (Py_Class n [class_GPS303Pkt] d # zx_roots)"
    if "n \<in> {''_GPS_POSITIONING'', ''_WIFI_POSITIONING'', ''_SET_PHONE''}" for n d
    by (rule mro_single [OF roots_order]) (use that in \<open>auto simp: zx_roots_def zx_class_defs\<close>)
  then show ?thesis
    using roots_order
    by (cases c) (simp_all add: zx_ancestors_def class_base_GPS_POSITIONING_def
        class_base_WIFI_POSITIONING_def class_base_SET_PHONE_def made_class_def class_GPS303Pkt_def)
qed

lemma zx_ident_fresh:
  "zx_ident c \<notin> cl_name ` set (zx_ancestors rep c)"
  "zx_ident c @ ''.In'' \<notin> cl_name ` set (zx_ancestors rep c)"
  "zx_ident c @ ''.Out'' \<notin> cl_name ` set (zx_ancestors rep c)"
  by (cases c; simp add: zx_ident_def zx_ancestors_def zx_roots_def zx_class_defs)+

section \<open>What the lookup finds\<close>

abbreviation zx_found :: "(pyval \<Rightarrow> pystr) \<Rightarrow> zx_class \<Rightarrow> string \<Rightarrow> zx_member member option" where
  "zx_found rep c \<equiv> found_attr (zx_attrs_of rep c) (zx_ancestors rep c)"

lemmas zx_attrs_defs = UNKNOWN_attrs_def LOGIN_attrs_def SUPERVISION_attrs_def HEARTBEAT_attrs_def
  base_GPS_POSITIONING_attrs_def GPS_POSITIONING_attrs_def GPS_OFFLINE_POSITIONING_attrs_def
  STATUS_attrs_def HIBERNATION_attrs_def RESET_attrs_def WHITELIST_TOTAL_attrs_def
  base_WIFI_POSITIONING_attrs_def WIFI_OFFLINE_POSITIONING_attrs_def TIME_attrs_def
  PROHIBIT_LBS_attrs_def GPS_LBS_SWITCH_TIMES_attrs_def base_SET_PHONE_attrs_def
  REMOTE_MONITOR_PHONE_attrs_def SOS_PHONE_attrs_def DAD_PHONE_attrs_def MOM_PHONE_attrs_def
  STOP_UPLOAD_attrs_def GPS_OFF_PERIOD_attrs_def DND_PERIOD_attrs_def RESTART_SHUTDOWN_attrs_def
  DEVICE_attrs_def ALARM_CLOCK_attrs_def STOP_ALARM_attrs_def SETUP_attrs_def
  SYNCHRONOUS_WHITELIST_attrs_def RESTORE_PASSWORD_attrs_def WIFI_POSITIONING_attrs_def
  MANUAL_POSITIONING_attrs_def BATTERY_CHARGE_attrs_def CHARGER_CONNECTED_attrs_def
  CHARGER_DISCONNECTED_attrs_def VIBRATION_RECEIVED_attrs_def POSITION_UPLOAD_INTERVAL_attrs_def
  SOS_ALARM_attrs_def UNKNOWN_B3_attrs_def

lemmas zx_found_defs = found_attr_def zx_ancestors_def zx_roots_def zx_class_defs zx_attrs_defs
  GPS303Pkt_attrs_def

lemma zx_found_PROTO: "zx_found rep c ''PROTO'' = Some (Member (Proto (zx_PROTO c)))"
  by (cases c) (simp_all add: found_attr_def zx_attrs_defs)

lemma zx_found_RESPOND: "zx_found rep c ''RESPOND'' = Some (Member (Responds (zx_RESPOND c)))"
  by (cases c) (simp_all add: zx_found_defs)

lemma zx_found_OUT_KWARGS: "zx_found rep c ''OUT_KWARGS'' = Some (Member (Kwargs (zx_OUT_KWARGS rep c)))"
  by (cases c) (simp_all add: zx_found_defs)

lemma zx_found_in_decode: "zx_found rep c ''in_decode'' = Some (Member (Decode (\<lambda>tz. zx_in_decode tz c)))"
  by (cases c) (simp_all add: zx_found_defs fun_eq_iff)

lemma zx_found_out_decode:
  "zx_found rep c ''out_decode'' = Some (Member (Decode (\<lambda>tz len. zx_out_decode c)))"
  by (cases c) (simp_all add: zx_found_defs fun_eq_iff)

lemma zx_found_out_encode:
  "zx_found rep c ''out_encode'' = Some (Member (Encode_Out (\<lambda>now. zx_out_encode now c)))"
  by (cases c) (simp_all add: zx_found_defs fun_eq_iff)

lemma zx_found_proto_name:
  "zx_found rep c ''proto_name'' = Some (Member (Proto_Name (\<lambda>name. take 16 (ZX_PREFIX @ name))))"
  by (cases c) (simp_all add: zx_found_defs)

lemma zx_found_rectified: "(\<exists>v. zx_found rep c ''rectified'' = Some v) \<longleftrightarrow> zx_has_rectified c"
  by (cases c) (simp_all add: zx_found_defs)

lemma zx_found_in_encode: "\<exists>f. zx_found rep c ''in_encode'' = Some (Member (Encode_In f))"
  by (cases c) (simp_all add: zx_found_defs)

lemma zx_found_IN_KWARGS: "\<exists>s. zx_found rep c ''IN_KWARGS'' = Some (Member (Kwargs s))"
  by (cases c) (simp_all add: zx_found_defs)

interpretation zxc: class_statements zx_ident "zx_base rep" "zx_attrs_of rep" "zx_ancestors rep" for rep
  by unfold_locales (rule zx_base_order zx_ident_fresh)+

definition zx_newcls :: "(pyval \<Rightarrow> pystr) \<Rightarrow> zx_class \<Rightarrow> zx_pyclass" where
  "zx_newcls rep c = made_class (zx_ident c) [zx_base rep c] (zx_attrs_of rep c)"

lemmas zx_newcls_get = zxc.newcls_get [folded zx_newcls_def]

abbreviation zx_nested :: "(pyval \<Rightarrow> pystr) \<Rightarrow> zx_class \<Rightarrow> string \<Rightarrow> zx_attrs \<Rightarrow> zx_pyclass \<Rightarrow> bool" where
  "zx_nested rep c sfx \<equiv> nested_class (zx_newcls rep c) (zx_ancestors rep c) (zx_ident c @ sfx)"

lemmas zx_nested_facts = zxc.nested_get [folded zx_newcls_def] zxc.nested_own [folded zx_newcls_def]
  zxc.nested_Out [folded zx_newcls_def] zxc.nested_has [folded zx_newcls_def]

lemma zx_made:
  obtains pc ik ie where "zx_packet_class rep c = Inr pc" and "pc_newcls pc = zx_newcls rep c"
    and "zx_found rep c ''in_encode'' = Some (Member (Encode_In ie))"
    and "zx_nested rep c ''.In'' [(''KWARGS'', Member (Kwargs ik)),
      (''decode'', Member (Decode (\<lambda>tz. zx_in_decode tz c))), (''encode'', Member (Encode_In ie))] (pc_In pc)"
    and "zx_nested rep c ''.Out'' [(''KWARGS'', Member (Kwargs (zx_OUT_KWARGS rep c))),
      (''decode'', Member (Decode (\<lambda>tz len. zx_out_decode c))),
      (''encode'', Member (Encode_Out (\<lambda>now. zx_out_encode now c)))] (pc_Out pc)"
proof -
  obtain ik where ik: "zx_found rep c ''IN_KWARGS'' = Some (Member (Kwargs ik))"
    using zx_found_IN_KWARGS by blast
  obtain ie where ie: "zx_found rep c ''in_encode'' = Some (Member (Encode_In ie))"
    using zx_found_in_encode by blast
  from zxc.made [OF ik zx_found_in_decode ie zx_found_OUT_KWARGS zx_found_out_decode zx_found_out_encode]
  show thesis using that ie unfolding zx_packet_class_def zx_newcls_def by metis
qed

section \<open>The tables of the module\<close>

text \<open>
  The classes among the names of the module, in the order of their statements, with the imported
  \<open>ProtoClass\<close>; what else is there is no class derived from \<open>GPS303Pkt\<close>. Those are registered
  that have a name without an underscore and a protocol number, inherited ones included.
\<close>

definition zx_globals :: "(pyval \<Rightarrow> pystr) \<Rightarrow> zx_pyclass list" where
  "zx_globals rep = [zx_ProtoClass, class_GPS303Pkt] @
     map (zx_newcls rep) [UNKNOWN, LOGIN, SUPERVISION, HEARTBEAT] @ [class_base_GPS_POSITIONING] @
     map (zx_newcls rep) [GPS_POSITIONING, GPS_OFFLINE_POSITIONING, STATUS, HIBERNATION, RESET,
       WHITELIST_TOTAL] @ [class_base_WIFI_POSITIONING] @
     map (zx_newcls rep) [WIFI_OFFLINE_POSITIONING, TIME, PROHIBIT_LBS, GPS_LBS_SWITCH_TIMES] @
     [class_base_SET_PHONE rep] @
     map (zx_newcls rep) [REMOTE_MONITOR_PHONE, SOS_PHONE, DAD_PHONE, MOM_PHONE, STOP_UPLOAD,
       GPS_OFF_PERIOD, DND_PERIOD, RESTART_SHUTDOWN, DEVICE, ALARM_CLOCK, STOP_ALARM, SETUP,
       SYNCHRONOUS_WHITELIST, RESTORE_PASSWORD, WIFI_POSITIONING, MANUAL_POSITIONING, BATTERY_CHARGE,
       CHARGER_CONNECTED, CHARGER_DISCONNECTED, VIBRATION_RECEIVED, POSITION_UPLOAD_INTERVAL, SOS_ALARM,
       UNKNOWN_B3]"

definition zx_registers :: "zx_pyclass \<Rightarrow> bool" where
  "zx_registers c \<longleftrightarrow> py_issubclass c ''GPS303Pkt'' \<and> take 1 (cl_name c) \<noteq> ''_'' \<and> returns (class_get c ''PROTO'')"

definition zx_registered :: "(pyval \<Rightarrow> pystr) \<Rightarrow> zx_pyclass list" where
  "zx_registered rep = filter zx_registers (zx_globals rep)"

lemma zx_ident_no_underscore: "take 1 (zx_ident c) \<noteq> ''_''"
  by (cases c) (simp_all add: zx_ident_def char_of_eq_iff)

lemma zx_newcls_registers: "zx_registers (zx_newcls rep c)"
proof -
  have "in_order (zx_newcls rep c) (zx_newcls rep c # zx_ancestors rep c)"
    unfolding zx_newcls_def by (rule zxc.newcls_order)
  moreover have "''GPS303Pkt'' \<in> cl_name ` set (zx_ancestors rep c)"
    by (simp add: zx_ancestors_def zx_roots_def zx_class_defs)
  ultimately show ?thesis
    using zx_newcls_get [OF zx_found_PROTO, of rep c] zx_ident_no_underscore [of c]
    by (simp add: zx_registers_def in_order_def) (simp add: zx_newcls_def made_class_def)
qed

lemma zx_others_not:
  "\<not> zx_registers zx_ProtoClass" "\<not> zx_registers class_GPS303Pkt"
  "\<not> zx_registers class_base_GPS_POSITIONING" "\<not> zx_registers class_base_WIFI_POSITIONING"
  "\<not> zx_registers (class_base_SET_PHONE rep)"
proof -
  show "\<not> zx_registers zx_ProtoClass"
    using proto_order [of "Kwargs []" Stub]
    by (simp add: zx_registers_def in_order_def) (simp add: proto_roots_def proto_defs)
  show "\<not> zx_registers class_GPS303Pkt"
    using roots_order
    by (simp add: zx_registers_def class_get_def in_order_def)
      (simp add: attr_found_def zx_roots_def zx_class_defs GPS303Pkt_attrs_def MetaPkt_dict_def)
qed (simp_all add: zx_registers_def zx_class_defs)

lemma zx_registered_eq: "zx_registered rep = map (zx_newcls rep) zx_all"
  by (simp add: zx_registered_def zx_globals_def zx_others_not zx_newcls_registers zx_all_def)

section \<open>Messages through their classes\<close>

text \<open>
  The body that an object of a class has: that of its decoder, and nothing for the classes that decode
  nothing. \<open>cls.In(...).packed\<close> through the attributes of the class.
\<close>

fun zx_body_of :: "zx_class \<Rightarrow> zx_body \<Rightarrow> bool" where
  "zx_body_of LOGIN body = (\<exists>i v. body = Login_Body i v)"
| "zx_body_of STATUS body = (\<exists>s. body = Status_Body s)"
| "zx_body_of WIFI_POSITIONING body = (\<exists>w. body = Wifi_Body w)"
| "zx_body_of WIFI_OFFLINE_POSITIONING body = (\<exists>w. body = Wifi_Body w)"
| "zx_body_of HIBERNATION body = (body = No_Body)"
| "zx_body_of SETUP body = (body = No_Body)"
| "zx_body_of _ body = True"

definition packed_by_class :: "zx_pyclass \<Rightarrow> zx_body \<Rightarrow> bytes res" where
  "packed_by_class cls body =
     and_then (instance_get cls ''encode'') (\<lambda>m. case m of
         Member (Encode_In f) \<Rightarrow> and_then (f body) (\<lambda>(len, payload).
           and_then (instance_get cls ''PROTO'') (\<lambda>p. case p of
               Member (Proto n) \<Rightarrow>
                 and_then (pack_uint 1 (case len of Some n \<Rightarrow> n | None \<Rightarrow> int (length payload) + 1)) (\<lambda>l.
                 and_then (pack_uint 1 n) (\<lambda>b. Inr (l @ b @ payload)))
             | _ \<Rightarrow> Inl StructError))
       | _ \<Rightarrow> Inl TypeError)"

lemma zx_in_encode_packed:
  assumes "zx_found rep c ''in_encode'' = Some (Member (Encode_In f))" and "zx_body_of c body"
  shows "zx_In_packed c body = and_then (f body) (\<lambda>(len, payload). zx_packed len c payload)"
  using assms
  by (cases c) (auto simp: zx_found_defs zx_In_packed_def and_then_assoc split: zx_body.split)

section \<open>Properties\<close>

text \<open>
  C12: The message classes are what the rest of the model says. Each class statement of the module is
  accepted by the metaclass; in the classes it makes, attribute lookup finds the protocol number, the
  response kind and the name of the tables, in \<open>Out\<close> the keyword arguments and the encoder that belong to
  the class, whether it has them itself or inherits them, and in each of \<open>In\<close> and \<open>Out\<close> the right one
  of the two decoders; a report can be made of exactly the messages that are exposed; and a message
  that was received knows the class of the response to it: its own class's \<open>Out\<close>, not that of a base.
\<close>

theorem zx_classes_resolved:
  "\<exists>pc. zx_packet_class rep c = Inr pc \<and>
     class_get (pc_newcls pc) ''PROTO'' = Inr (Member (Proto (zx_PROTO c))) \<and>
     class_get (pc_newcls pc) ''RESPOND'' = Inr (Member (Responds (zx_RESPOND c))) \<and>
     instance_get (pc_Out pc) ''PROTO'' = Inr (Member (Proto (zx_PROTO c))) \<and>
     instance_get (pc_Out pc) ''KWARGS'' = Inr (Member (Kwargs (zx_OUT_KWARGS rep c))) \<and>
     instance_get (pc_Out pc) ''encode'' = Inr (Member (Encode_Out (\<lambda>now. zx_out_encode now c))) \<and>
     instance_get (pc_Out pc) ''decode'' = Inr (Member (Decode (\<lambda>tz len. zx_out_decode c))) \<and>
     instance_get (pc_In pc) ''decode'' = Inr (Member (Decode (\<lambda>tz. zx_in_decode tz c))) \<and>
     instance_get (pc_In pc) ''Out'' = Inr (Nested (zx_ident c @ ''.Out'')) \<and>
     (returns (instance_get (pc_In pc) ''rectified'') \<longleftrightarrow> zx_has_rectified c)"
proof -
  obtain pc ik ie where pc: "zx_packet_class rep c = Inr pc" "pc_newcls pc = zx_newcls rep c"
    and i: "zx_nested rep c ''.In'' [(''KWARGS'', Member (Kwargs ik)),
      (''decode'', Member (Decode (\<lambda>tz. zx_in_decode tz c))), (''encode'', Member (Encode_In ie))] (pc_In pc)"
    and t: "zx_nested rep c ''.Out'' [(''KWARGS'', Member (Kwargs (zx_OUT_KWARGS rep c))),
      (''decode'', Member (Decode (\<lambda>tz len. zx_out_decode c))),
      (''encode'', Member (Encode_Out (\<lambda>now. zx_out_encode now c)))] (pc_Out pc)"
    by (rule zx_made [of rep c])
  show ?thesis
    using pc zx_newcls_get [OF zx_found_PROTO] zx_newcls_get [OF zx_found_RESPOND] zx_found_rectified [of rep c]
      zx_nested_facts(1) [OF t _ zx_found_PROTO] zx_nested_facts(2) [OF t] zx_nested_facts(2) [OF i]
      zx_nested_facts(3) [OF i] zx_nested_facts(4) [OF i]
    by simp
qed

text \<open>
  What a terminal sends is what its class encodes: the length, the number and the payload that lookup
  through \<open>In\<close> finds; where no encoder overrides the inherited one, it is the exception.
\<close>

theorem zx_In_packed_resolved:
  assumes "zx_packet_class rep c = Inr pc" and "zx_body_of c body"
  shows "packed_by_class (pc_In pc) body = zx_In_packed c body"
proof -
  obtain pc' ik ie where pc: "zx_packet_class rep c = Inr pc'"
    and ie: "zx_found rep c ''in_encode'' = Some (Member (Encode_In ie))"
    and i: "zx_nested rep c ''.In'' [(''KWARGS'', Member (Kwargs ik)),
      (''decode'', Member (Decode (\<lambda>tz. zx_in_decode tz c))), (''encode'', Member (Encode_In ie))] (pc_In pc')"
    by (rule zx_made [of rep c])
  from zx_in_encode_packed [OF ie assms(2)] assms(1) pc zx_nested_facts(2) [OF i, of "''encode''"]
    zx_nested_facts(1) [OF i _ zx_found_PROTO]
  show ?thesis by (simp add: packed_by_class_def zx_packed_def)
qed

theorem zx_In_packed_resolved_witness:
  "\<exists>pc. zx_packet_class (\<lambda>v. []) STATUS = Inr pc \<and>
     packed_by_class (pc_In pc) (Status_Body \<lparr>s_batt = 80, s_ver = 1, s_timezone = 0, s_intvl = 5, s_signal = None\<rparr>) =
       Inr [5, 0x13, 80, 1, 0, 5]"
proof -
  obtain pc where pc: "zx_packet_class (\<lambda>v. []) STATUS = Inr pc" by (rule zx_made [of "\<lambda>v. []" STATUS])
  let ?s = "\<lparr>s_batt = 80, s_ver = 1, s_timezone = 0, s_intvl = 5, s_signal = None\<rparr>"
  have "zx_In_packed STATUS (Status_Body ?s) = Inr [5, 0x13, 80, 1, 0, 5]"
    by (simp add: zx_In_packed_def status_in_encode_def zx_packed_def pack_uint_def)
  with zx_In_packed_resolved [OF pc, of "Status_Body ?s"] pc show ?thesis by simp
qed

text \<open>
  The loop over the module's names registers the message classes in the order of the model, each
  under its number: the private base classes are passed over for their names, and \<open>GPS303Pkt\<close>, which
  only announces a number, because it has none.
\<close>

theorem zx_tables_registered:
  "map cl_name (zx_registered rep) = map zx_ident zx_all \<and>
   map (\<lambda>c. class_get c ''PROTO'') (zx_registered rep) = map (\<lambda>c. Inr (Member (Proto (zx_PROTO c)))) zx_all"
  using zx_newcls_get [OF zx_found_PROTO]
  by (simp add: zx_registered_eq) (simp add: zx_newcls_def made_class_def)

end
