(* ===== verification/BS_Hierarchy.thy ===== *)
theory BS_Hierarchy
  imports Pyclass BS_Proto
begin

text \<open>
  The class statements of \<open>loctrkd/beesure.py\<close>, one definition each, as Python executes them, and what
  attribute lookup finds in the classes that the metaclass makes of them: the tables \<open>bs_PROTO\<close>,
  \<open>bs_RESPOND\<close>, \<open>bs_BINARY\<close>, \<open>bs_OUT_KWARGS\<close>, \<open>bs_in_decode\<close>, \<open>bs_out_encode\<close> of the other theories. \<open>__init__\<close>,
  \<open>__repr__\<close> and \<open>packed\<close>, which no class overrides, are not among the attributes here.
\<close>

section \<open>Values of class attributes\<close>

text \<open>\<open>PROTO\<close> is a \<open>classproperty\<close>: a function of the name of the class it is asked of.\<close>

datatype bs_member =
    B_Binary bool
  | B_Responds respond
  | B_Kwargs kwspec
  | B_Decode "bs_payload \<Rightarrow> bs_body res"
  | B_Encode_In "pystr res"
  | B_Encode_Out "attrs \<Rightarrow> pystr res"
  | B_Rectify "loc_data \<Rightarrow> report"
  | B_Proto "pystr \<Rightarrow> pystr"
  | B_Stub

type_synonym bs_attrs = "(string \<times> bs_member member) list"
type_synonym bs_pyclass = "bs_member pyclass"

section \<open>Methods with more than a line\<close>

text \<open>The name without a suffix: unpacking into two fails where there is not exactly one dot.\<close>

definition proto_of_name :: "pystr \<Rightarrow> pystr" where
  "proto_of_name name = (case split_on 46 name of [proto, _] \<Rightarrow> proto | _ \<Rightarrow> name)"

text \<open>
  Bytes instead of text fields end in an attribute that was not set; \<open>LK\<close> and the classes without a
  decoder are never given any that they would look at.
\<close>

fun LOC_DATA_in_decode :: "bs_payload \<Rightarrow> bs_body res" where
  "LOC_DATA_in_decode (Fields args) = and_then (loc_in_decode args) (\<lambda>l. Inr (Loc_Attrs l))"
| "LOC_DATA_in_decode (Raw b) = Inl AttributeError"

fun LK_in_decode :: "bs_payload \<Rightarrow> bs_body res" where
  "LK_in_decode (Fields args) = Inr (Lk_Attrs (lk_in_decode args))"
| "LK_in_decode (Raw b) = Inr No_Attrs"

fun TK_in_decode :: "bs_payload \<Rightarrow> bs_body res" where
  "TK_in_decode (Fields args) = Inl AssertionError"
| "TK_in_decode (Raw b) = Inr (Tk_Attrs (tk_unescape b))"

section \<open>The base class\<close>

abbreviation bs_ProtoClass :: bs_pyclass where
  "bs_ProtoClass \<equiv> class_ProtoClass (B_Kwargs []) B_Stub"

definition bs_BeeSurePkt_attrs :: bs_attrs where
  "bs_BeeSurePkt_attrs =
     [(''BINARY'', Member (B_Binary False)),
      (''RESPOND'', Member (B_Responds NON)),
      (''IN_KWARGS'', Member (B_Kwargs [])),
      (''OUT_KWARGS'', Member (B_Kwargs [])),
      (''KWARGS'', Member (B_Kwargs [])),
      (''decode'', Member B_Stub),
      (''in_decode'', Member (B_Decode (\<lambda>args. Inr No_Attrs))),
      (''out_decode'', Member (B_Decode (\<lambda>args. Inr No_Attrs))),
      (''encode'', Member B_Stub),
      (''in_encode'', Member (B_Encode_In (Inl NotImplementedError))),
      (''out_encode'', Member (B_Encode_Out (\<lambda>self. Inr []))),
      (''PROTO'', Member (B_Proto proto_of_name)),
      (''proto_name'', Member (B_Proto (\<lambda>name. BS_PREFIX @ take 16 (proto_of_name name))))]"

definition class_BeeSurePkt :: bs_pyclass where
  "class_BeeSurePkt = made_class ''BeeSurePkt'' [bs_ProtoClass] bs_BeeSurePkt_attrs"

section \<open>The message classes\<close>

definition bs_UNKNOWN_attrs :: bs_attrs where
  "bs_UNKNOWN_attrs = []"

definition bs_base_SET_PHONE_attrs :: "(pyval \<Rightarrow> pystr) \<Rightarrow> bs_attrs" where
  "bs_base_SET_PHONE_attrs rep =
     [(''OUT_KWARGS'', Member (B_Kwargs [(u ''phonenumber'', conv_str rep, VStr [])])),
      (''out_encode'', Member (B_Encode_Out (\<lambda>self. str_attr self (u ''phonenumber''))))]"

definition class_bs_base_SET_PHONE :: "(pyval \<Rightarrow> pystr) \<Rightarrow> bs_pyclass" where
  "class_bs_base_SET_PHONE rep = made_class ''_SET_PHONE'' [class_BeeSurePkt] (bs_base_SET_PHONE_attrs rep)"

definition bs_base_LOC_DATA_attrs :: "bs_attrs" where
  "bs_base_LOC_DATA_attrs =
     [(''in_decode'', Member (B_Decode LOC_DATA_in_decode)),
      (''rectified'', Member (B_Rectify loc_rectified))]"

definition class_bs_base_LOC_DATA :: "bs_pyclass" where
  "class_bs_base_LOC_DATA = made_class ''_LOC_DATA'' [class_BeeSurePkt] (bs_base_LOC_DATA_attrs)"

definition bs_AL_attrs :: "bs_attrs" where
  "bs_AL_attrs =
     [(''RESPOND'', Member (B_Responds INL))]"

definition bs_CALL_attrs :: bs_attrs where
  "bs_CALL_attrs = []"

definition bs_CENTER_attrs :: bs_attrs where
  "bs_CENTER_attrs = []"

definition bs_CONFIG_attrs :: bs_attrs where
  "bs_CONFIG_attrs = []"

definition bs_CR_attrs :: bs_attrs where
  "bs_CR_attrs = []"

definition bs_FIND_attrs :: bs_attrs where
  "bs_FIND_attrs = []"

definition bs_FLOWER_attrs :: "bs_attrs" where
  "bs_FLOWER_attrs =
     [(''OUT_KWARGS'', Member (B_Kwargs [(u ''number'', conv_int, VInt 1)])),
      (''out_encode'', Member (B_Encode_Out (\<lambda>self. str_attr self (u ''number''))))]"

definition bs_ICCID_attrs :: bs_attrs where
  "bs_ICCID_attrs = []"

definition bs_LK_attrs :: "bs_attrs" where
  "bs_LK_attrs =
     [(''RESPOND'', Member (B_Responds INL)),
      (''in_decode'', Member (B_Decode LK_in_decode)),
      (''in_encode'', Member (B_Encode_In (Inr (u ''LK''))))]"

definition bs_LZ_attrs :: "bs_attrs" where
  "bs_LZ_attrs =
     [(''OUT_KWARGS'', Member (B_Kwargs
        [(u ''language'', conv_int, VInt 1),
         (u ''timezone'', conv_int, VInt 0)])),
      (''out_encode'', Member (B_Encode_Out (\<lambda>self. and_then (str_attr self (u ''language'')) (\<lambda>l.
        and_then (str_attr self (u ''timezone'')) (\<lambda>t. Inr (l @ [44] @ t))))))]"

definition bs_MESSAGE_attrs :: "(pyval \<Rightarrow> pystr) \<Rightarrow> bs_attrs" where
  "bs_MESSAGE_attrs rep =
     [(''OUT_KWARGS'', Member (B_Kwargs [(u ''message'', conv_str rep, VStr [])])),
      (''out_encode'', Member (B_Encode_Out (\<lambda>self. and_then (str_attr self (u ''message'')) utf16_hex)))]"

definition bs_MONITOR_attrs :: bs_attrs where
  "bs_MONITOR_attrs = []"

definition bs_base_PHB_attrs :: "bs_attrs" where
  "bs_base_PHB_attrs =
     [(''OUT_KWARGS'', Member (B_Kwargs [(u ''entries'', pblist, VList [])])),
      (''out_encode'', Member (B_Encode_Out (\<lambda>self. phb_out_encode self)))]"

definition class_bs_base_PHB :: "bs_pyclass" where
  "class_bs_base_PHB = made_class ''_PHB'' [class_BeeSurePkt] (bs_base_PHB_attrs)"

definition bs_PHB_attrs :: bs_attrs where
  "bs_PHB_attrs = []"

definition bs_PHB2_attrs :: bs_attrs where
  "bs_PHB2_attrs = []"

definition bs_POWEROFF_attrs :: bs_attrs where
  "bs_POWEROFF_attrs = []"

definition bs_RESET_attrs :: bs_attrs where
  "bs_RESET_attrs = []"

definition bs_SOS_attrs :: "bs_attrs" where
  "bs_SOS_attrs =
     [(''OUT_KWARGS'', Member (B_Kwargs [(u ''phonenumbers'', l3str, VList [VStr [], VStr [], VStr []])])),
      (''out_encode'', Member (B_Encode_Out (\<lambda>self. sos_out_encode self)))]"

definition bs_SOS1_attrs :: bs_attrs where
  "bs_SOS1_attrs = []"

definition bs_SOS2_attrs :: bs_attrs where
  "bs_SOS2_attrs = []"

definition bs_SOS3_attrs :: bs_attrs where
  "bs_SOS3_attrs = []"

definition bs_TK_attrs :: "bs_attrs" where
  "bs_TK_attrs =
     [(''BINARY'', Member (B_Binary True)),
      (''RESPOND'', Member (B_Responds INL)),
      (''in_decode'', Member (B_Decode TK_in_decode)),
      (''out_encode'', Member (B_Encode_Out (\<lambda>self. Inr (u ''1''))))]"

definition bs_TKQ_attrs :: "bs_attrs" where
  "bs_TKQ_attrs =
     [(''RESPOND'', Member (B_Responds INL))]"

definition bs_TKQ2_attrs :: "bs_attrs" where
  "bs_TKQ2_attrs =
     [(''RESPOND'', Member (B_Responds INL))]"

definition bs_UD_attrs :: bs_attrs where
  "bs_UD_attrs = []"

definition bs_UD2_attrs :: bs_attrs where
  "bs_UD2_attrs = []"

definition bs_UPLOAD_attrs :: "bs_attrs" where
  "bs_UPLOAD_attrs =
     [(''OUT_KWARGS'', Member (B_Kwargs [(u ''interval'', conv_int, VInt 600)])),
      (''out_encode'', Member (B_Encode_Out (\<lambda>self. str_attr self (u ''interval''))))]"

section \<open>The classes of the module\<close>

text \<open>The statement of each class: its name, its base, its attributes\<close>

fun bs_ident :: "bs_class \<Rightarrow> string" where
  "bs_ident BeeSurePkt = ''BeeSurePkt''"
| "bs_ident UNKNOWN = ''UNKNOWN''"
| "bs_ident AL = ''AL''"
| "bs_ident CALL = ''CALL''"
| "bs_ident CENTER = ''CENTER''"
| "bs_ident CONFIG = ''CONFIG''"
| "bs_ident CR = ''CR''"
| "bs_ident FIND = ''FIND''"
| "bs_ident FLOWER = ''FLOWER''"
| "bs_ident ICCID = ''ICCID''"
| "bs_ident LK = ''LK''"
| "bs_ident LZ = ''LZ''"
| "bs_ident MESSAGE = ''MESSAGE''"
| "bs_ident MONITOR = ''MONITOR''"
| "bs_ident PHB = ''PHB''"
| "bs_ident PHB2 = ''PHB2''"
| "bs_ident POWEROFF = ''POWEROFF''"
| "bs_ident RESET = ''RESET''"
| "bs_ident SOS = ''SOS''"
| "bs_ident SOS1 = ''SOS1''"
| "bs_ident SOS2 = ''SOS2''"
| "bs_ident SOS3 = ''SOS3''"
| "bs_ident TK = ''TK''"
| "bs_ident TKQ = ''TKQ''"
| "bs_ident TKQ2 = ''TKQ2''"
| "bs_ident UD = ''UD''"
| "bs_ident UD2 = ''UD2''"
| "bs_ident UPLOAD = ''UPLOAD''"

fun bs_base :: "(pyval \<Rightarrow> pystr) \<Rightarrow> bs_class \<Rightarrow> bs_pyclass" where
  "bs_base rep BeeSurePkt = bs_ProtoClass"
| "bs_base rep AL = class_bs_base_LOC_DATA"
| "bs_base rep CALL = class_bs_base_SET_PHONE rep"
| "bs_base rep CENTER = class_bs_base_SET_PHONE rep"
| "bs_base rep PHB = class_bs_base_PHB"
| "bs_base rep PHB2 = class_bs_base_PHB"
| "bs_base rep SOS1 = class_bs_base_SET_PHONE rep"
| "bs_base rep SOS2 = class_bs_base_SET_PHONE rep"
| "bs_base rep SOS3 = class_bs_base_SET_PHONE rep"
| "bs_base rep UD = class_bs_base_LOC_DATA"
| "bs_base rep UD2 = class_bs_base_LOC_DATA"
| "bs_base rep _ = class_BeeSurePkt"

fun bs_attrs_of :: "(pyval \<Rightarrow> pystr) \<Rightarrow> bs_class \<Rightarrow> bs_attrs" where
  "bs_attrs_of rep BeeSurePkt = bs_BeeSurePkt_attrs"
| "bs_attrs_of rep UNKNOWN = bs_UNKNOWN_attrs"
| "bs_attrs_of rep AL = bs_AL_attrs"
| "bs_attrs_of rep CALL = bs_CALL_attrs"
| "bs_attrs_of rep CENTER = bs_CENTER_attrs"
| "bs_attrs_of rep CONFIG = bs_CONFIG_attrs"
| "bs_attrs_of rep CR = bs_CR_attrs"
| "bs_attrs_of rep FIND = bs_FIND_attrs"
| "bs_attrs_of rep FLOWER = bs_FLOWER_attrs"
| "bs_attrs_of rep ICCID = bs_ICCID_attrs"
| "bs_attrs_of rep LK = bs_LK_attrs"
| "bs_attrs_of rep LZ = bs_LZ_attrs"
| "bs_attrs_of rep MESSAGE = bs_MESSAGE_attrs rep"
| "bs_attrs_of rep MONITOR = bs_MONITOR_attrs"
| "bs_attrs_of rep PHB = bs_PHB_attrs"
| "bs_attrs_of rep PHB2 = bs_PHB2_attrs"
| "bs_attrs_of rep POWEROFF = bs_POWEROFF_attrs"
| "bs_attrs_of rep RESET = bs_RESET_attrs"
| "bs_attrs_of rep SOS = bs_SOS_attrs"
| "bs_attrs_of rep SOS1 = bs_SOS1_attrs"
| "bs_attrs_of rep SOS2 = bs_SOS2_attrs"
| "bs_attrs_of rep SOS3 = bs_SOS3_attrs"
| "bs_attrs_of rep TK = bs_TK_attrs"
| "bs_attrs_of rep TKQ = bs_TKQ_attrs"
| "bs_attrs_of rep TKQ2 = bs_TKQ2_attrs"
| "bs_attrs_of rep UD = bs_UD_attrs"
| "bs_attrs_of rep UD2 = bs_UD2_attrs"
| "bs_attrs_of rep UPLOAD = bs_UPLOAD_attrs"

text \<open>What executing the class statement makes\<close>

definition bs_packet_class :: "(pyval \<Rightarrow> pystr) \<Rightarrow> bs_class \<Rightarrow> bs_member packet_class res" where
  "bs_packet_class rep c = MetaPkt_new (bs_ident c) [bs_base rep c] (bs_attrs_of rep c)"

section \<open>The method resolution orders\<close>

definition bs_BeeSurePkt_order :: "bs_pyclass list" where
  "bs_BeeSurePkt_order = class_BeeSurePkt # proto_roots (B_Kwargs []) B_Stub"

fun bs_ancestors :: "(pyval \<Rightarrow> pystr) \<Rightarrow> bs_class \<Rightarrow> bs_pyclass list" where
  "bs_ancestors rep BeeSurePkt = proto_roots (B_Kwargs []) B_Stub"
| "bs_ancestors rep AL = bs_base rep AL # bs_BeeSurePkt_order"
| "bs_ancestors rep CALL = bs_base rep CALL # bs_BeeSurePkt_order"
| "bs_ancestors rep CENTER = bs_base rep CENTER # bs_BeeSurePkt_order"
| "bs_ancestors rep PHB = bs_base rep PHB # bs_BeeSurePkt_order"
| "bs_ancestors rep PHB2 = bs_base rep PHB2 # bs_BeeSurePkt_order"
| "bs_ancestors rep SOS1 = bs_base rep SOS1 # bs_BeeSurePkt_order"
| "bs_ancestors rep SOS2 = bs_base rep SOS2 # bs_BeeSurePkt_order"
| "bs_ancestors rep SOS3 = bs_base rep SOS3 # bs_BeeSurePkt_order"
| "bs_ancestors rep UD = bs_base rep UD # bs_BeeSurePkt_order"
| "bs_ancestors rep UD2 = bs_base rep UD2 # bs_BeeSurePkt_order"
| "bs_ancestors rep _ = bs_BeeSurePkt_order"

lemmas bs_class_defs = proto_defs class_BeeSurePkt_def class_bs_base_SET_PHONE_def
  class_bs_base_LOC_DATA_def class_bs_base_PHB_def proto_roots_def

lemma bs_roots_order: "in_order class_BeeSurePkt bs_BeeSurePkt_order"
  unfolding class_BeeSurePkt_def made_class_def bs_BeeSurePkt_order_def
  by (rule mro_single [OF proto_order]) (simp add: proto_roots_def proto_defs)

lemma bs_base_order: "in_order (bs_base rep c) (bs_ancestors rep c)"
proof -
  have d: "in_order (made_class n [class_BeeSurePkt] d) (made_class n [class_BeeSurePkt] d # bs_BeeSurePkt_order)"
    if "n \<in> {''_SET_PHONE'', ''_LOC_DATA'', ''_PHB''}" for n d
    unfolding made_class_def
    by (rule mro_single [OF bs_roots_order]) (use that in \<open>auto simp: bs_BeeSurePkt_order_def bs_class_defs\<close>)
  note base = class_bs_base_SET_PHONE_def class_bs_base_LOC_DATA_def class_bs_base_PHB_def
  show ?thesis
    by (cases c) (simp_all add: base d bs_roots_order proto_order)
qed

lemma bs_ancestor_names:
  "cl_name ` set (bs_ancestors rep c) \<subseteq>
    {''_SET_PHONE'', ''_LOC_DATA'', ''_PHB'', ''BeeSurePkt'', ''ProtoClass'', ''Protocol'', ''Generic'', ''object''}"
  "''BeeSurePkt'' \<in> cl_name ` set (bs_ancestors rep c) \<longleftrightarrow> c \<noteq> BeeSurePkt"
  by (cases c; simp add: bs_BeeSurePkt_order_def bs_class_defs)+

lemma bs_ident_fresh:
  "bs_ident c \<notin> cl_name ` set (bs_ancestors rep c)"
  "bs_ident c @ ''.In'' \<notin> cl_name ` set (bs_ancestors rep c)"
  "bs_ident c @ ''.Out'' \<notin> cl_name ` set (bs_ancestors rep c)"
proof -
  show "bs_ident c \<notin> cl_name ` set (bs_ancestors rep c)"
  proof (cases "c = BeeSurePkt")
    case True
    then show ?thesis using bs_ancestor_names(2) [of rep c] by simp
  next
    case False
    then have "bs_ident c \<notin> {''_SET_PHONE'', ''_LOC_DATA'', ''_PHB'', ''BeeSurePkt'', ''ProtoClass'', ''Protocol'',
      ''Generic'', ''object''}" by (cases c) simp_all
    with bs_ancestor_names(1) [of rep c] show ?thesis by blast
  qed
  have "x \<notin> {''_SET_PHONE'', ''_LOC_DATA'', ''_PHB'', ''BeeSurePkt'', ''ProtoClass'', ''Protocol'', ''Generic'', ''object''}"
    if "CHR ''.'' \<in> set x" for x
    using that by auto
  with bs_ancestor_names(1) [of rep c]
  show "bs_ident c @ ''.In'' \<notin> cl_name ` set (bs_ancestors rep c)"
    "bs_ident c @ ''.Out'' \<notin> cl_name ` set (bs_ancestors rep c)" by fastforce+
qed

section \<open>What the lookup finds\<close>

abbreviation bs_found :: "(pyval \<Rightarrow> pystr) \<Rightarrow> bs_class \<Rightarrow> string \<Rightarrow> bs_member member option" where
  "bs_found rep c \<equiv> found_attr (bs_attrs_of rep c) (bs_ancestors rep c)"

lemmas bs_attrs_defs = bs_UNKNOWN_attrs_def bs_base_SET_PHONE_attrs_def bs_base_LOC_DATA_attrs_def
  bs_AL_attrs_def bs_CALL_attrs_def bs_CENTER_attrs_def bs_CONFIG_attrs_def bs_CR_attrs_def
  bs_FIND_attrs_def bs_FLOWER_attrs_def bs_ICCID_attrs_def bs_LK_attrs_def bs_LZ_attrs_def
  bs_MESSAGE_attrs_def bs_MONITOR_attrs_def bs_base_PHB_attrs_def bs_PHB_attrs_def
  bs_PHB2_attrs_def bs_POWEROFF_attrs_def bs_RESET_attrs_def bs_SOS_attrs_def bs_SOS1_attrs_def
  bs_SOS2_attrs_def bs_SOS3_attrs_def bs_TK_attrs_def bs_TKQ_attrs_def bs_TKQ2_attrs_def
  bs_UD_attrs_def bs_UD2_attrs_def bs_UPLOAD_attrs_def bs_BeeSurePkt_attrs_def

lemmas bs_found_defs = found_attr_def bs_BeeSurePkt_order_def bs_class_defs bs_attrs_defs

lemma bs_found_PROTO: "bs_found rep c ''PROTO'' = Some (Member (B_Proto proto_of_name))"
  by (cases c) (simp_all add: bs_found_defs)

lemma bs_found_proto_name:
  "bs_found rep c ''proto_name'' = Some (Member (B_Proto (\<lambda>name. BS_PREFIX @ take 16 (proto_of_name name))))"
  by (cases c) (simp_all add: bs_found_defs)

lemma bs_found_BINARY: "bs_found rep c ''BINARY'' = Some (Member (B_Binary (bs_BINARY c)))"
  by (cases c) (simp_all add: bs_found_defs bs_BINARY_def)

lemma bs_found_RESPOND: "bs_found rep c ''RESPOND'' = Some (Member (B_Responds (bs_RESPOND c)))"
  by (cases c) (simp_all add: bs_found_defs)

lemma bs_found_IN_KWARGS: "bs_found rep c ''IN_KWARGS'' = Some (Member (B_Kwargs []))"
  by (cases c) (simp_all add: bs_found_defs)

lemma bs_found_OUT_KWARGS: "bs_found rep c ''OUT_KWARGS'' = Some (Member (B_Kwargs (bs_OUT_KWARGS rep c)))"
  by (cases c) (simp_all add: bs_found_defs)

lemma bs_in_decode_loc: "bs_loc_class c \<Longrightarrow> bs_in_decode c = LOC_DATA_in_decode"
  by (auto simp: fun_eq_iff bs_in_decode_def bs_loc_class_def split: bs_payload.split)

lemma bs_in_decode_LK: "bs_in_decode LK = LK_in_decode"
  by (auto simp: fun_eq_iff bs_in_decode_def bs_loc_class_def split: bs_payload.split)

lemma bs_in_decode_TK: "bs_in_decode TK = TK_in_decode"
  by (auto simp: fun_eq_iff bs_in_decode_def bs_loc_class_def split: bs_payload.split)

lemma bs_in_decode_none:
  "\<not> bs_loc_class c \<Longrightarrow> c \<notin> {LK, TK} \<Longrightarrow> bs_in_decode c = (\<lambda>args. Inr No_Attrs)"
  by (auto simp: fun_eq_iff bs_in_decode_def split: bs_payload.split)

lemmas bs_in_decode_fun = bs_in_decode_loc bs_in_decode_LK bs_in_decode_TK bs_in_decode_none

lemma bs_found_in_decode: "bs_found rep c ''in_decode'' = Some (Member (B_Decode (bs_in_decode c)))"
  by (cases c) (simp_all add: bs_found_defs bs_in_decode_fun bs_loc_class_def)

lemma bs_found_out_decode: "bs_found rep c ''out_decode'' = Some (Member (B_Decode (bs_decode Out c)))"
  by (cases c) (simp_all add: bs_found_defs bs_decode_def fun_eq_iff)

lemma bs_found_in_encode: "bs_found rep c ''in_encode'' = Some (Member (B_Encode_In (bs_in_encode c)))"
  by (cases c) (simp_all add: bs_found_defs bs_in_encode_def)

lemma bs_found_out_encode: "bs_found rep c ''out_encode'' = Some (Member (B_Encode_Out (bs_out_encode c)))"
  by (cases c) (simp_all add: bs_found_defs fun_eq_iff)

lemma bs_found_rectified: "(\<exists>v. bs_found rep c ''rectified'' = Some v) \<longleftrightarrow> bs_loc_class c"
  by (cases c) (simp_all add: bs_found_defs bs_loc_class_def)

interpretation bsc: class_statements bs_ident "bs_base rep" "bs_attrs_of rep" "bs_ancestors rep" for rep
  by unfold_locales (rule bs_base_order bs_ident_fresh)+

definition bs_newcls :: "(pyval \<Rightarrow> pystr) \<Rightarrow> bs_class \<Rightarrow> bs_pyclass" where
  "bs_newcls rep c = made_class (bs_ident c) [bs_base rep c] (bs_attrs_of rep c)"

lemmas bs_newcls_get = bsc.newcls_get [folded bs_newcls_def]
lemmas bs_nested_facts = bsc.nested_get [folded bs_newcls_def] bsc.nested_own [folded bs_newcls_def]
  bsc.nested_Out [folded bs_newcls_def] bsc.nested_has [folded bs_newcls_def]

lemmas bs_made = bsc.made [OF bs_found_IN_KWARGS bs_found_in_decode bs_found_in_encode bs_found_OUT_KWARGS
    bs_found_out_decode bs_found_out_encode, folded bs_newcls_def bs_packet_class_def]

lemma bs_ident_PROTO: "u (bs_ident c) = bs_PROTO c"
  by (cases c) simp_all

lemma proto_of_names:
  "proto_of_name (u (bs_ident c)) = bs_PROTO c"
  "proto_of_name (u (bs_ident c @ ''.In'')) = bs_PROTO c"
  "proto_of_name (u (bs_ident c @ ''.Out'')) = bs_PROTO c"
  by (cases c; simp add: proto_of_name_def)+

section \<open>The table of the module\<close>

text \<open>
  The classes among the names of the module, with the imported \<open>ProtoClass\<close>; what else is there is no
  class derived from \<open>BeeSurePkt\<close>. Those without an underscore are registered, the base class too.
\<close>

definition bs_globals :: "(pyval \<Rightarrow> pystr) \<Rightarrow> bs_pyclass list" where
  "bs_globals rep = [bs_ProtoClass] @
     map (bs_newcls rep) [BeeSurePkt, UNKNOWN] @
     [class_bs_base_SET_PHONE rep] @
     [class_bs_base_LOC_DATA] @
     map (bs_newcls rep) [AL, CALL, CENTER, CONFIG, CR, FIND, FLOWER, ICCID, LK, LZ, MESSAGE, MONITOR] @
     [class_bs_base_PHB] @
     map (bs_newcls rep) [PHB, PHB2, POWEROFF, RESET, SOS, SOS1, SOS2, SOS3, TK, TKQ, TKQ2, UD, UD2, UPLOAD]"

definition bs_registers :: "bs_pyclass \<Rightarrow> bool" where
  "bs_registers c \<longleftrightarrow> py_issubclass c ''BeeSurePkt'' \<and> take 1 (cl_name c) \<noteq> ''_''"

definition bs_registered :: "(pyval \<Rightarrow> pystr) \<Rightarrow> bs_pyclass list" where
  "bs_registered rep = filter bs_registers (bs_globals rep)"

lemma bs_newcls_name: "cl_name (bs_newcls rep c) = bs_ident c"
  by (simp add: bs_newcls_def made_class_def)

lemma bs_newcls_registers: "bs_registers (bs_newcls rep c)"
proof -
  have "''BeeSurePkt'' \<in> cl_name ` set (bs_newcls rep c # bs_ancestors rep c)"
    using bs_ancestor_names(2) [of rep c] by (cases "c = BeeSurePkt") (simp_all add: bs_newcls_name)
  moreover have "take 1 (bs_ident c) \<noteq> ''_''"
    by (cases c) simp_all
  moreover have "mro (bs_newcls rep c) = Inr (bs_newcls rep c # bs_ancestors rep c)"
    using bsc.newcls_order [of c rep] by (simp add: bs_newcls_def in_order_def)
  ultimately show ?thesis by (simp add: bs_registers_def bs_newcls_name)
qed

lemma bs_others_not:
  "\<not> bs_registers bs_ProtoClass" "\<not> bs_registers (class_bs_base_SET_PHONE rep)"
  "\<not> bs_registers class_bs_base_LOC_DATA" "\<not> bs_registers class_bs_base_PHB"
proof -
  show "\<not> bs_registers bs_ProtoClass"
    using proto_order [of "B_Kwargs []" B_Stub]
    by (simp add: bs_registers_def in_order_def) (simp add: proto_roots_def proto_defs)
qed (simp_all add: bs_registers_def bs_class_defs)

lemma bs_registered_eq: "bs_registered rep = map (bs_newcls rep) bs_all"
  by (simp add: bs_registered_def bs_globals_def bs_others_not bs_newcls_registers bs_all_def)

section \<open>Properties\<close>

text \<open>
  C13: The message classes of this module are what the rest of the model says: each statement is
  accepted by the metaclass, lookup finds in the three classes it makes the verb of the class (not
  the qualified name of the nested one), its kinds, its tables, its decoder and encoder, own or
  inherited, and a report can be made of the location messages only.
\<close>

theorem bs_classes_resolved:
  "\<exists>pc. bs_packet_class rep c = Inr pc \<and>
     list_all (\<lambda>cls. \<exists>f. class_get cls ''PROTO'' = Inr (Member (B_Proto f)) \<and> f (u (cl_name cls)) = bs_PROTO c)
       [pc_newcls pc, pc_In pc, pc_Out pc] \<and>
     class_get (pc_newcls pc) ''RESPOND'' = Inr (Member (B_Responds (bs_RESPOND c))) \<and>
     class_get (pc_newcls pc) ''BINARY'' = Inr (Member (B_Binary (bs_BINARY c))) \<and>
     instance_get (pc_Out pc) ''KWARGS'' = Inr (Member (B_Kwargs (bs_OUT_KWARGS rep c))) \<and>
     instance_get (pc_Out pc) ''encode'' = Inr (Member (B_Encode_Out (bs_out_encode c))) \<and>
     instance_get (pc_In pc) ''encode'' = Inr (Member (B_Encode_In (bs_in_encode c))) \<and>
     instance_get (pc_In pc) ''decode'' = Inr (Member (B_Decode (bs_decode In c))) \<and>
     instance_get (pc_Out pc) ''decode'' = Inr (Member (B_Decode (bs_decode Out c))) \<and>
     (returns (instance_get (pc_In pc) ''rectified'') \<longleftrightarrow> bs_loc_class c)"
proof -
  from bs_made [of rep c] obtain pc where pc: "bs_packet_class rep c = Inr pc" "pc_newcls pc = bs_newcls rep c"
    and i: "nested_class (bs_newcls rep c) (bs_ancestors rep c) (bs_ident c @ ''.In'')
      [(''KWARGS'', Member (B_Kwargs [])), (''decode'', Member (B_Decode (bs_in_decode c))),
       (''encode'', Member (B_Encode_In (bs_in_encode c)))] (pc_In pc)"
    and t: "nested_class (bs_newcls rep c) (bs_ancestors rep c) (bs_ident c @ ''.Out'')
      [(''KWARGS'', Member (B_Kwargs (bs_OUT_KWARGS rep c))), (''decode'', Member (B_Decode (bs_decode Out c))),
       (''encode'', Member (B_Encode_Out (bs_out_encode c)))] (pc_Out pc)"
    by metis
  have names: "cl_name (pc_newcls pc) = bs_ident c" "cl_name (pc_In pc) = bs_ident c @ ''.In''"
    "cl_name (pc_Out pc) = bs_ident c @ ''.Out''"
    using i t by (simp_all add: pc(2) nested_class_def bs_newcls_def made_class_def)
  have get: "class_get cls ''PROTO'' = Inr (Member (B_Proto proto_of_name))"
    if "cls \<in> {pc_newcls pc, pc_In pc, pc_Out pc}" for cls
    using that bs_newcls_get [OF bs_found_PROTO] instance_class_get [OF bs_nested_facts(1) [OF i _ bs_found_PROTO]]
      instance_class_get [OF bs_nested_facts(1) [OF t _ bs_found_PROTO]]
    by (auto simp: pc(2))
  have dec: "bs_decode In c = bs_in_decode c" by (simp add: bs_decode_def fun_eq_iff)
  show ?thesis
    using pc names get proto_of_names [of c] bs_newcls_get [OF bs_found_RESPOND] bs_newcls_get [OF bs_found_BINARY]
      bs_nested_facts(2) [OF t] bs_nested_facts(2) [OF i] bs_nested_facts(4) [OF i, of "''rectified''"]
      bs_found_rectified [of rep c] dec
    by simp
qed

text \<open>
  The loop over the module's names registers the classes in the order of the model, under their names;
  \<open>BeeSurePkt\<close> itself is among them.
\<close>

theorem bs_table_registered: "map cl_name (bs_registered rep) = map bs_ident bs_all"
  by (simp add: bs_registered_eq comp_def bs_newcls_name)

end
