(* ===== verification/Zmsg_Object.thy ===== *)
theory Zmsg_Object
  imports Zmsg
begin

text \<open>
  The messages of \<open>loctrkd/zmsg.py\<close> as the objects that \<open>_Zmsg\<close> makes them: the constructor, which
  decodes its only argument or takes the fields by keyword, comparison, and the text. The records of
  \<open>Zmsg\<close> are these objects with all their fields.
\<close>

unbundle bit_operations_syntax

section \<open>Fields\<close>

datatype zclass = Bcast | Resp | Rept

datatype zvalue = Z_None | Z_Bool bool | Z_Str pystr | Z_Bytes bytes | Z_Float "64 word" | Z_Peer peeraddr

type_synonym zfields = "(string \<times> zvalue) list"

fun zmsg_KWARGS :: "zclass \<Rightarrow> zfields" where
  "zmsg_KWARGS Bcast =
     [(''is_incoming'', Z_Bool True), (''proto'', Z_Str (u ''UNKNOWN'')), (''pmod'', Z_None), (''imei'', Z_None),
      (''when'', Z_None), (''peeraddr'', Z_None), (''packet'', Z_Bytes [])]"
| "zmsg_KWARGS Resp = [(''imei'', Z_None), (''when'', Z_None), (''packet'', Z_Bytes [])]"
| "zmsg_KWARGS Rept = [(''imei'', Z_None), (''payload'', Z_Str [])]"

definition or_None :: "('a \<Rightarrow> zvalue) \<Rightarrow> 'a option \<Rightarrow> zvalue" where
  "or_None f v = (case v of None \<Rightarrow> Z_None | Some x \<Rightarrow> f x)"

definition bcast_fields :: "bcast \<Rightarrow> zfields" where
  "bcast_fields m =
     [(''is_incoming'', Z_Bool (b_is_incoming m)), (''proto'', Z_Str (b_proto m)), (''pmod'', or_None Z_Str (b_pmod m)),
      (''imei'', or_None Z_Str (b_imei m)), (''when'', or_None Z_Float (b_when m)),
      (''peeraddr'', or_None Z_Peer (b_peeraddr m)), (''packet'', Z_Bytes (b_packet m))]"

definition resp_fields :: "resp \<Rightarrow> zfields" where
  "resp_fields m = [(''imei'', or_None Z_Str (r_imei m)), (''when'', or_None Z_Float (r_when m)),
     (''packet'', Z_Bytes (r_packet m))]"

definition rept_fields :: "rept \<Rightarrow> zfields" where
  "rept_fields m = [(''imei'', or_None Z_Str (p_imei m)), (''payload'', Z_Str (p_payload m))]"

section \<open>The constructor\<close>

fun zmsg_decode :: "zclass \<Rightarrow> bytes \<Rightarrow> zfields res" where
  "zmsg_decode Bcast buffer = and_then (bcast_decode buffer) (\<lambda>m. Inr (bcast_fields m))"
| "zmsg_decode Resp buffer = and_then (resp_decode buffer) (\<lambda>m. Inr (resp_fields m))"
| "zmsg_decode Rept buffer = and_then (rept_decode buffer) (\<lambda>m. Inr (rept_fields m))"

text \<open>
  Keywords are looked at only without a single positional argument; a keyword that is no field is passed
  over; with neither, it raises.
\<close>

definition zmsg_new :: "zclass \<Rightarrow> bytes list \<Rightarrow> zfields \<Rightarrow> zfields res" where
  "zmsg_new cls args kwargs =
     (if length args = 1 then zmsg_decode cls (args ! 0)
      else if kwargs \<noteq> [] then
        Inr (map (\<lambda>(k, v). (k, case map_of kwargs k of Some x \<Rightarrow> x | None \<Rightarrow> v)) (zmsg_KWARGS cls))
      else Inl RuntimeError)"

section \<open>Comparison\<close>

text \<open>\<open>==\<close> of two floats, given by their bits: a NaN equals nothing, the two zeros are equal.\<close>

definition is_nan :: "64 word \<Rightarrow> bool" where
  "is_nan w \<longleftrightarrow> w AND 0x7FF0000000000000 = 0x7FF0000000000000 \<and> w AND 0x000FFFFFFFFFFFFF \<noteq> 0"

definition float_eq :: "64 word \<Rightarrow> 64 word \<Rightarrow> bool" where
  "float_eq v w \<longleftrightarrow> \<not> is_nan v \<and> \<not> is_nan w \<and>
     (v = w \<or> v AND 0x7FFFFFFFFFFFFFFF = 0 \<and> w AND 0x7FFFFFFFFFFFFFFF = 0)"

fun zvalue_eq :: "zvalue \<Rightarrow> zvalue \<Rightarrow> bool" where
  "zvalue_eq (Z_Float v) (Z_Float w) = float_eq v w"
| "zvalue_eq a b = (a = b)"

text \<open>
  \<open>self == other\<close>; \<open>None\<close> is \<open>NotImplemented\<close>. Each object has the fields of its class.
\<close>

definition zmsg_eq :: "zclass \<times> zfields \<Rightarrow> zclass \<times> zfields \<Rightarrow> bool option" where
  "zmsg_eq self other =
     (if fst other = fst self then
        Some (list_all (\<lambda>(k, v). case (map_of (snd self) k, map_of (snd other) k) of
            (Some a, Some b) \<Rightarrow> zvalue_eq a b
          | _ \<Rightarrow> False) (zmsg_KWARGS (fst self)))
      else None)"

text \<open>\<open>repr(self)\<close>; \<open>fmt\<close> formats floats and addresses\<close>

definition zvalue_text :: "(zvalue \<Rightarrow> pystr) \<Rightarrow> zvalue \<Rightarrow> pystr" where
  "zvalue_text fmt v =
     (case v of
        Z_None \<Rightarrow> u ''None''
      | Z_Bool b \<Rightarrow> if b then u ''True'' else u ''False''
      | Z_Str s \<Rightarrow> s
      | Z_Bytes b \<Rightarrow> u ''bytes.fromhex('' @ [34] @ hex_bytes b @ [34] @ u '')''
      | _ \<Rightarrow> fmt v)"

fun zclass_name :: "zclass \<Rightarrow> pystr" where
  "zclass_name Bcast = u ''Bcast''"
| "zclass_name Resp = u ''Resp''"
| "zclass_name Rept = u ''Rept''"

definition zmsg_repr :: "(zvalue \<Rightarrow> pystr) \<Rightarrow> zclass \<times> zfields \<Rightarrow> pystr res" where
  "zmsg_repr fmt self =
     and_then (map_res (\<lambda>(k, _). case map_of (snd self) k of
         Some v \<Rightarrow> Inr (map of_char k @ [61] @ zvalue_text fmt v)
       | None \<Rightarrow> Inl AttributeError) (zmsg_KWARGS (fst self))) (\<lambda>items.
       Inr (zclass_name (fst self) @ u ''('' @ join_with (u '', '') items @ u '')''))"

section \<open>Properties\<close>

text \<open>
  An object that is given some of its fields has the others from the defaults, whatever else is given:
  the broadcast of a packet, as the collector makes it, is the record of which the other theories speak.
\<close>

theorem bcast_made:
  assumes "set [(''proto'', Z_Str n), (''pmod'', or_None Z_Str pm), (''imei'', or_None Z_Str i), (''when'', Z_Float t),
      (''peeraddr'', Z_Peer a), (''packet'', Z_Bytes p)] \<subseteq> set kwargs"
    and "distinct (map fst kwargs)" and "''is_incoming'' \<notin> fst ` set kwargs"
  shows "zmsg_new Bcast [] kwargs = Inr (bcast_fields \<lparr>b_is_incoming = True, b_proto = n, b_pmod = pm, b_imei = i,
    b_when = Some t, b_peeraddr = Some a, b_packet = p\<rparr>)"
proof -
  have "map_of kwargs k = Some v" if "(k, v) \<in> set kwargs" for k v
    using that assms(2) by simp
  moreover have "map_of kwargs ''is_incoming'' = None" using assms(3) by (simp add: map_of_eq_None_iff)
  ultimately show ?thesis using assms(1) by (auto simp: zmsg_new_def bcast_fields_def or_None_def)
qed

lemma zmsg_eq_fields:
  "zmsg_eq (Bcast, bcast_fields m) (Bcast, bcast_fields m') = Some
     (b_is_incoming m = b_is_incoming m' \<and> b_proto m = b_proto m' \<and> b_pmod m = b_pmod m' \<and> b_imei m = b_imei m' \<and>
      zvalue_eq (or_None Z_Float (b_when m)) (or_None Z_Float (b_when m')) \<and> b_peeraddr m = b_peeraddr m' \<and>
      b_packet m = b_packet m')"
  by (auto simp: zmsg_eq_def bcast_fields_def or_None_def split: option.split)

text \<open>
  What arrives is what was sent, but not always equal to it. The copy of a broadcast that a subscriber
  makes of the bytes compares equal to the original exactly if that has a time that is a number, and a
  peer address as a pair in the normal form of the wire: not for a copy of a response, which has
  no address.
\<close>

theorem bcast_copy_equal:
  assumes "wf_bcast m" and "bcast_packed m = Inr bs"
  shows "\<exists>copy. zmsg_new Bcast [bs] [] = Inr copy \<and>
    (zmsg_eq (Bcast, copy) (Bcast, bcast_fields m) = Some True \<longleftrightarrow>
      (\<exists>w. b_when m = Some w \<and> \<not> is_nan w) \<and> b_peeraddr m = Some (norm_peer (b_peeraddr m)))"
proof -
  have "zmsg_new Bcast [bs] [] = Inr (bcast_fields (norm_bcast m))"
    using bcast.decode_packed [OF assms] by (simp add: zmsg_new_def)
  moreover have "zvalue_eq (Z_Float w) (or_None Z_Float (b_when m)) \<longleftrightarrow> (\<exists>w. b_when m = Some w \<and> \<not> is_nan w)"
    if "w = when_bits (b_when m)" for w
    using that by (cases "b_when m") (auto simp: when_bits_def float_eq_def or_None_def)
  ultimately show ?thesis by (auto simp: zmsg_eq_fields norm_bcast_def or_None_def)
qed

theorem bcast_copy_equal_witness:
  "\<exists>bs copy. bcast_packed (bcast_example\<lparr>b_peeraddr := None\<rparr>) = Inr bs \<and> zmsg_new Bcast [bs] [] = Inr copy \<and>
    zmsg_eq (Bcast, copy) (Bcast, bcast_fields (bcast_example\<lparr>b_peeraddr := None\<rparr>)) = Some False"
proof -
  let ?m = "bcast_example\<lparr>b_peeraddr := None\<rparr>"
  have wf: "wf_bcast ?m" using wf_bcast_example by (simp add: wf_bcast_def wf_peer_def)
  from bcast.round [OF wf] obtain bs where bs: "bcast_packed ?m = Inr bs" by blast
  from bcast_copy_equal [OF wf bs] obtain copy where c: "zmsg_new Bcast [bs] [] = Inr copy"
    "zmsg_eq (Bcast, copy) (Bcast, bcast_fields ?m) \<noteq> Some True" by auto
  moreover have "zmsg_eq (Bcast, copy) (Bcast, bcast_fields ?m) \<noteq> None" by (simp add: zmsg_eq_def)
  ultimately show ?thesis using bs by (metis (full_types) option.exhaust)
qed

end
