(* ===== verification/Spec2Isabelle.thy ===== *)
theory Spec2Isabelle
  imports Startup Gm_Program Lookaside Ocid_dload ZX_Hierarchy BS_Hierarchy Zmsg_Object
begin

text \<open>
  A verification library for \<open>loctrkd\<close>, a server that collects positions from GPS trackers.

  \<^bold>\<open>The program.\<close> Terminals connect over TCP to the collector (\<open>collector.py\<close>), which cuts
  their streams into packets with the help of one of two protocol modules (\<open>zx303proto.py\<close>,
  \<open>beesure.py\<close>), answers what can be answered at once, and publishes every packet over ZeroMQ
  (\<open>zmsg.py\<close>). The other services subscribe: the rectifier (\<open>rectifier.py\<close>) makes
  protocol-independent reports of messages, asking a backend (\<open>opencellid.py\<close>, \<open>googlemaps.py\<close>) for
  the position where a terminal only saw cell towers; termconfig (\<open>termconfig.py\<close>) answers requests for settings;
  storage (\<open>storage.py\<close>) keeps packets and reports in a database (\<open>evstore.py\<close>); the gateway
  (\<open>wsgateway.py\<close>) shows positions to browsers and takes their commands. Responses and commands go
  back to the collector over a pull socket.

  \<^bold>\<open>Theories.\<close>
  \<^item> \<open>Prelude\<close>, \<open>Pystd\<close>, \<open>Pytext\<close>, \<open>Pynum\<close>, \<open>Pyval\<close>, \<open>Pyformat\<close>: Python's values, exceptions as
    values (\<open>res\<close>), slices, \<open>struct\<close>, text codecs, numbers and their formats, dates, dynamically
    typed attributes.
  \<^item> \<open>Proto_Module\<close>: the interfaces of a deframer as locales, after \<open>protomodule.py\<close>; \<open>ZX_Stream\<close>
    and \<open>BS_Stream\<close> interpret them on the two \<open>Stream\<close> classes.
  \<^item> \<open>Pyclass\<close>: class objects, the order of their bases, attribute lookup, and the metaclass of
    \<open>protomodule.py\<close>. \<open>ZX_Hierarchy\<close>, \<open>BS_Hierarchy\<close>: the class statements of the two modules, and that
    executing them gives the tables, decoders and encoders that the next theories define class by class.
  \<^item> \<open>ZX_Classes\<close>, \<open>ZX_Packets\<close>, \<open>ZX_Encode\<close>, \<open>ZX_Proto\<close>: the message classes of \<open>zx303proto.py\<close>,
    their decoding, their encoding, and the functions of the module. \<open>BS_Packets\<close>, \<open>BS_Proto\<close>: the
    same for \<open>beesure.py\<close>. \<open>Reports\<close> and \<open>Json\<close>: the report classes of \<open>common.py\<close>.
  \<^item> \<open>Zmsg\<close>, \<open>Zmsg_Object\<close>: the messages between services, as records and as the objects that the code
    makes of them, and the topics. \<open>Common\<close>: the choice of a protocol module,
    and the contract (\<open>packet_module\<close>) that the collector relies on, interpreted on both modules.
  \<^item> \<open>Clients\<close>, \<open>Sessions\<close>, \<open>Collector\<close>: the connected terminals with their invariant; the refinement
    of an abstract map of sessions; an iteration of the event loop as a function of what \<open>poll\<close> and
    the sockets yield, and the loop as a step relation.
  \<^item> \<open>Published\<close>: what subscribers of the collector get. \<open>Rectifier\<close>, \<open>Termconfig\<close>, \<open>Opencellid\<close>,
    \<open>Googlemaps\<close>: a round of each service, and the lookup of a position. \<open>Lookaside\<close>: the interface of
    the lookup as a locale, interpreted on both backends. \<open>Ocid_dload\<close>: the program that fills the
    table of the lookup (\<open>ocid_dload.py\<close>).
  \<^item> \<open>Evstore\<close>, \<open>Storage\<close>: the tables as lists of rows, and what is written to them for each message.
  \<^item> \<open>Websocket\<close>, \<open>Wsgateway\<close>, \<open>Browsers\<close>, \<open>Commands\<close>: the connections of browsers, the gateway's
    round, its properties, and the way of a command to the collector.
  \<^item> \<open>Pipeline\<close>: the way of a report through the services, of which the property at the end of this
    theory is composed. \<open>Cmdline\<close>: the programs started by hand (\<open>__main__.py\<close>, \<open>qry.py\<close>, \<open>watch.py\<close>,
    \<open>mkgpx.py\<close>).
  \<^item> \<open>Services\<close>: what each service does before its loop and after it, as operations on sockets; the way of a
    setting from the configuration to the terminal. \<open>Startup\<close>: options, \<open>common.init\<close>, the main blocks;
    \<open>Gm_Program\<close>: the program in the main block of \<open>googlemaps.py\<close>.

  \<^bold>\<open>State and operations\<close> have the names of the code: a record for each object or loop, a function for
  each method, a function of the events for each body of an endless loop. Shared objects (the
  collector's clients, which two dictionaries hold) stand in an explicit heap.

  \<^bold>\<open>What the properties show.\<close> The deframers deliver what terminals frame, however TCP cuts it (as
  long as no call overflows the bound of the buffer, in which case they drop what they have), and nothing else. Parsing never raises but on the packets that are named. No bytes that a terminal can
  send stop the collector, terminals have one session each, and a response goes to that session only.
  Messages survive the wire, and topics select exactly what they name. Reports are stored and found
  again; a message of a terminal becomes a report that reaches exactly the browsers that want it (whose
  connections must be open), and a point of the terminal's track; messages of different terminals do not disturb each other. The answers
  of the rectifier and of termconfig, and the commands of the gateway, are such that the collector can send them, and a terminal
  that asks gets its own settings. The services connect to what others bind. Other
  properties show where this fails: a service that a terminal or a browser can stop (by a malformed message, or by closing its websocket
  before a report comes), a command made
  for the wrong module, data that waits for ever, a terminal that is reported where another one is.

  \<^bold>\<open>Bounds.\<close> There is no fuel: the loops of the deframers are \<open>function\<close>s whose measure is the length of
  the buffer; the iterator over a compressed body ends because the body does. Octets and the bits of a
  double are words, Python's integers are \<open>int\<close>, and where SQLite or \<open>struct\<close> bound an integer the model
  raises. Finite floats are exact rationals.

  \<^bold>\<open>Assumptions.\<close> What belongs to the standard library or to packages is a parameter where the code
  cannot be read here: the conversion of time zones, \<open>repr\<close>, the JSON text (where used, \<open>loads\<close> undoes
  \<open>dumps\<close>), the clock, the websocket engine, how much a socket takes, the online lookup, the
  decompressor, the CSV reader, and what \<open>configparser\<close> reads. The websocket engine may raise whenever it is
  called; where a property needs a frame to be made it says for which connections. Accepting a connection
  succeeds (a failure is an event of the models, and ends the service). Ending the ZeroMQ context closes its
  sockets. The poller reports a descriptor once and a listening socket before the terminals; an open
  descriptor is not given out again.

  \<^bold>\<open>Not modelled:\<close> the log (its texts and levels), the \<open>__repr__\<close> of packets and reports (a parameter where
  \<open>qry.py\<close> and \<open>watch.py\<close> print them), and the stubs for the type checker (\<open>ProtoModule\<close>, what stands under
  \<open>TYPE_CHECKING\<close>).
\<close>

section \<open>From the terminal to the browser\<close>

text \<open>
  C2: A report goes all the way. Let a terminal of either module that has logged in (under an IMEI that is
  not the sixteen zeros that stand for none) send a message of an exposed name that is parsed as a position
  or a status, in whatever segment it comes. The collector publishes it; the rectifier is subscribed
  to it and publishes one report, which the gateway gets exactly when some browser asked for an IMEI with
  the topic of this terminal; then each browser that asked for this terminal and is ready gets one
  frame more, with the values of the message and the IMEI of the terminal, and no other browser gets any.
  The browsers that are ready and asked for the terminal must still be open, so that the engine makes
  frames for them (\<open>Browsers\<close> says what happens otherwise), and the gateway's subscriptions can be made. The
  clock shows a date, the rectifier has the module configured, and of JSON it is asked that the text is
  ASCII, and that \<open>loads\<close> undoes \<open>dumps\<close>.
\<close>

theorem report_from_terminal_to_browsers:
  assumes terminal: "server_inv sv" "valid_datetime now"
      "clients_recv (cf_tz conf) (cf_pmods conf) sk data (s_clients sv) = Inr (Some rs, cs)"
      "(pm, Some i, peer, p) \<in> set rs" "i \<noteq> replicate 16 48"
    and message: "pm_proto_of_message pm p = Inr n" "n \<in> fst ` set (pm_exposed_protos pm)"
      "pm_parse_message (re_tz renv) pm p In = Inr m" "pm_rectified m = Inr r" "\<forall>h. r \<noteq> HintReport h"
    and rectifier: "pm \<in> set (re_pmods renv)" "re_fromtimestamp renv (Some t) = Inr ()"
      "ascii (re_dumps renv (report_json r))" "rectifier_topics renv = Inr topics"
    and browsers: "gw_reachable g" "update_subs g = Inr g0"
      "we_loads env (re_dumps renv (report_json r)) = Inr (JObject (report_json r))"
    and opened: "\<forall>(fd, c) \<in> set (gw_clients g0). wants i c \<and> wc_ready c \<longrightarrow>
      (\<forall>txt. returns (we_send env (wc_ws c) (Ws_Message txt)))"
  shows "\<exists>sv' bt' msg b live cs'.
    handle_event conf (Client_In sk data t now) (sv, empty_batch) = Inr (sv', bt') \<and>
    msg \<in> set (published sv') \<and> (\<exists>topic \<in> set topics. prefix topic msg) \<and>
    rectify renv msg s = Inr ([Publish b], s) \<and>
    ((\<exists>topic \<in> set (gw_topics g0). prefix topic b) \<longleftrightarrow>
      (\<exists>(fd, c) \<in> set (gw_clients g0). \<exists>j. VStr j \<in> set (wc_imeis c) \<and> rtopic j = rtopic i)) \<and>
    live_message env b = Inr live \<and> map_of live = (map_of (report_json r))(u ''imei'' \<mapsto> VStr i) \<and>
    ws_send_all env live (gw_clients g0) = Inr (wanting i (gw_clients g0), cs') \<and>
    list_all2 (sent_to env live i) (gw_clients g0) cs'"
proof -
  from handle_event_published [OF terminal(1-3)] obtain sv' bt' msgs where
    h: "handle_event conf (Client_In sk data t now) (sv, empty_batch) = Inr (sv', bt')"
      "map_res (publish_in t) rs = Inr msgs" "published sv' = published sv @ msgs" by blast
  from map_res_Inr_mem [OF h(2) terminal(4)] obtain msg where
    msg: "msg \<in> set msgs" "publish_in t (pm, Some i, peer, p) = Inr msg" by blast
  have "clients_inv (s_clients sv)" using terminal(1) by (simp add: server_inv_def)
  with clients_recv_received [OF _ terminal(3)] terminal(4)
  have ok: "received_ok (pm, Some i, peer, p)" by blast
  have sub: "\<exists>topic \<in> set topics. prefix topic msg"
    by (rule rectifier_subscribed [OF ok msg(2) message(1,2) rectifier(1,4)])
  from rectify_report [OF ok msg(2) message rectifier(1-3) terminal(5)] obtain b where
    b: "rectify renv msg s = Inr ([Publish b], s)" "publish_report renv (Some i) r = Inr b" by blast
  have own: "fits16 i" by (rule own_imei_fits [OF received_own [OF ok refl]])
  have "sendable env live i (gw_clients g0)" for live using opened by (auto simp: sendable_def)
  note delivered = report_delivered [OF browsers(1,2) own terminal(5) b(2) rectifier(3) browsers(3), unfolded if_P [OF this]]
  from conjunct2 [OF delivered] obtain live cs' where live: "live_message env b = Inr live"
    "map_of live = (map_of (report_json r))(u ''imei'' \<mapsto> VStr i)"
    "ws_send_all env live (gw_clients g0) = Inr (wanting i (gw_clients g0), cs')"
    "list_all2 (sent_to env live i) (gw_clients g0) cs'" by blast
  have "msg \<in> set (published sv')" using h(3) msg(1) by simp
  with h(1) sub b(1) conjunct1 [OF delivered] live show ?thesis by (intro exI conjI)
qed

theorem report_from_terminal_to_browsers_witness:
  "\<exists>sv' bt' msg b live cs'.
    handle_event ex_config (Client_In 7 (Recv_Bytes (XX @ ex_status_packet @ ZX_Stream.CRLF)) 0 ex_now)
      (ex_zx_server, empty_batch) = Inr (sv', bt') \<and> msg \<in> set (published sv') \<and>
    rectify ex_env msg () = Inr ([Publish b], ()) \<and>
    map_of live (u ''imei'') = Some (VStr ex_zx_imei) \<and>
    ws_send_all ex_status_env live [(7, ex_sub)] = Inr ({7}, cs') \<and>
    list_all2 (sent_to ex_status_env live ex_zx_imei) [(7, ex_sub)] cs'"
proof -
  let ?r = "StatusReport \<lparr>sr_battery_percentage = 80\<rparr>"
  obtain z where z: "zx_parse_message (re_tz ex_env) ex_status_packet In = Inr z" "zo_cause z = None"
    "zx_rectified z = Inr ?r" using ex_status_parse by blast
  then have m: "pm_parse_message (re_tz ex_env) Zx303 ex_status_packet In = Inr (Zx_Obj z)"
    "pm_rectified (Zx_Obj z) = Inr ?r" by simp_all
  obtain cs where recv: "clients_recv (cf_tz ex_config) (cf_pmods ex_config) 7
      (Recv_Bytes (XX @ ex_status_packet @ ZX_Stream.CRLF)) (s_clients ex_zx_server) =
      Inr (Some [(Zx303, Some ex_zx_imei, ex_addr, ex_status_packet)], cs)"
    using ex_zx_recv by (auto simp: ex_zx_server_def)
  obtain topics where topics: "rectifier_topics ex_env = Inr topics" using rectifier_topics_returns by (auto simp: returns_def)
  obtain g0 where g0: "update_subs ex_subscribed = Inr g0" "gw_clients g0 = [(7, ex_sub)]"
    using ex_subscribed_update by blast
  have w: "wanting ex_zx_imei [(7, ex_sub)] = {7}" by (auto simp: wanting_def wants_def ex_sub_def)
  let ?x = "(Zx303, Some ex_zx_imei, ex_addr, ex_status_packet)"
  have x: "?x \<in> set [?x]" "\<forall>h. ?r \<noteq> HintReport h" by simp_all
  have n: "pm_proto_of_message Zx303 ex_status_packet = Inr (zx_proto_name (zo_class z))"
    using zx_parsed_name [OF z(1,2)] by simp
  have e: "zx_proto_name (zo_class z) \<in> fst ` set (pm_exposed_protos Zx303)"
    by (rule exposed_zx_name [OF rectified_exposed [OF z(3)]])
  have opened: "\<forall>(fd, c) \<in> set (gw_clients g0). wants ex_zx_imei c \<and> wc_ready c \<longrightarrow>
      (\<forall>txt. returns (we_send ex_status_env (wc_ws c) (Ws_Message txt)))"
    by (simp add: ex_status_env_simps)
  note way = report_from_terminal_to_browsers [where s = "()", OF ex_zx_server_inv ex_now_valid recv x(1) ex_zx_imei_nonzero n e m x(2)
      ex_env_simps(1-3) topics ex_subscribed_reachable g0(1) ex_status_env_simps(1) opened, of 0, unfolded g0(2) w]
  then obtain sv' bt' msg b live cs' where
    "handle_event ex_config (Client_In 7 (Recv_Bytes (XX @ ex_status_packet @ ZX_Stream.CRLF)) 0 ex_now)
      (ex_zx_server, empty_batch) = Inr (sv', bt')" "msg \<in> set (published sv')"
    "rectify ex_env msg () = Inr ([Publish b], ())" "map_of live = (map_of (report_json ?r))(u ''imei'' \<mapsto> VStr ex_zx_imei)"
    "ws_send_all ex_status_env live [(7, ex_sub)] = Inr ({7}, cs')"
    "list_all2 (sent_to ex_status_env live ex_zx_imei) [(7, ex_sub)] cs'"
    by (elim exE conjE) (rule that)
  moreover from this(4) have "map_of live (u ''imei'') = Some (VStr ex_zx_imei)" by simp
  ultimately show ?thesis by blast
qed

end
